theory Spec2Isabelle
  imports Main "HOL-Library.Word"
begin

unbundle bit_operations_syntax

section \<open>The DAOS page storage of RNTuple (RPageStorageDaos.cxx)\<close>

text \<open>
  A shallow embedding of the anonymous namespace of RPageStorageDaos.cxx (the page keys and
  the URI parser), of the anchor codec \<open>RDaosNTupleAnchor\<close>, of the committing half of
  \<open>RPageSinkDaos\<close> and of the bootstrap of \<open>RPageSourceDaos\<close>.

  Machine integers are words: \<open>std::uint32_t\<close> is \<open>32 word\<close>, \<open>std::uint64_t\<close>,
  \<open>long unsigned\<close> and \<open>std::size_t\<close> are \<open>64 word\<close>, a byte is \<open>8 word\<close>. A
  \<open>std::string\<close> is a \<open>string\<close>, one \<open>char\<close> per byte. An exception or a failed
  \<open>RResult\<close> is the left summand of a sum type.
\<close>

subsection \<open>Machine types, errors and raw memory\<close>

type_synonym byte = "8 word"
type_synonym u32 = "32 word"
type_synonym u64 = "64 word"

text \<open>
  The failures of the file. Each constructor stands for one \<open>R__FAIL\<close> message:
  \<open>InvalidUri\<close> for "Invalid DAOS pool URI.", \<open>UnknownObjectClass\<close> for
  "Unknown object class " followed by the name, \<open>AnchorTooShort\<close> for
  "DAOS anchor too short", \<open>AnchorDecodeFailed\<close> for the failure forwarded from the
  string decoder, \<open>WriteFailed\<close> for "WriteV: error" with the driver's code.
  \<open>LengthError\<close> is the \<open>std::length_error\<close> of \<open>std::vector::reserve\<close>.
  \<open>OutOfBounds\<close> is not an exception of the program: it marks an access outside the
  allocation a pointer refers to, which C++ leaves undefined. \<open>StackExhausted\<close> is no
  exception either: it marks the end of the process when a recursion of the C++ library
  runs out of stack.
\<close>

datatype error =
    InvalidUri
  | UnknownObjectClass string
  | AnchorTooShort
  | AnchorDecodeFailed
  | WriteFailed int
  | LengthError
  | OutOfBounds
  | StackExhausted

text \<open>
  A buffer is the content of one allocation; a pointer into it is an offset. \<open>poke\<close> is
  \<open>memcpy\<close> into the buffer and \<open>peek\<close> is \<open>memcpy\<close> out of it.
\<close>

type_synonym buffer = "byte list"

definition poke :: "buffer \<Rightarrow> nat \<Rightarrow> byte list \<Rightarrow> error + buffer" where
  "poke mem pos bs =
     (if pos + length bs \<le> length mem
      then Inr (take pos mem @ bs @ drop (pos + length bs) mem)
      else Inl OutOfBounds)"

definition peek :: "buffer \<Rightarrow> nat \<Rightarrow> nat \<Rightarrow> error + byte list" where
  "peek mem pos n =
     (if pos + n \<le> length mem then Inr (take n (drop pos mem)) else Inl OutOfBounds)"

text \<open>\<open>std::make_unique<unsigned char[]>(n)\<close> value-initialises: n zero bytes.\<close>

definition make_unique :: "nat \<Rightarrow> buffer" where
  "make_unique n = replicate n 0"

definition byte_of_char :: "char \<Rightarrow> byte" where
  "byte_of_char c = of_char c"

definition char_of_byte :: "byte \<Rightarrow> char" where
  "char_of_byte b = char_of (unat b)"

subsection \<open>RNTupleSerializer: the integer and string codecs\<close>

text \<open>
  \<open>RNTupleSerializer\<close> is not part of RPageStorageDaos.cxx. Its four functions used by
  the anchor are modelled from the specification's record layout. A pointer argument is an
  offset into the buffer, or \<open>None\<close> for \<open>nullptr\<close>; each function returns the number of
  bytes it covers.
\<close>

text \<open>Modelled from the spec: the byte order of RNTupleSerializer is not in this file; the
  spec's layout is little-endian. \<open>le32\<close> is the four bytes of a \<open>u32\<close>, least
  significant first, and \<open>un_le32\<close> the value of four such bytes.\<close>

definition le32 :: "u32 \<Rightarrow> byte list" where
  "le32 val = [ucast val, ucast (drop_bit 8 val), ucast (drop_bit 16 val), ucast (drop_bit 24 val)]"

definition un_le32 :: "byte list \<Rightarrow> u32" where
  "un_le32 bs =
     ucast (bs ! 0) OR push_bit 8 (ucast (bs ! 1)) OR push_bit 16 (ucast (bs ! 2)) OR
     push_bit 24 (ucast (bs ! 3))"

text \<open>Modelled from the spec: RNTupleSerializer::SerializeUInt32 is missing; the spec's
  layout stores every \<open>u32\<close> little-endian, and the serializer returns 4.\<close>

definition SerializeUInt32 :: "u32 \<Rightarrow> nat option \<Rightarrow> buffer \<Rightarrow> error + (u32 \<times> buffer)" where
  "SerializeUInt32 val ptr mem =
     (case ptr of
        None \<Rightarrow> Inr (4, mem)
      | Some pos \<Rightarrow>
          (case poke mem pos (le32 val) of
             Inl e \<Rightarrow> Inl e
           | Inr mem' \<Rightarrow> Inr (4, mem')))"

text \<open>Modelled from the spec: RNTupleSerializer::DeserializeUInt32 is missing; it reads the
  four bytes at the pointer as a little-endian \<open>u32\<close> and returns 4.\<close>

definition DeserializeUInt32 :: "buffer \<Rightarrow> nat \<Rightarrow> error + (u32 \<times> u32)" where
  "DeserializeUInt32 mem pos =
     (case peek mem pos 4 of
        Inl e \<Rightarrow> Inl e
      | Inr bs \<Rightarrow> Inr (4, un_le32 bs))"

text \<open>Modelled from the spec: RNTupleSerializer::SerializeString is missing; the spec's
  layout is the length as a \<open>u32\<close> prefix followed by the bytes of the string, and the
  length the buffer needs is returned also for a null buffer.\<close>

definition SerializeString :: "string \<Rightarrow> nat option \<Rightarrow> buffer \<Rightarrow> error + (u32 \<times> buffer)" where
  "SerializeString val ptr mem =
     (case ptr of
        None \<Rightarrow> Inr (4 + of_nat (length val), mem)
      | Some pos \<Rightarrow>
          (case SerializeUInt32 (of_nat (length val)) (Some pos) mem of
             Inl e \<Rightarrow> Inl e
           | Inr (n, mem1) \<Rightarrow>
               (case poke mem1 (pos + unat n) (map byte_of_char val) of
                  Inl e \<Rightarrow> Inl e
                | Inr mem2 \<Rightarrow> Inr (4 + of_nat (length val), mem2))))"

text \<open>Modelled from the spec: RNTupleSerializer::DeserializeString is missing; the spec
  bounds the decoder by the bytes left and names its failures "string decoding failed or
  truncated": the prefix does not fit, or the bytes after it are fewer than it announces.\<close>

definition DeserializeString :: "buffer \<Rightarrow> nat \<Rightarrow> u32 \<Rightarrow> error + (u32 \<times> string)" where
  "DeserializeString mem pos bufSize =
     (if bufSize < 4 then Inl AnchorDecodeFailed
      else
        (case DeserializeUInt32 mem pos of
           Inl e \<Rightarrow> Inl e
         | Inr (n, len) \<Rightarrow>
             if bufSize - 4 < len then Inl AnchorDecodeFailed
             else
               (case peek mem (pos + unat n) (unat len) of
                  Inl e \<Rightarrow> Inl e
                | Inr bs \<Rightarrow> Inr (4 + len, map char_of_byte bs))))"

subsection \<open>RDaosNTupleAnchor\<close>

record RDaosNTupleAnchor =
  fVersion :: u32
  fNBytesHeader :: u32
  fLenHeader :: u32
  fNBytesFooter :: u32
  fLenFooter :: u32
  fObjClass :: string

text \<open>Modelled from the spec: the declaration of the struct, with its member
  initialisers, is missing; the spec's \<open>maxSize\<close> counts no byte for the class name of a
  fresh anchor, so every field of \<open>RDaosNTupleAnchor()\<close> is zero or empty.\<close>

definition RDaosNTupleAnchor_default :: RDaosNTupleAnchor where
  "RDaosNTupleAnchor_default =
     \<lparr>fVersion = 0, fNBytesHeader = 0, fLenHeader = 0, fNBytesFooter = 0, fLenFooter = 0,
      fObjClass = []\<rparr>"

text \<open>
  \<open>Serialize(void *buffer)\<close>: the argument is \<open>None\<close> for \<open>nullptr\<close> and otherwise the
  allocation the pointer is the start of. The result is the returned length and the
  allocation after the call. \<open>bytes\<close> is the moving pointer of the source.
\<close>

definition Serialize :: "RDaosNTupleAnchor \<Rightarrow> buffer option \<Rightarrow> error + (u32 \<times> buffer option)" where
  "Serialize a buffer =
     (case
        (case buffer of
           None \<Rightarrow> Inr None
         | Some mem0 \<Rightarrow>
             (let bytes0 = 0 in
              case SerializeUInt32 (fVersion a) (Some bytes0) mem0 of Inl e \<Rightarrow> Inl e
              | Inr (n1, mem1) \<Rightarrow> let bytes1 = bytes0 + unat n1 in
             (case SerializeUInt32 (fNBytesHeader a) (Some bytes1) mem1 of Inl e \<Rightarrow> Inl e
              | Inr (n2, mem2) \<Rightarrow> let bytes2 = bytes1 + unat n2 in
             (case SerializeUInt32 (fLenHeader a) (Some bytes2) mem2 of Inl e \<Rightarrow> Inl e
              | Inr (n3, mem3) \<Rightarrow> let bytes3 = bytes2 + unat n3 in
             (case SerializeUInt32 (fNBytesFooter a) (Some bytes3) mem3 of Inl e \<Rightarrow> Inl e
              | Inr (n4, mem4) \<Rightarrow> let bytes4 = bytes3 + unat n4 in
             (case SerializeUInt32 (fLenFooter a) (Some bytes4) mem4 of Inl e \<Rightarrow> Inl e
              | Inr (n5, mem5) \<Rightarrow> let bytes5 = bytes4 + unat n5 in
             (case SerializeString (fObjClass a) (Some bytes5) mem5 of Inl e \<Rightarrow> Inl e
              | Inr (_, mem6) \<Rightarrow> Inr (Some mem6))))))))
      of
        Inl e \<Rightarrow> Inl e
      | Inr buffer' \<Rightarrow>
          (case SerializeString (fObjClass a) None [] of
             Inl e \<Rightarrow> Inl e
           | Inr (sz, _) \<Rightarrow> Inr (sz + 20, buffer')))"

text \<open>
  \<open>Deserialize(const void *buffer, std::uint32_t bufSize)\<close> assigns the fields of the
  anchor it is called on one by one, so the anchor after the call is part of the result
  also when the call fails: a failure of the string decoder leaves the five integers
  assigned and the class name as it was.
\<close>

definition Deserialize ::
  "RDaosNTupleAnchor \<Rightarrow> buffer \<Rightarrow> u32 \<Rightarrow> (error + u32) \<times> RDaosNTupleAnchor" where
  "Deserialize a mem bufSize =
     (if bufSize < 20 then (Inl AnchorTooShort, a)
      else
        (let bytes0 = 0 in
         case DeserializeUInt32 mem bytes0 of Inl e \<Rightarrow> (Inl e, a)
         | Inr (n1, v1) \<Rightarrow> let a1 = a\<lparr>fVersion := v1\<rparr>; bytes1 = bytes0 + unat n1 in
        (case DeserializeUInt32 mem bytes1 of Inl e \<Rightarrow> (Inl e, a1)
         | Inr (n2, v2) \<Rightarrow> let a2 = a1\<lparr>fNBytesHeader := v2\<rparr>; bytes2 = bytes1 + unat n2 in
        (case DeserializeUInt32 mem bytes2 of Inl e \<Rightarrow> (Inl e, a2)
         | Inr (n3, v3) \<Rightarrow> let a3 = a2\<lparr>fLenHeader := v3\<rparr>; bytes3 = bytes2 + unat n3 in
        (case DeserializeUInt32 mem bytes3 of Inl e \<Rightarrow> (Inl e, a3)
         | Inr (n4, v4) \<Rightarrow> let a4 = a3\<lparr>fNBytesFooter := v4\<rparr>; bytes4 = bytes3 + unat n4 in
        (case DeserializeUInt32 mem bytes4 of Inl e \<Rightarrow> (Inl e, a4)
         | Inr (n5, v5) \<Rightarrow> let a5 = a4\<lparr>fLenFooter := v5\<rparr>; bytes5 = bytes4 + unat n5 in
        (case DeserializeString mem bytes5 (bufSize - 20) of Inl e \<Rightarrow> (Inl e, a5)
         | Inr (n6, s) \<Rightarrow> (Inr (n6 + 20), a5\<lparr>fObjClass := s\<rparr>))))))))"

text \<open>
  \<open>GetSize()\<close>. \<open>RDaosObject::ObjClassId::kOCNameMaxLength\<close> is declared in the driver's
  header, which is not part of this file, so it is a parameter here and of every function
  that calls \<open>GetSize\<close>.
\<close>

definition GetSize :: "u64 \<Rightarrow> error + u32" where
  "GetSize kOCNameMaxLength =
     (case Serialize RDaosNTupleAnchor_default None of
        Inl e \<Rightarrow> Inl e
      | Inr (n, _) \<Rightarrow> Inr (ucast (ucast n + kOCNameMaxLength)))"

subsection \<open>The anonymous namespace: keys and the URI\<close>

text \<open>\<open>daos_obj_id_t\<close> is the driver's 128-bit object id, a struct of \<open>lo\<close> and \<open>hi\<close>.\<close>

record daos_obj_id_t =
  lo :: u64
  hi :: u64

type_synonym DistributionKey_t = u64
type_synonym AttributeKey_t = u64

datatype EDaosMapping = kOidPerCluster | kOidPerPage

record RDaosKey =
  fOid :: daos_obj_id_t
  fDkey :: DistributionKey_t
  fAkey :: AttributeKey_t

definition kDistributionKeyDefault :: DistributionKey_t where
  "kDistributionKeyDefault = 0x5a3c69f0cafe4a11"

definition kAttributeKeyDefault :: AttributeKey_t where
  "kAttributeKeyDefault = 0x4243544b53444229"

definition kAttributeKeyAnchor :: AttributeKey_t where
  "kAttributeKeyAnchor = 0x4243544b5344422a"

definition kAttributeKeyHeader :: AttributeKey_t where
  "kAttributeKeyHeader = 0x4243544b5344422b"

definition kAttributeKeyFooter :: AttributeKey_t where
  "kAttributeKeyFooter = 0x4243544b5344422c"

text \<open>\<open>std::uint64_t(-1)\<close> and \<open>std::uint64_t(-2)\<close> are negations in \<open>64 word\<close>.\<close>

definition kOidMetadata :: daos_obj_id_t where
  "kOidMetadata = \<lparr>lo = - 1, hi = 0\<rparr>"

definition kOidPageList :: daos_obj_id_t where
  "kOidPageList = \<lparr>lo = - 2, hi = 0\<rparr>"

text \<open>
  The driver's object classes. \<open>OC_SX\<close> and \<open>OC_UNKNOWN\<close> are the two the program names;
  \<open>OC_other\<close> stands for every other class of the driver.
\<close>

datatype daos_oclass_id_t = OC_UNKNOWN | OC_SX | OC_other nat

definition kCidMetadata :: daos_oclass_id_t where
  "kCidMetadata = OC_SX"

definition kDefaultDaosMapping :: EDaosMapping where
  "kDefaultDaosMapping = kOidPerCluster"

fun GetPageDaosKey :: "EDaosMapping \<Rightarrow> u64 \<Rightarrow> u64 \<Rightarrow> u64 \<Rightarrow> RDaosKey" where
  "GetPageDaosKey kOidPerCluster clusterId columnId pageCount =
     \<lparr>fOid = \<lparr>lo = clusterId, hi = 0\<rparr>, fDkey = columnId, fAkey = pageCount\<rparr>"
| "GetPageDaosKey kOidPerPage clusterId columnId pageCount =
     \<lparr>fOid = \<lparr>lo = pageCount, hi = 0\<rparr>, fDkey = kDistributionKeyDefault,
      fAkey = kAttributeKeyDefault\<rparr>"

record RDaosURI =
  fPoolLabel :: string
  fContainerLabel :: string

text \<open>
  \<open>ParseDaosURI\<close> matches the whole input against the regular expression
  \<open>daos://([^/]+)/(.+)\<close> with \<open>std::regex_match\<close>. The fragment of the ECMAScript
  grammar the expression uses is embedded: a literal, a repetition \<open>+\<close> of a character
  class, and a capturing group. The class \<open>.\<close> matches every character but the line
  terminators, \<open>[^...]\<close> every character not listed.
\<close>

datatype cclass = AnyChar | NoneOf "char list"

datatype piece = Lit string | Plus cclass | Capture piece

fun in_cclass :: "cclass \<Rightarrow> char \<Rightarrow> bool" where
  "in_cclass AnyChar c = (c \<noteq> CHR 0x0A \<and> c \<noteq> CHR 0x0D)"
| "in_cclass (NoneOf cs) c = (c \<notin> set cs)"

text \<open>
  The ways a piece can match a prefix of the input, as (match, rest), in the order the
  backtracking matcher tries them: \<open>+\<close> is greedy, the longest run first.
\<close>

fun piece_splits :: "piece \<Rightarrow> string \<Rightarrow> (string \<times> string) list" where
  "piece_splits (Lit l) s =
     (if take (length l) s = l then [(l, drop (length l) s)] else [])"
| "piece_splits (Plus c) s =
     map (\<lambda>n. (take n s, drop n s)) (rev [1 ..< Suc (length (takeWhile (in_cclass c) s))])"
| "piece_splits (Capture p) s = piece_splits p s"

fun is_capture :: "piece \<Rightarrow> bool" where
  "is_capture (Capture p) = True"
| "is_capture p = False"

fun first_some :: "'a option list \<Rightarrow> 'a option" where
  "first_some [] = None"
| "first_some (None # xs) = first_some xs"
| "first_some (Some x # xs) = Some x"

text \<open>\<open>regex_match\<close>: the first way to match all of the input; the result is the list of
  sub-matches \<open>m[1]\<close>, \<open>m[2]\<close>, ... of the capturing groups.\<close>

fun regex_match_from :: "piece list \<Rightarrow> string \<Rightarrow> string list \<Rightarrow> string list option" where
  "regex_match_from [] s caps = (if s = [] then Some caps else None)"
| "regex_match_from (p # ps) s caps =
     first_some
       (map (\<lambda>(m, rest). regex_match_from ps rest (if is_capture p then caps @ [m] else caps))
            (piece_splits p s))"

definition regex_match :: "string \<Rightarrow> piece list \<Rightarrow> string list option" where
  "regex_match s re = regex_match_from re s []"

text \<open>
  A \<open>std::string_view\<close> is a pointer and a length; it does not own its characters and
  nothing ends them. \<open>M_str\<close> is the content of the memory from the pointer to the end of
  the array it points into, \<open>M_len\<close> the length of the view: the view shows the first
  \<open>M_len\<close> characters of \<open>M_str\<close>.
\<close>

record string_view =
  M_str :: string
  M_len :: nat

text \<open>
  \<open>uri.data()\<close> is the pointer without the length. \<open>regex_match\<close> takes it as a C string
  and reads the memory up to the first NUL character, whatever the length of the view.
  Without a NUL in the array the read leaves the array.
\<close>

definition c_str :: "string \<Rightarrow> error + string" where
  "c_str mem =
     (if CHR 0x00 \<in> set mem then Inr (takeWhile (\<lambda>c. c \<noteq> CHR 0x00) mem)
      else Inl OutOfBounds)"

definition re :: "piece list" where
  "re = [Lit ''daos://'', Capture (Plus (NoneOf ''/'')), Lit ''/'', Capture (Plus AnyChar)]"

text \<open>
  \<open>ParseDaosURI\<close>. The matcher of the C++ library backtracks by recursion, and a long
  subject exhausts the stack. On which subjects it does depends on the library and on
  the stack of the process, so it is the parameter \<open>exhausts\<close>.
\<close>

definition ParseDaosURI :: "(string \<Rightarrow> bool) \<Rightarrow> string_view \<Rightarrow> error + RDaosURI" where
  "ParseDaosURI exhausts uri =
     (case c_str (M_str uri) of
        Inl e \<Rightarrow> Inl e
      | Inr subject \<Rightarrow>
          if exhausts subject then Inl StackExhausted
          else
            (case regex_match subject re of
               None \<Rightarrow> Inl InvalidUri
             | Some m \<Rightarrow> Inr \<lparr>fPoolLabel = m ! 0, fContainerLabel = m ! 1\<rparr>))"

subsection \<open>The container and the pages\<close>

text \<open>
  \<open>RDaosContainer\<close> is the driver; its code is not part of this file. The container is
  modelled as the sequence of the calls made on it, in order, each with its arguments. A
  buffer argument is recorded with its content at the time of the call. The object class
  of a call is optional, as in the driver's signature.
\<close>

type_synonym d_iov_t = "buffer \<times> u64"

type_synonym RWOperation = "(AttributeKey_t \<times> d_iov_t) list"

type_synonym MultiObjectRWOperation_t =
  "((daos_obj_id_t \<times> DistributionKey_t) \<times> RWOperation) list"

datatype daos_call =
    WriteSingleAkey buffer u64 daos_obj_id_t DistributionKey_t AttributeKey_t
      "daos_oclass_id_t option"
  | ReadSingleAkey u64 daos_obj_id_t DistributionKey_t AttributeKey_t
      "daos_oclass_id_t option"
  | WriteV MultiObjectRWOperation_t
  | SetDefaultObjectClass daos_oclass_id_t

type_synonym RDaosContainer = "daos_call list"

text \<open>Modelled from the spec: the declarations of the sealed page, of a group of sealed
  pages and of the locator are missing; the spec's locator is a position and a number of
  bytes on storage, both 64 bits wide. A group is a column and the pages between its
  iterators \<open>fFirst\<close> and \<open>fLast\<close>.\<close>

record RSealedPage =
  fBuffer :: buffer
  fSize :: u64
  fNElements :: u64

record RSealedPageGroup =
  fColumnId :: u64
  fRange :: "RSealedPage list"

record RNTupleLocator =
  fPosition :: u64
  fBytesOnStorage :: u64

subsection \<open>RPageSinkDaos\<close>

text \<open>
  The members of the sink the committing functions touch. \<open>fNClusters\<close> is
  \<open>fDescriptorBuilder.GetDescriptor().GetNClusters()\<close>; \<open>fNPageCommitted\<close> and
  \<open>fSzWritePayload\<close> are the two counters of \<open>fCounters\<close> these functions add to.
\<close>

record RPageSinkDaos =
  fNTupleAnchor :: RDaosNTupleAnchor
  fPageId :: u64
  fClusterGroupId :: u64
  fNBytesCurrentCluster :: u64
  fNClusters :: u64
  fDaosContainer :: RDaosContainer
  fNPageCommitted :: u64
  fSzWritePayload :: u64

text \<open>Modelled from the spec: the declaration of the class is missing; the spec numbers
  pages and cluster groups from 0, and a fresh sink has written nothing.\<close>

definition RPageSinkDaos_new :: "RDaosNTupleAnchor \<Rightarrow> RPageSinkDaos" where
  "RPageSinkDaos_new anchor =
     \<lparr>fNTupleAnchor = anchor, fPageId = 0, fClusterGroupId = 0, fNBytesCurrentCluster = 0,
      fNClusters = 0, fDaosContainer = [], fNPageCommitted = 0, fSzWritePayload = 0\<rparr>"

definition CommitSealedPageImpl ::
  "u64 \<Rightarrow> RSealedPage \<Rightarrow> RPageSinkDaos \<Rightarrow> RNTupleLocator \<times> RPageSinkDaos" where
  "CommitSealedPageImpl columnId sealedPage s =
     (let offsetData = fPageId s;
          s1 = s\<lparr>fPageId := fPageId s + 1\<rparr>;
          clusterId = fNClusters s1;
          daosKey = GetPageDaosKey kDefaultDaosMapping clusterId columnId offsetData;
          s2 = s1\<lparr>fDaosContainer := fDaosContainer s1 @
                 [WriteSingleAkey (fBuffer sealedPage) (fSize sealedPage) (fOid daosKey)
                    (fDkey daosKey) (fAkey daosKey) None]\<rparr>;
          result = \<lparr>fPosition = offsetData, fBytesOnStorage = fSize sealedPage\<rparr>;
          s3 = s2\<lparr>fNPageCommitted := fNPageCommitted s2 + 1\<rparr>;
          s4 = s3\<lparr>fSzWritePayload := fSzWritePayload s3 + fSize sealedPage\<rparr>;
          s5 = s4\<lparr>fNBytesCurrentCluster := fNBytesCurrentCluster s4 + fSize sealedPage\<rparr>
      in (result, s5))"

text \<open>
  The page count of a batch. \<open>std::accumulate\<close> is seeded with the \<open>int\<close> literal 0, so
  the running sum is an \<open>int\<close>: each step widens it to \<open>size_t\<close>, adds the distance of
  the range, and narrows the sum to \<open>int\<close> again; the result is widened once more.
\<close>

definition nPages_of :: "RSealedPageGroup list \<Rightarrow> u64" where
  "nPages_of ranges =
     scast (foldl (\<lambda>(c :: u32) r. ucast ((scast c :: u64) + of_nat (length (fRange r))))
                  0 ranges)"

text \<open>
  \<open>std::vector::reserve\<close> throws \<open>std::length_error\<close> for a request above
  \<open>max_size()\<close>, which is \<open>PTRDIFF_MAX\<close> divided by the size of an element: 16 bytes for
  the two fields of the locator.
\<close>

definition locators_max_size :: u64 where
  "locators_max_size = 0x7FFFFFFFFFFFFFFF div 16"

text \<open>Modelled from the spec: RDaosContainer::RWOperation is missing; the spec's write set
  is keyed by object id and distribution key and maps attribute keys to buffers.
  \<open>writeRequests.emplace(odPair, RWOperation(odPair))\<close> followed by
  \<open>it->second.insert(akey, iov)\<close>: the operation of the pair is created when the pair is
  new, and the attribute key and its buffer are added to it.\<close>

fun emplace_insert ::
  "daos_obj_id_t \<times> DistributionKey_t \<Rightarrow> AttributeKey_t \<Rightarrow> d_iov_t \<Rightarrow>
   MultiObjectRWOperation_t \<Rightarrow> MultiObjectRWOperation_t" where
  "emplace_insert odPair akey iov [] = [(odPair, [(akey, iov)])]"
| "emplace_insert odPair akey iov ((k, ops) # rest) =
     (if k = odPair then (k, ops @ [(akey, iov)]) # rest
      else (k, ops) # emplace_insert odPair akey iov rest)"

text \<open>The state of the two loops: the sink (for \<open>fPageId\<close>), \<open>writeRequests\<close>,
  \<open>locators\<close> and \<open>szPayload\<close>.\<close>

type_synonym batch_state =
  "RPageSinkDaos \<times> MultiObjectRWOperation_t \<times> RNTupleLocator list \<times> u64"

text \<open>The inner loop, over the pages \<open>fFirst\<close> to \<open>fLast\<close> of one range.\<close>

fun commit_range :: "u64 \<Rightarrow> u64 \<Rightarrow> RSealedPage list \<Rightarrow> batch_state \<Rightarrow> batch_state" where
  "commit_range clusterId columnId [] st = st"
| "commit_range clusterId columnId (sp # rest) (s, writeRequests, locators, szPayload) =
     (let pageIov = (fBuffer sp, fSize sp);
          offsetData = fPageId s;
          s1 = s\<lparr>fPageId := fPageId s + 1\<rparr>;
          daosKey = GetPageDaosKey kDefaultDaosMapping clusterId columnId offsetData;
          odPair = (fOid daosKey, fDkey daosKey);
          writeRequests1 = emplace_insert odPair (fAkey daosKey) pageIov writeRequests;
          locator = \<lparr>fPosition = offsetData, fBytesOnStorage = fSize sp\<rparr>
      in commit_range clusterId columnId rest
           (s1, writeRequests1, locators @ [locator], szPayload + fSize sp))"

text \<open>The outer loop, over the ranges.\<close>

fun commit_ranges :: "u64 \<Rightarrow> RSealedPageGroup list \<Rightarrow> batch_state \<Rightarrow> batch_state" where
  "commit_ranges clusterId [] st = st"
| "commit_ranges clusterId (r # rest) st =
     commit_ranges clusterId rest (commit_range clusterId (fColumnId r) (fRange r) st)"

text \<open>
  \<open>CommitSealedPageVImpl\<close>. \<open>err\<close> is the value the driver's \<open>WriteV\<close> returns for the
  request. The sink after the call is part of the result also when the call throws: the
  page ids and the byte count of the cluster stay advanced.
\<close>

definition CommitSealedPageVImpl ::
  "RSealedPageGroup list \<Rightarrow> int \<Rightarrow> RPageSinkDaos \<Rightarrow>
   (error + RNTupleLocator list) \<times> RPageSinkDaos" where
  "CommitSealedPageVImpl ranges err s =
     (let nPages = nPages_of ranges in
      if locators_max_size < nPages then (Inl LengthError, s)
      else
        (let clusterId = fNClusters s;
             (s1, writeRequests, locators, szPayload) =
                commit_ranges clusterId ranges (s, [], [], 0);
             s2 = s1\<lparr>fNBytesCurrentCluster := fNBytesCurrentCluster s1 + szPayload\<rparr>;
             s3 = s2\<lparr>fDaosContainer := fDaosContainer s2 @ [WriteV writeRequests]\<rparr>
         in if err \<noteq> 0 then (Inl (WriteFailed err), s3)
            else
              (let s4 = s3\<lparr>fNPageCommitted := fNPageCommitted s3 + nPages\<rparr>;
                   s5 = s4\<lparr>fSzWritePayload := fSzWritePayload s4 + szPayload\<rparr>
               in (Inr locators, s5))))"

definition CommitClusterImpl :: "u64 \<Rightarrow> RPageSinkDaos \<Rightarrow> u64 \<times> RPageSinkDaos" where
  "CommitClusterImpl nEntries s = (fNBytesCurrentCluster s, s\<lparr>fNBytesCurrentCluster := 0\<rparr>)"

text \<open>
  The compressor is a collaborator: \<open>Zip\<close> maps the serialized bytes and their length to
  the content of the zip buffer and the compressed size.
\<close>

type_synonym RNTupleCompressor = "buffer \<Rightarrow> u32 \<Rightarrow> buffer \<times> u64"

definition WriteNTupleFooter :: "buffer \<Rightarrow> u64 \<Rightarrow> u64 \<Rightarrow> RPageSinkDaos \<Rightarrow> RPageSinkDaos" where
  "WriteNTupleFooter data' nbytes lenFooter s =
     (let s1 = s\<lparr>fDaosContainer := fDaosContainer s @
                 [WriteSingleAkey data' nbytes kOidMetadata kDistributionKeyDefault
                    kAttributeKeyFooter (Some kCidMetadata)]\<rparr>;
          s2 = s1\<lparr>fNTupleAnchor := (fNTupleAnchor s1)\<lparr>fLenFooter := ucast lenFooter\<rparr>\<rparr>;
          s3 = s2\<lparr>fNTupleAnchor := (fNTupleAnchor s2)\<lparr>fNBytesFooter := ucast nbytes\<rparr>\<rparr>
      in s3)"

definition WriteNTupleAnchor :: "u64 \<Rightarrow> RPageSinkDaos \<Rightarrow> error + RPageSinkDaos" where
  "WriteNTupleAnchor kOCNameMaxLength s =
     (case GetSize kOCNameMaxLength of
        Inl e \<Rightarrow> Inl e
      | Inr ntplSize \<Rightarrow>
          (let buffer = make_unique (unat ntplSize) in
           case Serialize (fNTupleAnchor s) (Some buffer) of
             Inl e \<Rightarrow> Inl e
           | Inr (_, None) \<Rightarrow> Inl OutOfBounds
           | Inr (_, Some buffer') \<Rightarrow>
               Inr (s\<lparr>fDaosContainer := fDaosContainer s @
                      [WriteSingleAkey buffer' (ucast ntplSize) kOidMetadata
                         kDistributionKeyDefault kAttributeKeyAnchor (Some kCidMetadata)]\<rparr>)))"

definition CommitDatasetImpl ::
  "RNTupleCompressor \<Rightarrow> u64 \<Rightarrow> buffer \<Rightarrow> u32 \<Rightarrow> RPageSinkDaos \<Rightarrow> error + RPageSinkDaos" where
  "CommitDatasetImpl Zip kOCNameMaxLength serializedFooter length' s =
     (let (bufFooterZip, szFooterZip) = Zip serializedFooter length';
          s1 = WriteNTupleFooter bufFooterZip szFooterZip (ucast length') s
      in WriteNTupleAnchor kOCNameMaxLength s1)"

text \<open>Modelled from the spec: RPageSink::CommitCluster, the caller of
  \<open>CommitClusterImpl\<close>, is missing; the spec's cluster id of a page is the number of
  clusters committed so far, and the page commits after a cluster commit belong to the
  next cluster.\<close>

definition CommitCluster :: "u64 \<Rightarrow> RPageSinkDaos \<Rightarrow> u64 \<times> RPageSinkDaos" where
  "CommitCluster nEntries s =
     (let (nbytes, s1) = CommitClusterImpl nEntries s
      in (nbytes, s1\<lparr>fNClusters := fNClusters s1 + 1\<rparr>))"

text \<open>
  A writer session is the sequence of calls made on one sink. A call that throws returns
  no locator; its caller can catch the exception and go on, with the sink as the call
  left it. The result is the locators the calls returned, in the order of the calls, the
  exceptions thrown, and the sink at the end.
\<close>

datatype sink_call =
    CallCommitSealedPage u64 RSealedPage
  | CallCommitSealedPageV "RSealedPageGroup list" int
  | CallCommitCluster u64

fun writer_session ::
  "sink_call list \<Rightarrow> RPageSinkDaos \<Rightarrow> RNTupleLocator list \<times> error list \<times> RPageSinkDaos" where
  "writer_session [] s = ([], [], s)"
| "writer_session (CallCommitSealedPage columnId sealedPage # calls) s =
     (let (locator, s1) = CommitSealedPageImpl columnId sealedPage s;
          (locators, es, s2) = writer_session calls s1
      in (locator # locators, es, s2))"
| "writer_session (CallCommitSealedPageV ranges err # calls) s =
     (case CommitSealedPageVImpl ranges err s of
        (Inl e, s1) \<Rightarrow>
          (let (locators, es, s2) = writer_session calls s1
           in (locators, e # es, s2))
      | (Inr batch, s1) \<Rightarrow>
          (let (locators, es, s2) = writer_session calls s1
           in (batch @ locators, es, s2)))"
| "writer_session (CallCommitCluster nEntries # calls) s =
     (let (nbytes, s1) = CommitCluster nEntries s
      in writer_session calls s1)"

subsection \<open>RPageSourceDaos: the bootstrap\<close>

text \<open>
  The code \<open>AttachImpl\<close> calls outside this file, as parameters: the content of the
  container (\<open>stored\<close>: the value under an object id, a distribution key and an
  attribute key, if there is one), the driver's lookup of an object class by name, the
  decompressor, and the descriptor builder with the deserializers that feed it. \<open>'d\<close> is
  the descriptor under construction.
\<close>

record RClusterGroupDescriptor =
  fPageListLocator :: RNTupleLocator
  fPageListLength :: u32

record 'd collaborators =
  stored :: "daos_obj_id_t \<Rightarrow> DistributionKey_t \<Rightarrow> AttributeKey_t \<Rightarrow> buffer option"
  ObjClassId :: "string \<Rightarrow> daos_oclass_id_t"
  Unzip :: "buffer \<Rightarrow> u64 \<Rightarrow> u64 \<Rightarrow> buffer"
  RNTupleDescriptorBuilder :: "'d"
  SetOnDiskHeaderSize :: "u32 \<Rightarrow> 'd \<Rightarrow> 'd"
  AddToOnDiskFooterSize :: "u32 \<Rightarrow> 'd \<Rightarrow> 'd"
  DeserializeHeaderV1 :: "buffer \<Rightarrow> u32 \<Rightarrow> 'd \<Rightarrow> 'd"
  DeserializeFooterV1 :: "buffer \<Rightarrow> u32 \<Rightarrow> 'd \<Rightarrow> 'd"
  MoveDescriptor :: "'d \<Rightarrow> 'd"
  GetClusterGroupIterable :: "'d \<Rightarrow> RClusterGroupDescriptor list"
  DeserializePageListV1 :: "buffer \<Rightarrow> u32 \<Rightarrow> RClusterGroupDescriptor \<Rightarrow> 'd \<Rightarrow> 'd"

definition IsUnknown :: "daos_oclass_id_t \<Rightarrow> bool" where
  "IsUnknown oclass = (oclass = OC_UNKNOWN)"

text \<open>Modelled from the spec: RDaosContainer::ReadSingleAkey is missing; the spec's
  \<open>readSingle\<close> reads the value under the key into the buffer, at most the requested
  number of bytes. \<open>AttachImpl\<close> drops the code the call returns, so a key without a value
  leaves the buffer as it was.\<close>

definition read_into :: "buffer option \<Rightarrow> buffer \<Rightarrow> u64 \<Rightarrow> buffer" where
  "read_into val buf len =
     (case val of
        None \<Rightarrow> buf
      | Some v \<Rightarrow> (let n = min (min (unat len) (length v)) (length buf)
                  in take n v @ drop n buf))"

text \<open>The loop over the cluster groups of the footer: one read per page list.\<close>

fun attach_page_lists ::
  "'d collaborators \<Rightarrow> RClusterGroupDescriptor list \<Rightarrow> 'd \<times> RDaosContainer \<Rightarrow>
   'd \<times> RDaosContainer" where
  "attach_page_lists env [] st = st"
| "attach_page_lists env (cgDesc # rest) (ntplDesc, c) =
     (let buffer = make_unique (unat (fPageListLength cgDesc));
          nbytes = fBytesOnStorage (fPageListLocator cgDesc);
          zipBuffer = make_unique (unat nbytes);
          c1 = c @ [ReadSingleAkey nbytes kOidPageList kDistributionKeyDefault
                      (fPosition (fPageListLocator cgDesc)) (Some kCidMetadata)];
          zipBuffer1 = read_into (stored env kOidPageList kDistributionKeyDefault
                                    (fPosition (fPageListLocator cgDesc))) zipBuffer nbytes;
          buffer1 = Unzip env zipBuffer1 nbytes (ucast (fPageListLength cgDesc));
          ntplDesc1 = DeserializePageListV1 env buffer1 (fPageListLength cgDesc) cgDesc ntplDesc
      in attach_page_lists env rest (ntplDesc1, c1))"

text \<open>
  \<open>AttachImpl\<close>. The result is the descriptor or the exception, and the container with
  the calls made on it.
\<close>

definition AttachImpl ::
  "'d collaborators \<Rightarrow> u64 \<Rightarrow> RDaosContainer \<Rightarrow> (error + 'd) \<times> RDaosContainer" where
  "AttachImpl env kOCNameMaxLength c =
     (let descBuilder = RNTupleDescriptorBuilder env;
          ntpl = RDaosNTupleAnchor_default
      in case GetSize kOCNameMaxLength of
        Inl e \<Rightarrow> (Inl e, c)
      | Inr ntplSize \<Rightarrow>
     (let buffer = make_unique (unat ntplSize);
          c1 = c @ [ReadSingleAkey (ucast ntplSize) kOidMetadata kDistributionKeyDefault
                      kAttributeKeyAnchor (Some kCidMetadata)];
          buffer1 = read_into (stored env kOidMetadata kDistributionKeyDefault
                                 kAttributeKeyAnchor) buffer (ucast ntplSize)
      in case Deserialize ntpl buffer1 ntplSize of
        (Inl e, _) \<Rightarrow> (Inl e, c1)
      | (Inr _, ntpl1) \<Rightarrow>
     (let oclass = ObjClassId env (fObjClass ntpl1)
      in if IsUnknown oclass then (Inl (UnknownObjectClass (fObjClass ntpl1)), c1)
      else
     (let c2 = c1 @ [SetDefaultObjectClass oclass];
          descBuilder1 = SetOnDiskHeaderSize env (fNBytesHeader ntpl1) descBuilder;
          zipBuffer = make_unique (unat (fNBytesHeader ntpl1));
          c3 = c2 @ [ReadSingleAkey (ucast (fNBytesHeader ntpl1)) kOidMetadata
                       kDistributionKeyDefault kAttributeKeyHeader (Some kCidMetadata)];
          zipBuffer1 = read_into (stored env kOidMetadata kDistributionKeyDefault
                                    kAttributeKeyHeader) zipBuffer (ucast (fNBytesHeader ntpl1));
          buffer2 = Unzip env zipBuffer1 (ucast (fNBytesHeader ntpl1)) (ucast (fLenHeader ntpl1));
          descBuilder2 = DeserializeHeaderV1 env buffer2 (fLenHeader ntpl1) descBuilder1;
          descBuilder3 = AddToOnDiskFooterSize env (fNBytesFooter ntpl1) descBuilder2;
          zipBuffer2 = make_unique (unat (fNBytesFooter ntpl1));
          c4 = c3 @ [ReadSingleAkey (ucast (fNBytesFooter ntpl1)) kOidMetadata
                       kDistributionKeyDefault kAttributeKeyFooter (Some kCidMetadata)];
          zipBuffer3 = read_into (stored env kOidMetadata kDistributionKeyDefault
                                    kAttributeKeyFooter) zipBuffer2 (ucast (fNBytesFooter ntpl1));
          buffer3 = Unzip env zipBuffer3 (ucast (fNBytesFooter ntpl1)) (ucast (fLenFooter ntpl1));
          descBuilder4 = DeserializeFooterV1 env buffer3 (fLenFooter ntpl1) descBuilder3;
          ntplDesc = MoveDescriptor env descBuilder4;
          (ntplDesc1, c5) =
             attach_page_lists env (GetClusterGroupIterable env ntplDesc) (ntplDesc, c4)
      in (Inr ntplDesc1, c5)))))"

subsection \<open>The layout of the specification\<close>

text \<open>The anchor record of the spec's layout table: the five integers at offsets 0 to 16,
  the length of the class name at offset 20 and its bytes from offset 24.\<close>

definition spec_anchor_record :: "RDaosNTupleAnchor \<Rightarrow> byte list" where
  "spec_anchor_record a =
     le32 (fVersion a) @ le32 (fNBytesHeader a) @ le32 (fLenHeader a) @
     le32 (fNBytesFooter a) @ le32 (fLenFooter a) @
     le32 (of_nat (length (fObjClass a))) @ map byte_of_char (fObjClass a)"

text \<open>The little-endian reading of the four bytes at an offset of a buffer, as a
  number.\<close>

definition le_value_at :: "buffer \<Rightarrow> nat \<Rightarrow> nat" where
  "le_value_at mem pos =
     unat (mem ! pos) + 256 * unat (mem ! (pos + 1)) + 65536 * unat (mem ! (pos + 2)) +
     16777216 * unat (mem ! (pos + 3))"

text \<open>The flattened iteration of the spec over the ranges of a batch and, within each
  range, over its pages in order: every page with the column of its range.\<close>

definition flatten :: "RSealedPageGroup list \<Rightarrow> (u64 \<times> RSealedPage) list" where
  "flatten ranges = concat (map (\<lambda>r. map (Pair (fColumnId r)) (fRange r)) ranges)"

text \<open>A write request asks for a buffer under an object, a distribution key and an
  attribute key.\<close>

definition requested ::
  "MultiObjectRWOperation_t \<Rightarrow> daos_obj_id_t \<times> DistributionKey_t \<Rightarrow> AttributeKey_t \<Rightarrow>
   d_iov_t \<Rightarrow> bool" where
  "requested w odPair akey iov = list_ex (\<lambda>(k, ops). k = odPair \<and> (akey, iov) \<in> set ops) w"

text \<open>The locators of a run of sealed pages numbered from \<open>start\<close>: one per page, in
  order, with the size of the page.\<close>

fun locators_from :: "u64 \<Rightarrow> RSealedPage list \<Rightarrow> RNTupleLocator list" where
  "locators_from start [] = []"
| "locators_from start (p # ps) =
     \<lparr>fPosition = start, fBytesOnStorage = fSize p\<rparr> # locators_from (start + 1) ps"

text \<open>
  A container for the examples: it holds at most an anchor, under the attribute key of
  the anchor; the driver knows the object class \<open>SX\<close> only; the descriptor is a count of
  the blobs fed to it.
\<close>

definition example_env :: "buffer option \<Rightarrow> nat collaborators" where
  "example_env anchor =
     \<lparr>stored = (\<lambda>oid dkey akey. if akey = kAttributeKeyAnchor then anchor else None),
      ObjClassId = (\<lambda>name. if name = ''SX'' then OC_SX else OC_UNKNOWN),
      Unzip = (\<lambda>from nbytes len. from),
      RNTupleDescriptorBuilder = 0,
      SetOnDiskHeaderSize = (\<lambda>n d. d),
      AddToOnDiskFooterSize = (\<lambda>n d. d),
      DeserializeHeaderV1 = (\<lambda>b n d. d + 1),
      DeserializeFooterV1 = (\<lambda>b n d. d + 1),
      MoveDescriptor = (\<lambda>d. d),
      GetClusterGroupIterable = (\<lambda>d. []),
      DeserializePageListV1 = (\<lambda>b n cg d. d + 1)\<rparr>"

text \<open>The characters a view shows.\<close>

definition view_chars :: "string_view \<Rightarrow> string" where
  "view_chars uri = take (M_len uri) (M_str uri)"

text \<open>A view is terminated when it shows no NUL and a NUL follows its last character in
  memory, as for the view of a whole \<open>std::string\<close>.\<close>

definition terminated :: "string_view \<Rightarrow> bool" where
  "terminated uri \<longleftrightarrow>
     M_len uri < length (M_str uri) \<and> M_str uri ! M_len uri = CHR 0x00 \<and>
     CHR 0x00 \<notin> set (view_chars uri)"

text \<open>The view of a whole \<open>std::string\<close>: the characters of the string are followed by a
  NUL.\<close>

definition view_of_string :: "string \<Rightarrow> string_view" where
  "view_of_string s = \<lparr>M_str = s @ [CHR 0x00], M_len = length s\<rparr>"

text \<open>For the examples: a stack with room for the subjects of up to 4096 characters.\<close>

definition small_stack :: "string \<Rightarrow> bool" where
  "small_stack subject \<longleftrightarrow> 4096 < length subject"

text \<open>
  The positions a session hands out, as numbers, when its page counter stands at \<open>n\<close>: a
  page commit returns the next number; a batched commit takes one number per page of the
  batch, and returns them unless its write fails; a batch too large for the vector of
  locators takes none; a cluster commit takes none.
\<close>

fun session_positions :: "sink_call list \<Rightarrow> nat \<Rightarrow> nat list" where
  "session_positions [] n = []"
| "session_positions (CallCommitSealedPage columnId sealedPage # calls) n =
     n # session_positions calls (Suc n)"
| "session_positions (CallCommitSealedPageV ranges err # calls) n =
     (if locators_max_size < nPages_of ranges then session_positions calls n
      else if err \<noteq> 0 then session_positions calls (n + length (flatten ranges))
      else [n ..< n + length (flatten ranges)] @
           session_positions calls (n + length (flatten ranges)))"
| "session_positions (CallCommitCluster nEntries # calls) n = session_positions calls n"

text \<open>The collaborators with the value \<open>v\<close> under the key of the anchor, and the rest of
  the container as it is.\<close>

definition with_anchor :: "'d collaborators \<Rightarrow> buffer \<Rightarrow> 'd collaborators" where
  "with_anchor env v =
     env\<lparr>stored := (\<lambda>oid dkey akey.
            if oid = kOidMetadata \<and> dkey = kDistributionKeyDefault \<and> akey = kAttributeKeyAnchor
            then Some v else stored env oid dkey akey)\<rparr>"

section \<open>The anchor codec\<close>

subsection \<open>Bytes, integers and raw memory\<close>

lemma le_arith: "(n::nat) = n mod 256 + 256 * (n div 256 mod 256) + 65536 * (n div 65536 mod 256) + 16777216 * (n div 16777216)"
proof -
  define a where "a = n div 256"
  define b where "b = a div 256"
  define c where "c = b div 256"
  have 1: "n div 65536 = b" unfolding b_def a_def by (simp add: div_mult2_eq [symmetric])
  have 2: "n div 16777216 = c" unfolding c_def b_def a_def by (simp add: div_mult2_eq [symmetric])
  have n: "n = n mod 256 + 256 * a" unfolding a_def by simp
  have a: "a = a mod 256 + 256 * b" unfolding b_def by simp
  have b: "b = b mod 256 + 256 * c" unfolding c_def by simp
  have "n = n mod 256 + 256 * (a mod 256) + 65536 * (b mod 256) + 16777216 * c"
    using n a b by linarith
  then show ?thesis by (simp add: 1 2 a_def [symmetric])
qed

lemma length_le32 [simp]: "length (le32 v) = 4"
  by (simp add: le32_def)

lemma un_le32_le32 [simp]: "un_le32 (le32 v) = v"
  unfolding un_le32_def le32_def
  apply simp
  apply (rule bit_word_eqI)
  subgoal for n
    apply (cases "n < 8"; cases "n < 16"; cases "n < 24")
    apply (auto simp: bit_simps)
    done
  done

lemma unat_le32:
  "unat v = unat (le32 v ! 0) + 256 * unat (le32 v ! 1) + 65536 * unat (le32 v ! 2) + 16777216 * unat (le32 v ! 3)"
proof -
  have b: "unat v < 2 ^ 32" using unsigned_less [of v] by simp
  have 0: "unat (ucast v :: byte) = unat v mod 256"
    by (simp add: unsigned_ucast_eq take_bit_eq_mod)
  have 1: "unat (ucast (drop_bit 8 v) :: byte) = unat v div 256 mod 256"
    by (simp only: unsigned_ucast_eq unat_drop_bit_eq) (simp add: take_bit_eq_mod drop_bit_eq_div)
  have 2: "unat (ucast (drop_bit 16 v) :: byte) = unat v div 65536 mod 256"
    by (simp only: unsigned_ucast_eq unat_drop_bit_eq) (simp add: take_bit_eq_mod drop_bit_eq_div)
  have 3: "unat (ucast (drop_bit 24 v) :: byte) = unat v div 16777216 mod 256"
    by (simp only: unsigned_ucast_eq unat_drop_bit_eq) (simp add: take_bit_eq_mod drop_bit_eq_div)
  have 4: "unat v div 16777216 mod 256 = unat v div 16777216"
    using b by simp
  show ?thesis
    using le_arith [of "unat v"] by (simp add: le32_def 0 1 2 3 4) 
qed

lemma char_of_byte_of_char [simp]: "char_of_byte (byte_of_char c) = c"
proof -
  have "(of_char c :: byte) = of_nat (of_char c)" by (simp add: of_nat_of_char)
  then have "unat (of_char c :: byte) = take_bit 8 (of_char c :: nat)"
    by (simp add: unsigned_of_nat)
  then show ?thesis
    by (simp add: char_of_byte_def byte_of_char_def take_bit_eq_mod)
qed

lemma map_char_of_byte [simp]: "map (char_of_byte \<circ> byte_of_char) s = s"
  by (induction s) simp_all

lemma unat_4 [simp]: "unat (4 :: u32) = 4"
  by simp

lemma poke_at:
  "length bs \<le> length rest \<Longrightarrow>
   poke (pre @ rest) (length pre) bs = Inr (pre @ bs @ drop (length bs) rest)"
  by (simp add: poke_def)

lemma poke_short:
  "length rest < length bs \<Longrightarrow> poke (pre @ rest) (length pre) bs = Inl OutOfBounds"
  by (simp add: poke_def)

lemma peek_at:
  "peek (pre @ bs @ rest) (length pre) (length bs) = Inr bs"
  by (simp add: peek_def)

lemma SerializeUInt32_at:
  "4 \<le> length rest \<Longrightarrow>
   SerializeUInt32 v (Some (length pre)) (pre @ rest) = Inr (4, pre @ le32 v @ drop 4 rest)"
  by (simp add: SerializeUInt32_def poke_at)

lemma SerializeUInt32_short:
  "length rest < 4 \<Longrightarrow> SerializeUInt32 v (Some (length pre)) (pre @ rest) = Inl OutOfBounds"
  by (simp add: SerializeUInt32_def poke_short)

lemma DeserializeUInt32_at:
  "DeserializeUInt32 (pre @ le32 v @ rest) (length pre) = Inr (4, v)"
  using peek_at [of pre "le32 v" rest] by (simp add: DeserializeUInt32_def)

lemma SerializeString_null: "SerializeString val None mem = Inr (4 + of_nat (length val), mem)"
  by (simp add: SerializeString_def)

lemma SerializeString_at:
  assumes "4 + length val \<le> length rest"
  shows "SerializeString val (Some (length pre)) (pre @ rest) =
         Inr (4 + of_nat (length val),
              pre @ le32 (of_nat (length val)) @ map byte_of_char val @ drop (4 + length val) rest)"
proof -
  have 1: "SerializeUInt32 (of_nat (length val)) (Some (length pre)) (pre @ rest) =
           Inr (4, pre @ le32 (of_nat (length val)) @ drop 4 rest)"
    using assms by (simp add: SerializeUInt32_at)
  have 2: "poke ((pre @ le32 (of_nat (length val))) @ drop 4 rest)
             (length (pre @ le32 (of_nat (length val)))) (map byte_of_char val) =
           Inr ((pre @ le32 (of_nat (length val))) @ map byte_of_char val @
                drop (length (map byte_of_char val)) (drop 4 rest))"
    using assms by (intro poke_at) simp
  then have 3: "poke (pre @ le32 (of_nat (length val)) @ drop 4 rest) (length pre + 4)
                  (map byte_of_char val) =
                Inr (pre @ le32 (of_nat (length val)) @ map byte_of_char val @
                     drop (4 + length val) rest)"
    by (simp add: add.commute)
  show ?thesis
    by (simp add: SerializeString_def 1 3)
qed

lemma SerializeString_short:
  assumes "length rest < 4 + length val"
  shows "SerializeString val (Some (length pre)) (pre @ rest) = Inl OutOfBounds"
proof (cases "length rest < 4")
  case True
  then show ?thesis by (simp add: SerializeString_def SerializeUInt32_short)
next
  case False
  then have 1: "SerializeUInt32 (of_nat (length val)) (Some (length pre)) (pre @ rest) =
           Inr (4, pre @ le32 (of_nat (length val)) @ drop 4 rest)"
    by (simp add: SerializeUInt32_at)
  have 2: "poke ((pre @ le32 (of_nat (length val))) @ drop 4 rest)
             (length (pre @ le32 (of_nat (length val)))) (map byte_of_char val) = Inl OutOfBounds"
    using assms False by (intro poke_short) simp
  show ?thesis
    using 2 by (simp add: SerializeString_def 1)
qed


lemma unat_of_nat_len: "n < 2 ^ 32 \<Longrightarrow> unat (of_nat n :: u32) = n"
  by (simp add: unsigned_of_nat take_bit_nat_eq_self)

lemma DeserializeString_at:
  assumes len: "length val < 2 ^ 32" and fit: "4 + length val \<le> unat n"
  shows "DeserializeString (pre @ le32 (of_nat (length val)) @ map byte_of_char val @ rest)
           (length pre) n = Inr (4 + of_nat (length val), val)"
proof -
  let ?L = "of_nat (length val) :: u32"
  have n4: "\<not> n < 4"
    using fit by (simp add: word_less_nat_alt)
  have ul: "unat ?L = length val"
    using len by (rule unat_of_nat_len)
  have "unat (n - 4) = unat n - 4"
    using fit by (simp add: unat_sub word_le_nat_alt)
  then have nl: "\<not> n - 4 < ?L"
    using fit ul by (simp add: word_less_nat_alt)
  have pk: "peek ((pre @ le32 ?L) @ map byte_of_char val @ rest) (length (pre @ le32 ?L))
              (length (map byte_of_char val)) = Inr (map byte_of_char val)"
    by (rule peek_at)
  show ?thesis
    using pk by (simp add: DeserializeString_def n4 nl ul DeserializeUInt32_at)
qed

lemma Serialize_null: "Serialize a None = Inr (of_nat (length (fObjClass a)) + 24, None)"
  by (simp add: Serialize_def SerializeString_null)

lemma Serialize_Some:
  assumes "24 + length (fObjClass a) \<le> length mem"
  shows "Serialize a (Some mem) =
         Inr (of_nat (length (fObjClass a)) + 24,
              Some (spec_anchor_record a @ drop (24 + length (fObjClass a)) mem))"
proof -
  let ?B1 = "le32 (fVersion a)" and ?B2 = "le32 (fNBytesHeader a)"
  and ?B3 = "le32 (fLenHeader a)" and ?B4 = "le32 (fNBytesFooter a)"
  and ?B5 = "le32 (fLenFooter a)"
  have 1: "SerializeUInt32 (fVersion a) (Some 0) mem = Inr (4, ?B1 @ drop 4 mem)"
    using SerializeUInt32_at [of mem "fVersion a" "[]"] assms by simp
  have 2: "SerializeUInt32 (fNBytesHeader a) (Some 4) (?B1 @ drop 4 mem) =
           Inr (4, ?B1 @ ?B2 @ drop 8 mem)"
    using SerializeUInt32_at [of "drop 4 mem" "fNBytesHeader a" ?B1] assms by simp
  have 3: "SerializeUInt32 (fLenHeader a) (Some 8) (?B1 @ ?B2 @ drop 8 mem) =
           Inr (4, ?B1 @ ?B2 @ ?B3 @ drop 12 mem)"
    using SerializeUInt32_at [of "drop 8 mem" "fLenHeader a" "?B1 @ ?B2"] assms by simp
  have 4: "SerializeUInt32 (fNBytesFooter a) (Some 12) (?B1 @ ?B2 @ ?B3 @ drop 12 mem) =
           Inr (4, ?B1 @ ?B2 @ ?B3 @ ?B4 @ drop 16 mem)"
    using SerializeUInt32_at [of "drop 12 mem" "fNBytesFooter a" "?B1 @ ?B2 @ ?B3"] assms
    by simp
  have 5: "SerializeUInt32 (fLenFooter a) (Some 16) (?B1 @ ?B2 @ ?B3 @ ?B4 @ drop 16 mem) =
           Inr (4, ?B1 @ ?B2 @ ?B3 @ ?B4 @ ?B5 @ drop 20 mem)"
    using SerializeUInt32_at [of "drop 16 mem" "fLenFooter a" "?B1 @ ?B2 @ ?B3 @ ?B4"] assms
    by simp
  have 6: "SerializeString (fObjClass a) (Some 20) (?B1 @ ?B2 @ ?B3 @ ?B4 @ ?B5 @ drop 20 mem) =
           Inr (4 + of_nat (length (fObjClass a)),
                spec_anchor_record a @ drop (24 + length (fObjClass a)) mem)"
    using SerializeString_at [of "fObjClass a" "drop 20 mem" "?B1 @ ?B2 @ ?B3 @ ?B4 @ ?B5"] assms
    by (simp add: spec_anchor_record_def add.commute)
  show ?thesis
    by (simp add: Serialize_def 1 2 3 4 5 6 SerializeString_null)
qed

lemma Serialize_short:
  assumes "length mem < 24 + length (fObjClass a)"
  shows "Serialize a (Some mem) = Inl OutOfBounds"
proof -
  let ?B1 = "le32 (fVersion a)" and ?B2 = "le32 (fNBytesHeader a)"
  and ?B3 = "le32 (fLenHeader a)" and ?B4 = "le32 (fNBytesFooter a)"
  and ?B5 = "le32 (fLenFooter a)"
  have 1: "SerializeUInt32 (fVersion a) (Some 0) mem =
           (if 4 \<le> length mem then Inr (4, ?B1 @ drop 4 mem) else Inl OutOfBounds)"
    using SerializeUInt32_at [of mem "fVersion a" "[]"]
      SerializeUInt32_short [of mem "fVersion a" "[]"] by simp
  have 2: "SerializeUInt32 (fNBytesHeader a) (Some 4) (?B1 @ drop 4 mem) =
           (if 8 \<le> length mem then Inr (4, ?B1 @ ?B2 @ drop 8 mem) else Inl OutOfBounds)"
    using SerializeUInt32_at [of "drop 4 mem" "fNBytesHeader a" ?B1]
      SerializeUInt32_short [of "drop 4 mem" "fNBytesHeader a" ?B1] by simp
  have 3: "SerializeUInt32 (fLenHeader a) (Some 8) (?B1 @ ?B2 @ drop 8 mem) =
           (if 12 \<le> length mem then Inr (4, ?B1 @ ?B2 @ ?B3 @ drop 12 mem) else Inl OutOfBounds)"
    using SerializeUInt32_at [of "drop 8 mem" "fLenHeader a" "?B1 @ ?B2"]
      SerializeUInt32_short [of "drop 8 mem" "fLenHeader a" "?B1 @ ?B2"] by simp
  have 4: "SerializeUInt32 (fNBytesFooter a) (Some 12) (?B1 @ ?B2 @ ?B3 @ drop 12 mem) =
           (if 16 \<le> length mem then Inr (4, ?B1 @ ?B2 @ ?B3 @ ?B4 @ drop 16 mem)
            else Inl OutOfBounds)"
    using SerializeUInt32_at [of "drop 12 mem" "fNBytesFooter a" "?B1 @ ?B2 @ ?B3"]
      SerializeUInt32_short [of "drop 12 mem" "fNBytesFooter a" "?B1 @ ?B2 @ ?B3"] by simp
  have 5: "SerializeUInt32 (fLenFooter a) (Some 16) (?B1 @ ?B2 @ ?B3 @ ?B4 @ drop 16 mem) =
           (if 20 \<le> length mem then Inr (4, ?B1 @ ?B2 @ ?B3 @ ?B4 @ ?B5 @ drop 20 mem)
            else Inl OutOfBounds)"
    using SerializeUInt32_at [of "drop 16 mem" "fLenFooter a" "?B1 @ ?B2 @ ?B3 @ ?B4"]
      SerializeUInt32_short [of "drop 16 mem" "fLenFooter a" "?B1 @ ?B2 @ ?B3 @ ?B4"] by simp
  have 6: "SerializeString (fObjClass a) (Some 20) (?B1 @ ?B2 @ ?B3 @ ?B4 @ ?B5 @ drop 20 mem) =
           Inl OutOfBounds"
    using SerializeString_short [of "drop 20 mem" "fObjClass a" "?B1 @ ?B2 @ ?B3 @ ?B4 @ ?B5"]
      assms by simp
  show ?thesis
    by (simp add: Serialize_def 1 2 3 4 5 6)
qed

lemma length_spec_anchor_record [simp]:
  "length (spec_anchor_record a) = 24 + length (fObjClass a)"
  by (simp add: spec_anchor_record_def)

lemma Deserialize_record:
  assumes len: "length (fObjClass a) < 2 ^ 32"
    and fit: "24 + length (fObjClass a) \<le> unat bufSize"
  shows "Deserialize a0 (spec_anchor_record a @ rest) bufSize =
         (Inr (of_nat (length (fObjClass a)) + 24), a)"
proof -
  let ?B1 = "le32 (fVersion a)" and ?B2 = "le32 (fNBytesHeader a)"
  and ?B3 = "le32 (fLenHeader a)" and ?B4 = "le32 (fNBytesFooter a)"
  and ?B5 = "le32 (fLenFooter a)"
  let ?S = "le32 (of_nat (length (fObjClass a))) @ map byte_of_char (fObjClass a) @ rest"
  let ?M = "spec_anchor_record a @ rest"
  have M: "?M = ?B1 @ ?B2 @ ?B3 @ ?B4 @ ?B5 @ ?S"
    by (simp add: spec_anchor_record_def)
  have n20: "\<not> bufSize < 20"
    using fit by (simp add: word_less_nat_alt)
  have u20: "unat (bufSize - 20) = unat bufSize - 20"
    using fit by (simp add: unat_sub word_le_nat_alt)
  have 1: "DeserializeUInt32 ?M 0 = Inr (4, fVersion a)"
    unfolding M using DeserializeUInt32_at [of "[]" "fVersion a"] by simp
  have 2: "DeserializeUInt32 ?M 4 = Inr (4, fNBytesHeader a)"
    unfolding M using DeserializeUInt32_at [of ?B1 "fNBytesHeader a"] by simp
  have 3: "DeserializeUInt32 ?M 8 = Inr (4, fLenHeader a)"
    unfolding M using DeserializeUInt32_at [of "?B1 @ ?B2" "fLenHeader a"] by simp
  have 4: "DeserializeUInt32 ?M 12 = Inr (4, fNBytesFooter a)"
    unfolding M using DeserializeUInt32_at [of "?B1 @ ?B2 @ ?B3" "fNBytesFooter a"] by simp
  have 5: "DeserializeUInt32 ?M 16 = Inr (4, fLenFooter a)"
    unfolding M using DeserializeUInt32_at [of "?B1 @ ?B2 @ ?B3 @ ?B4" "fLenFooter a"] by simp
  have 6: "DeserializeString ?M 20 (bufSize - 20) =
           Inr (4 + of_nat (length (fObjClass a)), fObjClass a)"
    unfolding M
    using DeserializeString_at [of "fObjClass a" "bufSize - 20" "?B1 @ ?B2 @ ?B3 @ ?B4 @ ?B5" rest]
      len fit u20 by simp
  show ?thesis
    by (simp add: Deserialize_def n20 1 2 3 4 5 6)
qed

lemma le_value_at_le32: "le_value_at (pre @ le32 v @ rest) (length pre) = unat v"
proof -
  have "\<And>k. k < 4 \<Longrightarrow> (pre @ le32 v @ rest) ! (length pre + k) = le32 v ! k"
    by (simp add: nth_append)
  from this [of 0] this [of 1] this [of 2] this [of 3] show ?thesis
    using unat_le32 [of v] by (simp add: le_value_at_def)
qed

lemma GetSize_eq: "GetSize m = Inr (20 + (4 + ucast m))"
proof -
  have "(ucast (ucast (24 :: u32) + m :: u64) :: u32) = 24 + ucast m"
  proof -
    have "unat (ucast (ucast (24 :: u32) + m :: u64) :: u32) = (24 + unat m) mod 2 ^ 32"
      by (simp add: unsigned_ucast_eq unat_word_ariths take_bit_eq_mod mod_mod_cancel)
    moreover have "unat (24 + ucast m :: u32) = (24 + unat m) mod 2 ^ 32"
      by (simp add: unsigned_ucast_eq unat_word_ariths take_bit_eq_mod mod_add_right_eq)
    ultimately show ?thesis
      by (simp add: word_unat_eq_iff)
  qed
  then show ?thesis
    by (simp add: GetSize_def Serialize_null RDaosNTupleAnchor_default_def)
qed


lemma unat_24_plus: "24 + n < 2 ^ 32 \<Longrightarrow> unat (of_nat n + 24 :: u32) = 24 + n"
  by (simp add: unat_word_ariths unsigned_of_nat take_bit_eq_mod)

lemma DeserializeUInt32_in:
  "pos + 4 \<le> length mem \<Longrightarrow>
   DeserializeUInt32 mem pos = Inr (4, un_le32 (take 4 (drop pos mem)))"
  by (simp add: DeserializeUInt32_def peek_def)

lemma DeserializeString_Inr:
  assumes "DeserializeString mem pos n = Inr (k, s)"
  shows "unat k = 4 + length s \<and> 4 + length s \<le> unat n"
proof -
  from assms have n4: "\<not> n < 4"
    by (auto simp: DeserializeString_def split: if_splits)
  from assms n4 obtain len where
    rd: "DeserializeUInt32 mem pos = Inr (4, len)"
    by (auto simp: DeserializeString_def DeserializeUInt32_def split: sum.splits)
  from assms n4 rd have nl: "\<not> n - 4 < len"
    by (auto simp: DeserializeString_def split: if_splits)
  from assms n4 rd nl obtain bs where
    pk: "peek mem (pos + 4) (unat len) = Inr bs" and k: "k = 4 + len" and s: "s = map char_of_byte bs"
    by (auto simp: DeserializeString_def split: sum.splits)
  from pk have lb: "length bs = unat len"
    by (auto simp: peek_def split: if_splits)
  have u4: "4 \<le> unat n"
    using n4 by (simp add: word_less_nat_alt)
  then have "unat (n - 4) = unat n - 4"
    by (simp add: unat_sub word_le_nat_alt)
  then have le: "unat len \<le> unat n - 4"
    using nl by (simp add: word_less_nat_alt)
  have "unat n < 2 ^ 32"
    using unsigned_less [of n] by simp
  then have "unat (4 + len) = 4 + unat len"
    using le u4 by (simp add: unat_word_ariths)
  then show ?thesis
    using k s lb le u4 by simp
qed

subsection \<open>The claims on the anchor codec\<close>

text \<open>
  Claim C1 (anchor round-trip). For every anchor whose class name is no longer than the
  driver's maximum, \<open>Serialize\<close> into a buffer that holds the record succeeds, and
  \<open>Deserialize\<close> of the buffer it produced, called on any anchor, returns the number of
  bytes \<open>Serialize\<close> returned and leaves an anchor equal to the serialized one, field by
  field. This holds when the buffer size passed to \<open>Deserialize\<close> is the serialized
  length and for every larger one; \<open>GetSize\<close>, the size the program uses on both sides,
  is one of them.
\<close>

theorem anchor_round_trip:
  assumes max: "length (fObjClass a) \<le> unat kOCNameMaxLength"
    and small: "24 + unat kOCNameMaxLength < 2 ^ 32"
    and fit: "24 + length (fObjClass a) \<le> length mem"
  shows "\<exists>n out. Serialize a (Some mem) = Inr (n, Some out) \<and>
           Deserialize a0 out n = (Inr n, a) \<and>
           (\<forall>bufSize. n \<le> bufSize \<longrightarrow> Deserialize a0 out bufSize = (Inr n, a)) \<and>
           (\<exists>ntplSize. GetSize kOCNameMaxLength = Inr ntplSize \<and> n \<le> ntplSize)"
proof -
  let ?n = "of_nat (length (fObjClass a)) + 24 :: u32"
  let ?out = "spec_anchor_record a @ drop (24 + length (fObjClass a)) mem"
  have b: "24 + length (fObjClass a) < 2 ^ 32"
    using max small by simp
  have ser: "Serialize a (Some mem) = Inr (?n, Some ?out)"
    using fit by (rule Serialize_Some)
  have n: "unat ?n = 24 + length (fObjClass a)"
    using b by (rule unat_24_plus)
  have de: "Deserialize a0 ?out bufSize = (Inr ?n, a)" if "?n \<le> bufSize" for bufSize
  proof -
    have "24 + length (fObjClass a) \<le> unat bufSize"
      using that n by (simp add: word_le_nat_alt)
    then show ?thesis
      using b by (intro Deserialize_record) simp_all
  qed
  have "unat (20 + (4 + ucast kOCNameMaxLength) :: u32) = 24 + unat kOCNameMaxLength"
    using small by (simp add: unat_word_ariths unsigned_ucast_eq take_bit_eq_mod)
  then have "?n \<le> 20 + (4 + ucast kOCNameMaxLength)"
    using n max by (simp add: word_le_nat_alt)
  then have gs: "\<exists>ntplSize. GetSize kOCNameMaxLength = Inr ntplSize \<and> ?n \<le> ntplSize"
    by (simp add: GetSize_eq)
  from de [of ?n] de ser gs show ?thesis
    by blast
qed

theorem anchor_round_trip_witness:
  "length ''SX'' \<le> unat (64 :: u64) \<and> 24 + unat (64 :: u64) < 2 ^ 32 \<and>
   24 + length ''SX'' \<le> length (make_unique 88) \<and>
   (\<exists>n out. Serialize \<lparr>fVersion = 1, fNBytesHeader = 7, fLenHeader = 9,
                         fNBytesFooter = 4, fLenFooter = 5, fObjClass = ''SX''\<rparr>
               (Some (make_unique 88)) = Inr (n, Some out) \<and>
      Deserialize RDaosNTupleAnchor_default out n =
        (Inr n, \<lparr>fVersion = 1, fNBytesHeader = 7, fLenHeader = 9,
                  fNBytesFooter = 4, fLenFooter = 5, fObjClass = ''SX''\<rparr>))"
proof -
  let ?a = "\<lparr>fVersion = 1, fNBytesHeader = 7, fLenHeader = 9,
             fNBytesFooter = 4, fLenFooter = 5, fObjClass = ''SX''\<rparr>"
  have max: "length (fObjClass ?a) \<le> unat (64 :: u64)"
    by simp
  have small: "24 + unat (64 :: u64) < 2 ^ 32"
    by simp
  have fit: "24 + length (fObjClass ?a) \<le> length (make_unique 88)"
    by (simp add: make_unique_def)
  from anchor_round_trip [OF max small fit, of RDaosNTupleAnchor_default]
  obtain n out where
    "Serialize ?a (Some (make_unique 88)) = Inr (n, Some out)"
    "Deserialize RDaosNTupleAnchor_default out n = (Inr n, ?a)"
    by blast
  then show ?thesis
    using max small fit by auto
qed

text \<open>
  Claim C6 (anchor serialization). \<open>Serialize\<close> with a null buffer writes nothing and
  returns 20 plus the serialized length of the class name, which is 4 plus its number of
  bytes. With a buffer large enough it returns the same, keeps the size of the buffer,
  and stores the five fields at offsets 0, 4, 8, 12 and 16 as little-endian 32-bit
  integers, the length of the class name at offset 20 in the same encoding and the bytes
  of the name from offset 24; the bytes after the record are untouched.
\<close>

theorem Serialize_layout:
  assumes "24 + length (fObjClass a) < 2 ^ 32"
  shows "(\<exists>n. Serialize a None = Inr (n, None) \<and> unat n = 20 + (4 + length (fObjClass a))) \<and>
         (24 + length (fObjClass a) \<le> length mem \<longrightarrow>
           (\<exists>n out. Serialize a (Some mem) = Inr (n, Some out) \<and>
              unat n = 20 + (4 + length (fObjClass a)) \<and>
              length out = length mem \<and>
              le_value_at out 0 = unat (fVersion a) \<and>
              le_value_at out 4 = unat (fNBytesHeader a) \<and>
              le_value_at out 8 = unat (fLenHeader a) \<and>
              le_value_at out 12 = unat (fNBytesFooter a) \<and>
              le_value_at out 16 = unat (fLenFooter a) \<and>
              le_value_at out 20 = length (fObjClass a) \<and>
              take (length (fObjClass a)) (drop 24 out) = map byte_of_char (fObjClass a) \<and>
              drop (24 + length (fObjClass a)) out = drop (24 + length (fObjClass a)) mem))"
proof (intro conjI impI)
  show "\<exists>n. Serialize a None = Inr (n, None) \<and> unat n = 20 + (4 + length (fObjClass a))"
    using assms by (simp add: Serialize_null unat_24_plus)
next
  assume fit: "24 + length (fObjClass a) \<le> length mem"
  let ?B1 = "le32 (fVersion a)" and ?B2 = "le32 (fNBytesHeader a)"
  and ?B3 = "le32 (fLenHeader a)" and ?B4 = "le32 (fNBytesFooter a)"
  and ?B5 = "le32 (fLenFooter a)" and ?B6 = "le32 (of_nat (length (fObjClass a)))"
  let ?S = "map byte_of_char (fObjClass a)"
  let ?T = "drop (24 + length (fObjClass a)) mem"
  let ?out = "spec_anchor_record a @ ?T"
  have out: "?out = ?B1 @ ?B2 @ ?B3 @ ?B4 @ ?B5 @ ?B6 @ ?S @ ?T"
    by (simp add: spec_anchor_record_def)
  have ser: "Serialize a (Some mem) = Inr (of_nat (length (fObjClass a)) + 24, Some ?out)"
    using fit by (rule Serialize_Some)
  have n: "unat (of_nat (length (fObjClass a)) + 24 :: u32) = 20 + (4 + length (fObjClass a))"
    using assms by (simp add: unat_24_plus)
  have len: "length ?out = length mem"
    using fit by simp
  have ul: "unat (of_nat (length (fObjClass a)) :: u32) = length (fObjClass a)"
    using assms by (simp add: unat_of_nat_len)
  have v0: "le_value_at ?out 0 = unat (fVersion a)"
    unfolding out using le_value_at_le32 [of "[]" "fVersion a"] by simp
  have v4: "le_value_at ?out 4 = unat (fNBytesHeader a)"
    unfolding out using le_value_at_le32 [of ?B1 "fNBytesHeader a"] by simp
  have v8: "le_value_at ?out 8 = unat (fLenHeader a)"
    unfolding out using le_value_at_le32 [of "?B1 @ ?B2" "fLenHeader a"] by simp
  have v12: "le_value_at ?out 12 = unat (fNBytesFooter a)"
    unfolding out using le_value_at_le32 [of "?B1 @ ?B2 @ ?B3" "fNBytesFooter a"] by simp
  have v16: "le_value_at ?out 16 = unat (fLenFooter a)"
    unfolding out using le_value_at_le32 [of "?B1 @ ?B2 @ ?B3 @ ?B4" "fLenFooter a"] by simp
  have v20: "le_value_at ?out 20 = length (fObjClass a)"
    unfolding out
    using le_value_at_le32 [of "?B1 @ ?B2 @ ?B3 @ ?B4 @ ?B5" "of_nat (length (fObjClass a))"] ul
    by simp
  have str: "take (length (fObjClass a)) (drop 24 ?out) = ?S"
    unfolding out by simp
  have tl: "drop (24 + length (fObjClass a)) ?out = ?T"
    by simp
  show "\<exists>n out. Serialize a (Some mem) = Inr (n, Some out) \<and>
              unat n = 20 + (4 + length (fObjClass a)) \<and>
              length out = length mem \<and>
              le_value_at out 0 = unat (fVersion a) \<and>
              le_value_at out 4 = unat (fNBytesHeader a) \<and>
              le_value_at out 8 = unat (fLenHeader a) \<and>
              le_value_at out 12 = unat (fNBytesFooter a) \<and>
              le_value_at out 16 = unat (fLenFooter a) \<and>
              le_value_at out 20 = length (fObjClass a) \<and>
              take (length (fObjClass a)) (drop 24 out) = map byte_of_char (fObjClass a) \<and>
              drop (24 + length (fObjClass a)) out = drop (24 + length (fObjClass a)) mem"
    using ser n len v0 v4 v8 v12 v16 v20 str tl by blast
qed

theorem Serialize_layout_witness:
  "24 + length ''SX'' < (2 :: nat) ^ 32 \<and> 24 + length ''SX'' \<le> length (make_unique 30) \<and>
   (\<exists>n out. Serialize \<lparr>fVersion = 1, fNBytesHeader = 0x01020304, fLenHeader = 3,
                         fNBytesFooter = 4, fLenFooter = 5, fObjClass = ''SX''\<rparr>
               (Some (make_unique 30)) = Inr (n, Some out) \<and>
      unat n = 26 \<and> length out = 30 \<and> le_value_at out 4 = 16909060 \<and>
      take 2 (drop 24 out) = [83, 88])"
proof -
  let ?a = "\<lparr>fVersion = 1, fNBytesHeader = 0x01020304, fLenHeader = 3,
             fNBytesFooter = 4, fLenFooter = 5, fObjClass = ''SX''\<rparr>"
  have small: "24 + length (fObjClass ?a) < 2 ^ 32"
    by simp
  have fit: "24 + length (fObjClass ?a) \<le> length (make_unique 30)"
    by (simp add: make_unique_def)
  from Serialize_layout [OF small, of "make_unique 30"] fit
  obtain n out where
    r: "Serialize ?a (Some (make_unique 30)) = Inr (n, Some out)"
      "unat n = 20 + (4 + length (fObjClass ?a))"
      "length out = length (make_unique 30)"
      "le_value_at out 4 = unat (fNBytesHeader ?a)" and
    t: "take (length (fObjClass ?a)) (drop 24 out) = map byte_of_char (fObjClass ?a)"
    by blast
  from t have "take 2 (drop 24 out) = [83, 88]"
    by (simp add: byte_of_char_def numeral_2_eq_2)
  with r show ?thesis
    by (simp add: make_unique_def)
qed

text \<open>
  Claim C7 (anchor deserialization failure). For a buffer size below 20 \<open>Deserialize\<close>
  fails with the anchor-too-short error whatever the buffer holds, even none at all, and
  leaves the anchor unchanged. For a size of at least 20 it assigns the five integers
  read at offsets 0 to 16 and decodes the string at offset 20 within the size minus 20: an
  error of the string decoder is returned as it is, with the class name unchanged, and on
  success the result is the decoder's count plus 20, which is 20 plus the 4 bytes of the
  prefix plus the bytes of the string and never more than the buffer size.
\<close>

theorem Deserialize_cases:
  "(bufSize < 20 \<longrightarrow> Deserialize a mem bufSize = (Inl AnchorTooShort, a)) \<and>
   (\<not> bufSize < 20 \<and> unat bufSize \<le> length mem \<longrightarrow>
      (case Deserialize a mem bufSize of (r, a') \<Rightarrow>
         fVersion a' = un_le32 (take 4 mem) \<and>
         fNBytesHeader a' = un_le32 (take 4 (drop 4 mem)) \<and>
         fLenHeader a' = un_le32 (take 4 (drop 8 mem)) \<and>
         fNBytesFooter a' = un_le32 (take 4 (drop 12 mem)) \<and>
         fLenFooter a' = un_le32 (take 4 (drop 16 mem)) \<and>
         (case DeserializeString mem 20 (bufSize - 20) of
            Inl e \<Rightarrow> r = Inl e \<and> fObjClass a' = fObjClass a
          | Inr (k, s) \<Rightarrow>
              r = Inr (k + 20) \<and> fObjClass a' = s \<and>
              unat (k + 20) = 20 + (4 + length s) \<and> k + 20 \<le> bufSize)))"
proof (intro conjI impI)
  assume "bufSize < 20"
  then show "Deserialize a mem bufSize = (Inl AnchorTooShort, a)"
    by (simp add: Deserialize_def)
next
  assume h: "\<not> bufSize < 20 \<and> unat bufSize \<le> length mem"
  then have l20: "20 \<le> length mem" and u20: "20 \<le> unat bufSize"
    by (simp_all add: word_less_nat_alt)
  have sub: "unat (bufSize - 20) = unat bufSize - 20"
    using u20 by (simp add: unat_sub word_le_nat_alt)
  have 1: "DeserializeUInt32 mem 0 = Inr (4, un_le32 (take 4 mem))"
    using DeserializeUInt32_in [of 0 mem] l20 by simp
  have 2: "DeserializeUInt32 mem 4 = Inr (4, un_le32 (take 4 (drop 4 mem)))"
    using DeserializeUInt32_in [of 4 mem] l20 by simp
  have 3: "DeserializeUInt32 mem 8 = Inr (4, un_le32 (take 4 (drop 8 mem)))"
    using DeserializeUInt32_in [of 8 mem] l20 by simp
  have 4: "DeserializeUInt32 mem 12 = Inr (4, un_le32 (take 4 (drop 12 mem)))"
    using DeserializeUInt32_in [of 12 mem] l20 by simp
  have 5: "DeserializeUInt32 mem 16 = Inr (4, un_le32 (take 4 (drop 16 mem)))"
    using DeserializeUInt32_in [of 16 mem] l20 by simp
  show "case Deserialize a mem bufSize of (r, a') \<Rightarrow>
         fVersion a' = un_le32 (take 4 mem) \<and>
         fNBytesHeader a' = un_le32 (take 4 (drop 4 mem)) \<and>
         fLenHeader a' = un_le32 (take 4 (drop 8 mem)) \<and>
         fNBytesFooter a' = un_le32 (take 4 (drop 12 mem)) \<and>
         fLenFooter a' = un_le32 (take 4 (drop 16 mem)) \<and>
         (case DeserializeString mem 20 (bufSize - 20) of
            Inl e \<Rightarrow> r = Inl e \<and> fObjClass a' = fObjClass a
          | Inr (k, s) \<Rightarrow>
              r = Inr (k + 20) \<and> fObjClass a' = s \<and>
              unat (k + 20) = 20 + (4 + length s) \<and> k + 20 \<le> bufSize)"
  proof (cases "DeserializeString mem 20 (bufSize - 20)")
    case (Inl e)
    then show ?thesis
      using h by (simp add: Deserialize_def 1 2 3 4 5)
  next
    case (Inr p)
    obtain k s where p: "p = (k, s)" by (cases p)
    from DeserializeString_Inr [of mem 20 "bufSize - 20" k s] Inr p
    have ks: "unat k = 4 + length s" "4 + length s \<le> unat bufSize - 20"
      using sub by simp_all
    have "unat bufSize < 2 ^ 32"
      using unsigned_less [of bufSize] by simp
    then have uk: "unat (k + 20) = 20 + (4 + length s)"
      using ks u20 by (simp add: unat_word_ariths)
    then have "k + 20 \<le> bufSize"
      using ks u20 by (simp add: word_le_nat_alt)
    then show ?thesis
      using h Inr p uk by (simp add: Deserialize_def 1 2 3 4 5)
  qed
qed

theorem Deserialize_cases_witness:
  "(19 :: u32) < 20 \<and> Deserialize RDaosNTupleAnchor_default [] 19 =
      (Inl AnchorTooShort, RDaosNTupleAnchor_default) \<and>
   \<not> (25 :: u32) < 20 \<and> unat (25 :: u32) \<le> length (make_unique 25) \<and>
   fst (Deserialize RDaosNTupleAnchor_default (make_unique 25) 25) = Inr 24"
proof -
  have short: "(19 :: u32) < 20"
    by simp
  have long: "\<not> (25 :: u32) < 20 \<and> unat (25 :: u32) \<le> length (make_unique 25)"
    by (simp add: make_unique_def)
  have str: "DeserializeString (make_unique 25) 20 5 = Inr (4, [])"
    by (simp add: make_unique_def DeserializeString_def DeserializeUInt32_def peek_def
          un_le32_def)
  from Deserialize_cases [of 19 RDaosNTupleAnchor_default "[]"] short
  have 1: "Deserialize RDaosNTupleAnchor_default [] 19 =
             (Inl AnchorTooShort, RDaosNTupleAnchor_default)"
    by blast
  from Deserialize_cases [of 25 RDaosNTupleAnchor_default "make_unique 25"] long
  have 2: "fst (Deserialize RDaosNTupleAnchor_default (make_unique 25) 25) = Inr 24"
    by (auto simp: str split: prod.splits)
  from short long 1 2 show ?thesis
    by blast
qed

section \<open>The page keys\<close>

text \<open>
  Claim C5 (key mapping). Under the default mapping, one object per cluster, the key of a
  page is a function of the cluster, the column and the page sequence number alone: the
  object id is the cluster id with a zero high half, the distribution key is the column
  id and the attribute key is the page sequence number. The object id of the metadata is
  the largest 64-bit value with a zero high half and that of the page lists is the value
  below it. The object of a page is one of the two exactly when the cluster id is that
  value, so the reserved ids are apart from each other and from the object of every
  cluster numbered below them.
\<close>

theorem GetPageDaosKey_default:
  "GetPageDaosKey kDefaultDaosMapping clusterId columnId pageSeq =
     \<lparr>fOid = \<lparr>lo = clusterId, hi = 0\<rparr>, fDkey = columnId, fAkey = pageSeq\<rparr> \<and>
   kOidMetadata = \<lparr>lo = 0xFFFFFFFFFFFFFFFF, hi = 0\<rparr> \<and>
   kOidPageList = \<lparr>lo = 0xFFFFFFFFFFFFFFFE, hi = 0\<rparr> \<and>
   kOidMetadata \<noteq> kOidPageList \<and>
   (fOid (GetPageDaosKey kDefaultDaosMapping clusterId columnId pageSeq) = kOidMetadata
      \<longleftrightarrow> clusterId = 0xFFFFFFFFFFFFFFFF) \<and>
   (fOid (GetPageDaosKey kDefaultDaosMapping clusterId columnId pageSeq) = kOidPageList
      \<longleftrightarrow> clusterId = 0xFFFFFFFFFFFFFFFE) \<and>
   (clusterId < 0xFFFFFFFFFFFFFFFE \<longrightarrow>
      fOid (GetPageDaosKey kDefaultDaosMapping clusterId columnId pageSeq) \<noteq> kOidMetadata \<and>
      fOid (GetPageDaosKey kDefaultDaosMapping clusterId columnId pageSeq) \<noteq> kOidPageList)"
proof -
  have m: "kOidMetadata = \<lparr>lo = 0xFFFFFFFFFFFFFFFF, hi = 0\<rparr>"
    by (simp add: kOidMetadata_def)
  have p: "kOidPageList = \<lparr>lo = 0xFFFFFFFFFFFFFFFE, hi = 0\<rparr>"
    by (simp add: kOidPageList_def)
  have k: "GetPageDaosKey kDefaultDaosMapping clusterId columnId pageSeq =
     \<lparr>fOid = \<lparr>lo = clusterId, hi = 0\<rparr>, fDkey = columnId, fAkey = pageSeq\<rparr>"
    by (simp add: kDefaultDaosMapping_def)
  have lt: "clusterId < 0xFFFFFFFFFFFFFFFE \<Longrightarrow>
            clusterId \<noteq> 0xFFFFFFFFFFFFFFFF \<and> clusterId \<noteq> 0xFFFFFFFFFFFFFFFE"
    by (auto simp: word_less_nat_alt)
  show ?thesis
    unfolding k m p using lt by simp
qed

theorem GetPageDaosKey_default_witness:
  "(3 :: u64) < 0xFFFFFFFFFFFFFFFE \<and>
   GetPageDaosKey kDefaultDaosMapping 3 4 5 =
     \<lparr>fOid = \<lparr>lo = 3, hi = 0\<rparr>, fDkey = 4, fAkey = 5\<rparr> \<and>
   fOid (GetPageDaosKey kDefaultDaosMapping 3 4 5) \<noteq> kOidMetadata \<and>
   fOid (GetPageDaosKey kDefaultDaosMapping 3 4 5) \<noteq> kOidPageList"
proof -
  have h: "(3 :: u64) < 0xFFFFFFFFFFFFFFFE"
    by simp
  from GetPageDaosKey_default [of 3 4 5] h show ?thesis
    by blast
qed

section \<open>The URI parser\<close>

subsection \<open>The matcher on the expression of the program\<close>

lemma first_some_all_None:
  "(\<forall>y \<in> set ys. y = None) \<Longrightarrow> first_some ys = None"
  by (induction ys) simp_all

lemma first_some_Cons_None:
  "(\<forall>y \<in> set ys. y = None) \<Longrightarrow> first_some (x # ys) = x"
  by (cases x) (simp_all add: first_some_all_None)

lemma first_some_single [simp]: "first_some [x] = x"
  by (cases x) simp_all

lemma rev_upt_Suc: "0 < k \<Longrightarrow> rev [1 ..< Suc k] = k # rev [1 ..< k]"
  by (simp add: Suc_leI)


text \<open>The candidates of a greedy \<open>+\<close>: the longest run first, then the shorter ones.\<close>

lemma first_some_greedy:
  assumes "0 < k" and "\<And>n. 0 < n \<Longrightarrow> n < k \<Longrightarrow> f n = None"
  shows "first_some (map f (rev [1 ..< Suc k])) = f k"
proof -
  have "\<forall>y \<in> set (map f (rev [1 ..< k])). y = None"
    using assms(2) by auto
  then have "first_some (f k # map f (rev [1 ..< k])) = f k"
    by (rule first_some_Cons_None)
  then show ?thesis
    using assms(1) by (simp only: rev_upt_Suc list.map)
qed

lemma regex_match_from_Plus:
  "regex_match_from (Capture (Plus c) # ps) s caps =
     first_some (map (\<lambda>n. regex_match_from ps (drop n s) (caps @ [take n s]))
                     (rev [1 ..< Suc (length (takeWhile (in_cclass c) s))]))"
  by (simp add: comp_def)

lemma regex_match_from_Lit:
  "regex_match_from (Lit l # ps) s caps =
     (if take (length l) s = l then regex_match_from ps (drop (length l) s) caps else None)"
  by simp

text \<open>The last group: \<open>(.+)\<close> followed by the end of the input.\<close>

lemma match_last_group:
  "regex_match_from [Capture (Plus c)] v caps =
     (if v \<noteq> [] \<and> (\<forall>x \<in> set v. in_cclass c x) then Some (caps @ [v]) else None)"
proof -
  define k where "k = length (takeWhile (in_cclass c) v)"
  define f where "f = (\<lambda>n. regex_match_from [] (drop n v) (caps @ [take n v]))"
  have eq: "regex_match_from [Capture (Plus c)] v caps = first_some (map f (rev [1 ..< Suc k]))"
    unfolding k_def f_def by (rule regex_match_from_Plus)
  have kle: "k \<le> length v"
    unfolding k_def by (rule length_takeWhile_le)
  have short: "f n = None" if "n < length v" for n
    using that by (simp add: f_def)
  show ?thesis
  proof (cases "v \<noteq> [] \<and> (\<forall>x \<in> set v. in_cclass c x)")
    case True
    then have "takeWhile (in_cclass c) v = v"
      by simp
    then have k: "k = length v"
      unfolding k_def by (rule arg_cong)
    then have pos: "0 < k"
      using True by simp
    have "first_some (map f (rev [1 ..< Suc k])) = f k"
      using pos short k by (intro first_some_greedy) simp_all
    moreover have "f k = Some (caps @ [v])"
      using k by (simp add: f_def)
    ultimately show ?thesis
      using True eq by simp
  next
    case False
    have less: "v \<noteq> [] \<Longrightarrow> k < length v"
    proof -
      assume "v \<noteq> []"
      with False have "\<not> (\<forall>x \<in> set v. in_cclass c x)" by simp
      then have "takeWhile (in_cclass c) v \<noteq> v"
        by (simp add: takeWhile_eq_all_conv)
      then have "k \<noteq> length v"
        unfolding k_def by (metis takeWhile_dropWhile_id append_eq_conv_conj take_all order_refl
            length_append add_cancel_right_right length_0_conv)
      with kle show ?thesis by simp
    qed
    have "f n = None" if "n \<in> set (rev [1 ..< Suc k])" for n
    proof (cases "v = []")
      case True
      then have "k = 0" using kle by simp
      with that show ?thesis by simp
    next
      case False
      with less that have "n < length v" by auto
      then show ?thesis by (rule short)
    qed
    then have "\<forall>y \<in> set (map f (rev [1 ..< Suc k])). y = None"
      by auto
    then have "first_some (map f (rev [1 ..< Suc k])) = None"
      by (rule first_some_all_None)
    then show ?thesis
      using False eq by simp
  qed
qed


text \<open>The first group: \<open>([^/]+)\<close> followed by the literal slash.\<close>

lemma match_first_group:
  "regex_match_from (Capture (Plus (NoneOf ''/'')) # Lit ''/'' # ps) t caps =
     (if takeWhile (\<lambda>x. x \<noteq> CHR ''/'') t \<noteq> [] \<and>
         take 1 (dropWhile (\<lambda>x. x \<noteq> CHR ''/'') t) = ''/''
      then regex_match_from ps (drop 1 (dropWhile (\<lambda>x. x \<noteq> CHR ''/'') t))
             (caps @ [takeWhile (\<lambda>x. x \<noteq> CHR ''/'') t])
      else None)"
proof -
  let ?P = "\<lambda>x. x \<noteq> CHR ''/''"
  define k where "k = length (takeWhile ?P t)"
  define f where
    "f = (\<lambda>n. regex_match_from (Lit ''/'' # ps) (drop n t) (caps @ [take n t]))"
  have cls: "in_cclass (NoneOf ''/'') = ?P"
    by (rule ext) simp
  have eq: "regex_match_from (Capture (Plus (NoneOf ''/'')) # Lit ''/'' # ps) t caps =
            first_some (map f (rev [1 ..< Suc k]))"
    unfolding k_def f_def cls [symmetric] by (rule regex_match_from_Plus)
  have tk: "take k t = takeWhile ?P t" and dk: "drop k t = dropWhile ?P t"
    unfolding k_def by (simp_all add: takeWhile_eq_take [symmetric] dropWhile_eq_drop [symmetric])
  have inner: "f n = None" if "n < k" for n
  proof -
    have "n < length t"
      using that length_takeWhile_le [of ?P t] by (simp add: k_def)
    moreover have "t ! n \<noteq> CHR ''/''"
      using that nth_length_takeWhile takeWhile_nth [of n ?P t] nth_mem [of n "takeWhile ?P t"]
        set_takeWhileD [of "takeWhile ?P t ! n" ?P t]
      by (simp add: k_def)
    ultimately have "take 1 (drop n t) \<noteq> ''/''"
      by (simp add: take_Suc_conv_app_nth hd_drop_conv_nth take_Suc)
    then show ?thesis
      by (simp add: f_def)
  qed
  have last: "f k = (if take 1 (dropWhile ?P t) = ''/''
                     then regex_match_from ps (drop 1 (dropWhile ?P t)) (caps @ [takeWhile ?P t])
                     else None)"
    by (simp add: f_def tk dk)
  show ?thesis
  proof (cases "k = 0")
    case True
    then have "takeWhile ?P t = []"
      by (simp add: k_def)
    then show ?thesis
      using eq True by simp
  next
    case False
    then have ne: "takeWhile ?P t \<noteq> []"
      by (simp add: k_def)
    have "first_some (map f (rev [1 ..< Suc k])) = f k"
      using False inner by (intro first_some_greedy) simp_all
    then show ?thesis
      using eq last ne by simp
  qed
qed

lemma regex_match_re:
  "regex_match s re =
     (let t = drop 7 s;
          p = takeWhile (\<lambda>x. x \<noteq> CHR ''/'') t;
          u = dropWhile (\<lambda>x. x \<noteq> CHR ''/'') t;
          c = drop 1 u
      in if take 7 s = ''daos://'' \<and> p \<noteq> [] \<and> take 1 u = ''/'' \<and> c \<noteq> [] \<and>
            (\<forall>x \<in> set c. x \<noteq> CHR 0x0A \<and> x \<noteq> CHR 0x0D)
         then Some [p, c] else None)"
proof -
  have l7: "length ''daos://'' = 7"
    by simp
  have any: "in_cclass AnyChar = (\<lambda>x. x \<noteq> CHR 0x0A \<and> x \<noteq> CHR 0x0D)"
    by (rule ext) simp
  show ?thesis
    unfolding regex_match_def re_def regex_match_from_Lit match_first_group match_last_group
      l7 any Let_def
    by (simp del: regex_match_from.simps in_cclass.simps)
qed

lemma takeWhile_until: "c \<notin> set xs \<Longrightarrow> takeWhile (\<lambda>x. x \<noteq> c) (xs @ c # ys) = xs"
  by (induction xs) auto

lemma dropWhile_until: "c \<notin> set xs \<Longrightarrow> dropWhile (\<lambda>x. x \<noteq> c) (xs @ c # ys) = c # ys"
  by (induction xs) auto

text \<open>On a terminated view the C string is the view.\<close>

lemma c_str_terminated:
  assumes "terminated uri"
  shows "c_str (M_str uri) = Inr (view_chars uri)"
proof -
  from assms have n: "M_len uri < length (M_str uri)"
    and z: "M_str uri ! M_len uri = CHR 0x00"
    and v: "CHR 0x00 \<notin> set (view_chars uri)"
    unfolding terminated_def by blast+
  have m: "M_str uri = view_chars uri @ CHR 0x00 # drop (Suc (M_len uri)) (M_str uri)"
    unfolding view_chars_def using id_take_nth_drop [OF n] z by simp
  have "CHR 0x00 \<in> set (view_chars uri @ CHR 0x00 # drop (Suc (M_len uri)) (M_str uri))"
    by simp
  then have in_mem: "CHR 0x00 \<in> set (M_str uri)"
    using m by simp
  have "takeWhile (\<lambda>c. c \<noteq> CHR 0x00)
          (view_chars uri @ CHR 0x00 # drop (Suc (M_len uri)) (M_str uri)) = view_chars uri"
    using v by (rule takeWhile_until)
  then have "takeWhile (\<lambda>c. c \<noteq> CHR 0x00) (M_str uri) = view_chars uri"
    using m by simp
  with in_mem show ?thesis
    by (simp add: c_str_def)
qed

lemma ParseDaosURI_terminated:
  assumes "terminated uri" and "\<not> exhausts (view_chars uri)"
  shows "ParseDaosURI exhausts uri =
           (case regex_match (view_chars uri) re of
              None \<Rightarrow> Inl InvalidUri
            | Some m \<Rightarrow> Inr \<lparr>fPoolLabel = m ! 0, fContainerLabel = m ! 1\<rparr>)"
  using assms by (simp add: ParseDaosURI_def c_str_terminated)

lemma terminated_view_of_string: "CHR 0x00 \<notin> set s \<Longrightarrow> terminated (view_of_string s)"
  by (simp add: terminated_def view_of_string_def view_chars_def)

lemma view_chars_view_of_string [simp]: "view_chars (view_of_string s) = s"
  by (simp add: view_of_string_def view_chars_def)

text \<open>
  The length of the view plays no part: a view that ends before the NUL of its array is
  matched with the characters behind it, and a view with a NUL inside is cut there.
\<close>

lemma ParseDaosURI_reads_to_NUL:
  "ParseDaosURI small_stack \<lparr>M_str = ''daos://pool/cont/extra'' @ [CHR 0x00], M_len = 16\<rparr> =
     Inr \<lparr>fPoolLabel = ''pool'', fContainerLabel = ''cont/extra''\<rparr> \<and>
   view_chars \<lparr>M_str = ''daos://pool/cont/extra'' @ [CHR 0x00], M_len = 16\<rparr> = ''daos://pool/cont'' \<and>
   ParseDaosURI small_stack (view_of_string (''daos://pool/a'' @ [CHR 0x00] @ ''b'')) =
     Inr \<lparr>fPoolLabel = ''pool'', fContainerLabel = ''a''\<rparr> \<and>
   ParseDaosURI small_stack \<lparr>M_str = ''daos://pool/cont'', M_len = 16\<rparr> = Inl OutOfBounds"
  by (simp add: ParseDaosURI_def c_str_def small_stack_def regex_match_re view_chars_def
        view_of_string_def)

subsection \<open>The claim on the URI parser\<close>

text \<open>
  Claim C9 (URI parsing), as the program has it. The input is a view without a NUL
  character that is followed by a NUL in memory, as the view of a \<open>std::string\<close> is, and
  the matcher has the stack for it. \<open>ParseDaosURI\<close> matches it against
  \<open>daos://([^/]+)/(.+)\<close>. For every pool that is not empty and has no slash and every
  container that is not empty and has no line feed and no carriage return, the parser
  returns the two labels for \<open>daos://pool/container\<close>. Whenever the parser returns labels,
  the input is \<open>daos://\<close>, the pool, a slash and the container, with a pool and a container
  of this kind. Every other input fails with the invalid-URI error.
\<close>

theorem ParseDaosURI_form:
  assumes t: "terminated uri" and x: "\<not> exhausts (view_chars uri)"
  shows "(view_chars uri = ''daos://'' @ pool @ ''/'' @ container \<and>
          pool \<noteq> [] \<and> CHR ''/'' \<notin> set pool \<and> container \<noteq> [] \<and>
          CHR 0x0A \<notin> set container \<and> CHR 0x0D \<notin> set container \<longrightarrow>
            ParseDaosURI exhausts uri =
              Inr \<lparr>fPoolLabel = pool, fContainerLabel = container\<rparr>) \<and>
         (\<forall>r. ParseDaosURI exhausts uri = Inr r \<longrightarrow>
            view_chars uri = ''daos://'' @ fPoolLabel r @ ''/'' @ fContainerLabel r \<and>
            fPoolLabel r \<noteq> [] \<and> CHR ''/'' \<notin> set (fPoolLabel r) \<and> fContainerLabel r \<noteq> [] \<and>
            CHR 0x0A \<notin> set (fContainerLabel r) \<and> CHR 0x0D \<notin> set (fContainerLabel r)) \<and>
         ((\<forall>r. ParseDaosURI exhausts uri \<noteq> Inr r) \<longrightarrow>
            ParseDaosURI exhausts uri = Inl InvalidUri)"
proof -
  note P = ParseDaosURI_terminated [where uri = uri and exhausts = exhausts, OF t x]
  have A: "view_chars uri = ''daos://'' @ pool @ ''/'' @ container \<and>
          pool \<noteq> [] \<and> CHR ''/'' \<notin> set pool \<and> container \<noteq> [] \<and>
          CHR 0x0A \<notin> set container \<and> CHR 0x0D \<notin> set container \<longrightarrow>
            ParseDaosURI exhausts uri =
              Inr \<lparr>fPoolLabel = pool, fContainerLabel = container\<rparr>"
  proof
  assume h: "view_chars uri = ''daos://'' @ pool @ ''/'' @ container \<and>
          pool \<noteq> [] \<and> CHR ''/'' \<notin> set pool \<and> container \<noteq> [] \<and>
          CHR 0x0A \<notin> set container \<and> CHR 0x0D \<notin> set container"
  let ?s = "''daos://'' @ pool @ ''/'' @ container"
  have d: "view_chars uri = ?s"
    using h by blast
  have t7: "drop 7 ?s = pool @ CHR ''/'' # container"
    by simp
  have p: "takeWhile (\<lambda>x. x \<noteq> CHR ''/'') (pool @ CHR ''/'' # container) = pool"
    using h by (simp add: takeWhile_until)
  have u: "dropWhile (\<lambda>x. x \<noteq> CHR ''/'') (pool @ CHR ''/'' # container) = CHR ''/'' # container"
    using h by (simp add: dropWhile_until)
  have "regex_match ?s re = Some [pool, container]"
    unfolding regex_match_re Let_def t7 p u using h by simp blast
  then show "ParseDaosURI exhausts uri = Inr \<lparr>fPoolLabel = pool, fContainerLabel = container\<rparr>"
    unfolding P d by simp
  qed
  have B: "\<forall>r. ParseDaosURI exhausts uri = Inr r \<longrightarrow>
      view_chars uri = ''daos://'' @ fPoolLabel r @ ''/'' @ fContainerLabel r \<and>
      fPoolLabel r \<noteq> [] \<and> CHR ''/'' \<notin> set (fPoolLabel r) \<and> fContainerLabel r \<noteq> [] \<and>
      CHR 0x0A \<notin> set (fContainerLabel r) \<and> CHR 0x0D \<notin> set (fContainerLabel r)"
  proof (intro allI impI)
  fix r
  assume ok: "ParseDaosURI exhausts uri = Inr r"
  define s where "s = view_chars uri"
  define t where "t = drop 7 s"
  define p where "p = takeWhile (\<lambda>x. x \<noteq> CHR ''/'') t"
  define u where "u = dropWhile (\<lambda>x. x \<noteq> CHR ''/'') t"
  define c where "c = drop 1 u"
  define C where "C \<longleftrightarrow> take 7 s = ''daos://'' \<and> p \<noteq> [] \<and> take 1 u = ''/'' \<and> c \<noteq> [] \<and>
            (\<forall>x \<in> set c. x \<noteq> CHR 0x0A \<and> x \<noteq> CHR 0x0D)"
  have rm: "regex_match s re = (if C then Some [p, c] else None)"
    unfolding regex_match_re Let_def C_def c_def u_def p_def t_def by (rule refl)
  from ok obtain m where m: "regex_match s re = Some m"
    and r: "r = \<lparr>fPoolLabel = m ! 0, fContainerLabel = m ! 1\<rparr>"
    unfolding P s_def by (cases "regex_match (view_chars uri) re") simp_all
  from m rm have C and "m = [p, c]"
    by (simp_all split: if_splits)
  then have rp: "fPoolLabel r = p" and rc: "fContainerLabel r = c"
    using r by simp_all
  from \<open>C\<close> have cond: "take 7 s = ''daos://''" "p \<noteq> []" "take 1 u = ''/''" "c \<noteq> []"
      "\<forall>x \<in> set c. x \<noteq> CHR 0x0A \<and> x \<noteq> CHR 0x0D"
    unfolding C_def by blast+
  have "s = take 7 s @ t"
    unfolding t_def by simp
  moreover have "t = p @ u"
    unfolding p_def u_def by simp
  moreover have "u = take 1 u @ c"
    unfolding c_def by simp
  ultimately have "s = ''daos://'' @ p @ ''/'' @ c"
    using cond(1,3) by metis
  moreover have "CHR ''/'' \<notin> set p"
    unfolding p_def using set_takeWhileD [of "CHR ''/''" "\<lambda>x. x \<noteq> CHR ''/''" t] by blast
  ultimately show "view_chars uri = ''daos://'' @ fPoolLabel r @ ''/'' @ fContainerLabel r \<and>
      fPoolLabel r \<noteq> [] \<and> CHR ''/'' \<notin> set (fPoolLabel r) \<and> fContainerLabel r \<noteq> [] \<and>
      CHR 0x0A \<notin> set (fContainerLabel r) \<and> CHR 0x0D \<notin> set (fContainerLabel r)"
    unfolding rp rc s_def [symmetric] using cond by blast
  qed
  have C: "(\<forall>r. ParseDaosURI exhausts uri \<noteq> Inr r) \<longrightarrow> ParseDaosURI exhausts uri = Inl InvalidUri"
    unfolding P by (cases "regex_match (view_chars uri) re") simp_all
  from A B C show ?thesis
    by (intro conjI)
qed

theorem ParseDaosURI_form_witness:
  "terminated (view_of_string ''daos://pool/cont/x'') \<and>
   \<not> small_stack (view_chars (view_of_string ''daos://pool/cont/x'')) \<and>
   (view_chars (view_of_string ''daos://pool/cont/x'') = ''daos://'' @ ''pool'' @ ''/'' @ ''cont/x'' \<and>
    ''pool'' \<noteq> [] \<and> CHR ''/'' \<notin> set ''pool'' \<and> ''cont/x'' \<noteq> [] \<and>
    CHR 0x0A \<notin> set ''cont/x'' \<and> CHR 0x0D \<notin> set ''cont/x'') \<and>
   ParseDaosURI small_stack (view_of_string ''daos://pool/cont/x'') =
     Inr \<lparr>fPoolLabel = ''pool'', fContainerLabel = ''cont/x''\<rparr> \<and>
   terminated (view_of_string ''daos:///c'') \<and>
   \<not> small_stack (view_chars (view_of_string ''daos:///c'')) \<and>
   (\<forall>r. ParseDaosURI small_stack (view_of_string ''daos:///c'') \<noteq> Inr r) \<and>
   ParseDaosURI small_stack (view_of_string ''daos:///c'') = Inl InvalidUri"
proof -
  let ?u = "view_of_string ''daos://pool/cont/x''"
  let ?v = "view_of_string ''daos:///c''"
  have tu: "terminated ?u"
    by (rule terminated_view_of_string) simp
  have xu: "\<not> small_stack (view_chars ?u)"
    by (simp add: small_stack_def)
  have h: "view_chars ?u = ''daos://'' @ ''pool'' @ ''/'' @ ''cont/x'' \<and>
    ''pool'' \<noteq> [] \<and> CHR ''/'' \<notin> set ''pool'' \<and> ''cont/x'' \<noteq> [] \<and>
    CHR 0x0A \<notin> set ''cont/x'' \<and> CHR 0x0D \<notin> set ''cont/x''"
    by simp
  from ParseDaosURI_form [where uri = ?u and exhausts = small_stack and pool = "''pool''"
      and container = "''cont/x''", OF tu xu] h
  have 1: "ParseDaosURI small_stack ?u = Inr \<lparr>fPoolLabel = ''pool'', fContainerLabel = ''cont/x''\<rparr>"
    by blast
  have tv: "terminated ?v"
    by (rule terminated_view_of_string) simp
  have xv: "\<not> small_stack (view_chars ?v)"
    by (simp add: small_stack_def)
  have 3: "\<forall>r. ParseDaosURI small_stack ?v \<noteq> Inr r"
    by (simp add: ParseDaosURI_def c_str_def small_stack_def regex_match_re view_of_string_def)
  from ParseDaosURI_form [where uri = ?v and exhausts = small_stack and pool = "''pool''"
      and container = "''cont/x''", OF tv xv] 3
  have 4: "ParseDaosURI small_stack ?v = Inl InvalidUri"
    by blast
  from tu xu h 1 tv xv 3 4 show ?thesis
    by blast
qed

text \<open>
  Inputs of the form \<open>scheme://pool/container\<close>, with a pool that is not empty and has
  no slash, on which the parser does not return the two labels: it refuses the scheme
  \<open>kv\<close> of the spec, an empty container, a container with a line feed and one with a
  carriage return. Each is the view of a whole string.
\<close>

theorem ParseDaosURI_counterexample:
  "ParseDaosURI small_stack (view_of_string ''kv://pool/container'') = Inl InvalidUri \<and>
   ParseDaosURI small_stack (view_of_string ''daos://pool/'') = Inl InvalidUri \<and>
   ParseDaosURI small_stack (view_of_string (''daos://pool/a'' @ [CHR 0x0A] @ ''b'')) =
     Inl InvalidUri \<and>
   ParseDaosURI small_stack (view_of_string (''daos://pool/a'' @ [CHR 0x0D] @ ''b'')) =
     Inl InvalidUri"
  by (simp add: ParseDaosURI_def c_str_def small_stack_def regex_match_re view_of_string_def)

section \<open>The sink\<close>

subsection \<open>Conversions between the integer types\<close>

lemma ucast_add_down: "(ucast (x + y :: u64) :: u32) = ucast x + ucast y"
  by (simp add: word_unat_eq_iff unsigned_ucast_eq unat_word_ariths take_bit_eq_mod mod_mod_cancel mod_simps)

lemma ucast_scast_id: "(ucast (scast (c :: u32) :: u64) :: u32) = c"
  by (rule bit_word_eqI) (simp add: bit_simps)

lemma ucast_of_nat_down: "(ucast (of_nat n :: u64) :: u32) = of_nat n"
  by (simp add: word_unat_eq_iff unsigned_ucast_eq unsigned_of_nat take_bit_eq_mod mod_mod_cancel)

lemma bit_nat_small: "n < 2 ^ m \<Longrightarrow> m \<le> k \<Longrightarrow> \<not> bit (n :: nat) k"
proof -
  assume a: "n < 2 ^ m" "m \<le> k"
  then have "take_bit m n = n"
    by (simp add: take_bit_nat_eq_self)
  then have "bit n k = bit (take_bit m n) k"
    by simp
  then show ?thesis
    using a by (simp add: bit_take_bit_iff)
qed

lemma scast_of_nat_small: "n < 2 ^ 31 \<Longrightarrow> (scast (of_nat n :: u32) :: u64) = of_nat n"
proof (rule bit_word_eqI)
  fix k
  assume n: "n < 2 ^ 31" and k: "k < LENGTH(64)"
  have hi: "\<not> bit n j" if "31 \<le> j" for j
    using n that by (rule bit_nat_small)
  show "bit (scast (of_nat n :: u32) :: u64) k = bit (of_nat n :: u64) k"
  proof (cases "k < 31")
    case True
    then show ?thesis
      using k by (simp add: bit_simps min_def)
  next
    case False
    then show ?thesis
      using k hi [of k] hi [of 31] by (simp add: bit_simps min_def)
  qed
qed

lemma unat_of_nat64: "n < 2 ^ 64 \<Longrightarrow> unat (of_nat n :: u64) = n"
  by (simp add: unsigned_of_nat take_bit_nat_eq_self)

subsection \<open>The loops of the batched commit\<close>

lemma requested_emplace_insert: "requested (emplace_insert k a v w) k a v"
  by (induction w) (auto simp: requested_def)

lemma requested_mono: "requested w k' a' v' \<Longrightarrow> requested (emplace_insert k a v w) k' a' v'"
  by (induction w) (auto simp: requested_def)

lemma length_locators_from [simp]: "length (locators_from start ps) = length ps"
  by (induction ps arbitrary: start) simp_all

lemma locators_from_append:
  "locators_from start (xs @ ys) =
     locators_from start xs @ locators_from (start + of_nat (length xs)) ys"
  by (induction xs arbitrary: start) (simp_all add: add.assoc)

lemma nth_locators_from:
  "i < length ps \<Longrightarrow>
   locators_from start ps ! i = \<lparr>fPosition = start + of_nat i, fBytesOnStorage = fSize (ps ! i)\<rparr>"
proof (induction ps arbitrary: start i)
  case Nil
  then show ?case by simp
next
  case (Cons p ps)
  show ?case
  proof (cases i)
    case 0
    then show ?thesis by simp
  next
    case (Suc j)
    then have "j < length ps" using Cons.prems by simp
    from Cons.IH [OF this, of "start + 1"] show ?thesis
      using Suc by (simp add: add.assoc)
  qed
qed

lemma length_flatten_Cons:
  "flatten (r # rs) = map (Pair (fColumnId r)) (fRange r) @ flatten rs"
  by (simp add: flatten_def)

lemma flatten_Nil [simp]: "flatten [] = []"
  by (simp add: flatten_def)

lemma commit_range_inv:
  assumes "commit_range clusterId columnId pages (s, w, locs, sz) = (s', w', locs', sz')"
  shows "s' = s\<lparr>fPageId := fPageId s + of_nat (length pages)\<rparr> \<and>
         locs' = locs @ locators_from (fPageId s) pages \<and>
         (\<forall>i < length pages.
            requested w' (\<lparr>lo = clusterId, hi = 0\<rparr>, columnId) (fPageId s + of_nat i)
              (fBuffer (pages ! i), fSize (pages ! i))) \<and>
         (\<forall>k a v. requested w k a v \<longrightarrow> requested w' k a v)"
  using assms
proof (induction pages arbitrary: s w locs sz)
  case Nil
  then show ?case by simp
next
  case (Cons sp rest)
  let ?s1 = "s\<lparr>fPageId := fPageId s + 1\<rparr>"
  let ?w1 = "emplace_insert (\<lparr>lo = clusterId, hi = 0\<rparr>, columnId) (fPageId s) (fBuffer sp, fSize sp) w"
  let ?l1 = "locs @ [\<lparr>fPosition = fPageId s, fBytesOnStorage = fSize sp\<rparr>]"
  have step: "commit_range clusterId columnId rest (?s1, ?w1, ?l1, sz + fSize sp) = (s', w', locs', sz')"
    using Cons.prems by (simp add: kDefaultDaosMapping_def Let_def)
  note ih = Cons.IH [OF step]
  note ih1 = ih [THEN conjunct1]
  note ih2 = ih [THEN conjunct2, THEN conjunct1]
  note ih3 = ih [THEN conjunct2, THEN conjunct2, THEN conjunct1]
  note ih4 = ih [THEN conjunct2, THEN conjunct2, THEN conjunct2]
  have s': "s' = s\<lparr>fPageId := fPageId s + of_nat (length (sp # rest))\<rparr>"
    using ih1 by (simp add: add.assoc)
  have l': "locs' = locs @ locators_from (fPageId s) (sp # rest)"
    using ih2 by simp
  have mono: "\<forall>k a v. requested w k a v \<longrightarrow> requested w' k a v"
  proof (intro allI impI)
    fix k a v assume "requested w k a v"
    then have "requested ?w1 k a v"
      by (rule requested_mono)
    with ih4 show "requested w' k a v"
      by blast
  qed
  have req: "\<forall>i < length (sp # rest).
            requested w' (\<lparr>lo = clusterId, hi = 0\<rparr>, columnId) (fPageId s + of_nat i)
              (fBuffer ((sp # rest) ! i), fSize ((sp # rest) ! i))"
  proof (intro allI impI)
    fix i assume i: "i < length (sp # rest)"
    show "requested w' (\<lparr>lo = clusterId, hi = 0\<rparr>, columnId) (fPageId s + of_nat i)
              (fBuffer ((sp # rest) ! i), fSize ((sp # rest) ! i))"
    proof (cases i)
      case 0
      have "requested ?w1 (\<lparr>lo = clusterId, hi = 0\<rparr>, columnId) (fPageId s) (fBuffer sp, fSize sp)"
        by (rule requested_emplace_insert)
      with ih4 have "requested w' (\<lparr>lo = clusterId, hi = 0\<rparr>, columnId) (fPageId s) (fBuffer sp, fSize sp)"
        by blast
      then show ?thesis
        using 0 by simp
    next
      case (Suc j)
      then have "j < length rest" using i by simp
      with ih3 have "requested w' (\<lparr>lo = clusterId, hi = 0\<rparr>, columnId) (fPageId ?s1 + of_nat j)
              (fBuffer (rest ! j), fSize (rest ! j))"
        by blast
      then show ?thesis
        using Suc by (simp add: add.assoc)
    qed
  qed
  from s' l' req mono show ?case
    by blast
qed

lemma commit_ranges_inv:
  assumes "commit_ranges clusterId ranges (s, w, locs, sz) = (s', w', locs', sz')"
  shows "s' = s\<lparr>fPageId := fPageId s + of_nat (length (flatten ranges))\<rparr> \<and>
         locs' = locs @ locators_from (fPageId s) (map snd (flatten ranges)) \<and>
         (\<forall>i < length (flatten ranges).
            requested w' (\<lparr>lo = clusterId, hi = 0\<rparr>, fst (flatten ranges ! i))
              (fPageId s + of_nat i)
              (fBuffer (snd (flatten ranges ! i)), fSize (snd (flatten ranges ! i)))) \<and>
         (\<forall>k a v. requested w k a v \<longrightarrow> requested w' k a v)"
  using assms
proof (induction ranges arbitrary: s w locs sz)
  case Nil
  then show ?case by simp
next
  case (Cons r rest)
  obtain s1 w1 l1 z1 where
    first: "commit_range clusterId (fColumnId r) (fRange r) (s, w, locs, sz) = (s1, w1, l1, z1)"
    by (cases "commit_range clusterId (fColumnId r) (fRange r) (s, w, locs, sz)") auto
  note f = commit_range_inv [OF first]
  note f1 = f [THEN conjunct1]
  note f2 = f [THEN conjunct2, THEN conjunct1]
  note f3 = f [THEN conjunct2, THEN conjunct2, THEN conjunct1]
  note f4 = f [THEN conjunct2, THEN conjunct2, THEN conjunct2]
  have step: "commit_ranges clusterId rest (s1, w1, l1, z1) = (s', w', locs', sz')"
    using Cons.prems first by simp
  note ih = Cons.IH [OF step]
  note ih1 = ih [THEN conjunct1]
  note ih2 = ih [THEN conjunct2, THEN conjunct1]
  note ih3 = ih [THEN conjunct2, THEN conjunct2, THEN conjunct1]
  note ih4 = ih [THEN conjunct2, THEN conjunct2, THEN conjunct2]
  let ?A = "map (Pair (fColumnId r)) (fRange r)"
  have fl: "flatten (r # rest) = ?A @ flatten rest"
    by (rule length_flatten_Cons)
  have id1: "fPageId s1 = fPageId s + of_nat (length (fRange r))"
    using f1 by simp
  have s': "s' = s\<lparr>fPageId := fPageId s + of_nat (length (flatten (r # rest)))\<rparr>"
    using ih1 f1 by (simp add: fl add.assoc)
  have l': "locs' = locs @ locators_from (fPageId s) (map snd (flatten (r # rest)))"
    using ih2 f2 id1 by (simp add: fl locators_from_append comp_def)
  have mono: "\<forall>k a v. requested w k a v \<longrightarrow> requested w' k a v"
    using f4 ih4 by blast
  have req: "\<forall>i < length (flatten (r # rest)).
            requested w' (\<lparr>lo = clusterId, hi = 0\<rparr>, fst (flatten (r # rest) ! i))
              (fPageId s + of_nat i)
              (fBuffer (snd (flatten (r # rest) ! i)), fSize (snd (flatten (r # rest) ! i)))"
  proof (intro allI impI)
    fix i assume i: "i < length (flatten (r # rest))"
    show "requested w' (\<lparr>lo = clusterId, hi = 0\<rparr>, fst (flatten (r # rest) ! i))
              (fPageId s + of_nat i)
              (fBuffer (snd (flatten (r # rest) ! i)), fSize (snd (flatten (r # rest) ! i)))"
    proof (cases "i < length (fRange r)")
      case True
      with f3 have "requested w1 (\<lparr>lo = clusterId, hi = 0\<rparr>, fColumnId r) (fPageId s + of_nat i)
              (fBuffer (fRange r ! i), fSize (fRange r ! i))"
        by blast
      with ih4 have "requested w' (\<lparr>lo = clusterId, hi = 0\<rparr>, fColumnId r) (fPageId s + of_nat i)
              (fBuffer (fRange r ! i), fSize (fRange r ! i))"
        by blast
      then show ?thesis
        using True by (simp add: fl nth_append)
    next
      case False
      define j where "j = i - length (fRange r)"
      have ij: "i = length (fRange r) + j"
        using False by (simp add: j_def)
      have "j < length (flatten rest)"
        using i ij by (simp add: fl)
      with ih3 have "requested w' (\<lparr>lo = clusterId, hi = 0\<rparr>, fst (flatten rest ! j))
              (fPageId s1 + of_nat j)
              (fBuffer (snd (flatten rest ! j)), fSize (snd (flatten rest ! j)))"
        by blast
      then show ?thesis
        unfolding id1 ij by (simp add: fl nth_append add.assoc)
    qed
  qed
  from s' l' req mono show ?case
    by blast
qed

lemma foldl_count:
  "foldl (\<lambda>(c :: u32) r. ucast ((scast c :: u64) + of_nat (length (fRange r)))) c0 ranges =
     c0 + of_nat (length (flatten ranges))"
proof (induction ranges arbitrary: c0)
  case Nil
  then show ?case by simp
next
  case (Cons r rest)
  have "(ucast ((scast c0 :: u64) + of_nat (length (fRange r))) :: u32) =
          c0 + of_nat (length (fRange r))"
    by (simp only: ucast_add_down ucast_scast_id ucast_of_nat_down)
  then show ?case
    using Cons.IH by (simp add: length_flatten_Cons add.assoc)
qed

lemma nPages_of_small:
  assumes "length (flatten ranges) < 2 ^ 31"
  shows "nPages_of ranges = of_nat (length (flatten ranges))"
    and "\<not> locators_max_size < nPages_of ranges"
proof -
  show n: "nPages_of ranges = of_nat (length (flatten ranges))"
    using assms by (simp add: nPages_of_def foldl_count scast_of_nat_small)
  have "length (flatten ranges) < 2 ^ 64"
    using assms by simp
  then have "unat (of_nat (length (flatten ranges)) :: u64) = length (flatten ranges)"
    by (rule unat_of_nat64)
  then show "\<not> locators_max_size < nPages_of ranges"
    using assms by (simp add: n word_less_nat_alt locators_max_size_def)
qed

lemma CommitSealedPageVImpl_Inr:
  assumes "CommitSealedPageVImpl ranges err s = (Inr locators, s')"
  shows "locators = locators_from (fPageId s) (map snd (flatten ranges)) \<and>
         fPageId s' = fPageId s + of_nat (length (flatten ranges)) \<and>
         (\<exists>w. fDaosContainer s' = fDaosContainer s @ [WriteV w] \<and>
              (\<forall>i < length (flatten ranges).
                 requested w (\<lparr>lo = fNClusters s, hi = 0\<rparr>, fst (flatten ranges ! i))
                   (fPageId s + of_nat i)
                   (fBuffer (snd (flatten ranges ! i)), fSize (snd (flatten ranges ! i)))))"
proof -
  obtain s1 w l z where
    loop: "commit_ranges (fNClusters s) ranges (s, [], [], 0) = (s1, w, l, z)"
    by (cases "commit_ranges (fNClusters s) ranges (s, [], [], 0)") auto
  note inv = commit_ranges_inv [OF loop]
  note i1 = inv [THEN conjunct1]
  note i2 = inv [THEN conjunct2, THEN conjunct1]
  note i3 = inv [THEN conjunct2, THEN conjunct2, THEN conjunct1]
  from assms have ok: "\<not> locators_max_size < nPages_of ranges" and e0: "err = 0"
    by (auto simp: CommitSealedPageVImpl_def Let_def split: if_splits prod.splits)
  from assms ok e0 loop have r: "locators = l"
    and s': "s' = s1\<lparr>fNBytesCurrentCluster := fNBytesCurrentCluster s1 + z,
                    fDaosContainer := fDaosContainer s1 @ [WriteV w],
                    fNPageCommitted := fNPageCommitted s1 + nPages_of ranges,
                    fSzWritePayload := fSzWritePayload s1 + z\<rparr>"
    by (simp_all add: CommitSealedPageVImpl_def Let_def)
  have "fDaosContainer s' = fDaosContainer s @ [WriteV w]"
    unfolding s' using i1 by simp
  moreover have "fPageId s' = fPageId s + of_nat (length (flatten ranges))"
    unfolding s' using i1 by simp
  moreover have "locators = locators_from (fPageId s) (map snd (flatten ranges))"
    using r i2 by simp
  ultimately show ?thesis
    using i3 by blast
qed

lemma CommitSealedPageVImpl_returns:
  assumes "err = 0" and "\<not> locators_max_size < nPages_of ranges"
  shows "\<exists>locators s'. CommitSealedPageVImpl ranges err s = (Inr locators, s')"
  using assms by (simp add: CommitSealedPageVImpl_def Let_def split: prod.splits)

lemma map_fPosition_locators_from:
  "map fPosition (locators_from start ps) = map (\<lambda>i. start + of_nat i) [0 ..< length ps]"
  by (rule nth_equalityI) (simp_all add: nth_locators_from)

lemma positions_append:
  "map (\<lambda>i. start + of_nat i) [0 ..< a + b] =
     map (\<lambda>i. start + of_nat i) [0 ..< a] @ map (\<lambda>i. (start + of_nat a :: u64) + of_nat i) [0 ..< b]"
proof -
  have 1: "[0 ..< a + b] = [0 ..< a] @ [a ..< a + b]"
    by (rule upt_add_eq_append) simp
  have "map (\<lambda>i. i + a) [0 ..< b] = [a ..< b + a]"
    by (rule map_add_upt)
  then have 2: "[a ..< a + b] = map (\<lambda>i. i + a) [0 ..< b]"
    by (simp only: add.commute [of a b])
  have 3: "map (\<lambda>i. start + of_nat i) (map (\<lambda>i. i + a) [0 ..< b]) =
           map (\<lambda>i. (start + of_nat a :: u64) + of_nat i) [0 ..< b]"
    by (simp only: map_map comp_def of_nat_add add.assoc add.commute [of "of_nat _ :: u64" "of_nat a"])
  show ?thesis
    by (simp only: 1 map_append 2 3)
qed

lemma positions_from:
  "map (\<lambda>i. (of_nat n :: u64) + of_nat i) [0 ..< k] = map of_nat [n ..< n + k]"
  by (rule nth_equalityI) simp_all

text \<open>The three ways a batched commit ends, with the page counter it leaves.\<close>

lemma CommitSealedPageVImpl_cases:
  assumes "CommitSealedPageVImpl ranges err s = (r, s1)"
  shows "(locators_max_size < nPages_of ranges \<and> r = Inl LengthError \<and> s1 = s) \<or>
         (\<not> locators_max_size < nPages_of ranges \<and> err \<noteq> 0 \<and> r = Inl (WriteFailed err) \<and>
          fPageId s1 = fPageId s + of_nat (length (flatten ranges))) \<or>
         (\<not> locators_max_size < nPages_of ranges \<and> err = 0 \<and>
          r = Inr (locators_from (fPageId s) (map snd (flatten ranges))) \<and>
          fPageId s1 = fPageId s + of_nat (length (flatten ranges)))"
proof (cases "locators_max_size < nPages_of ranges")
  case True
  with assms show ?thesis
    by (simp add: CommitSealedPageVImpl_def Let_def)
next
  case False
  obtain s0 w l z where
    loop: "commit_ranges (fNClusters s) ranges (s, [], [], 0) = (s0, w, l, z)"
    by (cases "commit_ranges (fNClusters s) ranges (s, [], [], 0)") auto
  note inv = commit_ranges_inv [OF loop]
  note i1 = inv [THEN conjunct1]
  note i2 = inv [THEN conjunct2, THEN conjunct1]
  have id0: "fPageId s0 = fPageId s + of_nat (length (flatten ranges))"
    unfolding i1 by simp
  have l: "l = locators_from (fPageId s) (map snd (flatten ranges))"
    using i2 by simp
  show ?thesis
  proof (cases "err = 0")
    case True
    from assms False True loop have "r = Inr l" and "fPageId s1 = fPageId s0"
      by (auto simp: CommitSealedPageVImpl_def Let_def)
    with False True id0 l show ?thesis
      by simp
  next
    case ne: False
    from assms False ne loop have "r = Inl (WriteFailed err)" and "fPageId s1 = fPageId s0"
      by (auto simp: CommitSealedPageVImpl_def Let_def)
    with False ne id0 show ?thesis
      by simp
  qed
qed

subsection \<open>The positions of a session\<close>

lemma writer_session_positions:
  "fPageId s = of_nat n \<Longrightarrow>
   map fPosition (fst (writer_session calls s)) = map of_nat (session_positions calls n)"
proof (induction calls arbitrary: s n)
  case Nil
  then show ?case by simp
next
  case (Cons call calls)
  show ?case
  proof (cases call)
    case (CallCommitSealedPage columnId sealedPage)
    obtain loc s1 where one: "CommitSealedPageImpl columnId sealedPage s = (loc, s1)"
      by (cases "CommitSealedPageImpl columnId sealedPage s") auto
    from one have loc: "fPosition loc = fPageId s" and id1: "fPageId s1 = fPageId s + 1"
      by (auto simp: CommitSealedPageImpl_def Let_def)
    have "fPageId s1 = of_nat (Suc n)"
      unfolding id1 Cons.prems by simp
    from Cons.IH [OF this] have
      "map fPosition (fst (writer_session calls s1)) = map of_nat (session_positions calls (Suc n))" .
    moreover have "fst (writer_session (call # calls) s) = loc # fst (writer_session calls s1)"
      unfolding CallCommitSealedPage using one by (simp add: Let_def split: prod.splits)
    ultimately show ?thesis
      unfolding CallCommitSealedPage using loc Cons.prems by simp
  next
    case (CallCommitSealedPageV ranges err)
    obtain r s1 where v: "CommitSealedPageVImpl ranges err s = (r, s1)"
      by (cases "CommitSealedPageVImpl ranges err s") auto
    let ?k = "length (flatten ranges)"
    from CommitSealedPageVImpl_cases [OF v] consider
      (too_large) "locators_max_size < nPages_of ranges" "r = Inl LengthError" "s1 = s"
      | (failed) "\<not> locators_max_size < nPages_of ranges" "err \<noteq> 0" "r = Inl (WriteFailed err)"
          "fPageId s1 = fPageId s + of_nat ?k"
      | (written) "\<not> locators_max_size < nPages_of ranges" "err = 0"
          "r = Inr (locators_from (fPageId s) (map snd (flatten ranges)))"
          "fPageId s1 = fPageId s + of_nat ?k"
      by blast
    then show ?thesis
    proof cases
      case too_large
      have "fst (writer_session (call # calls) s) = fst (writer_session calls s)"
        unfolding CallCommitSealedPageV using v too_large
        by (simp add: Let_def split: prod.splits)
      moreover note Cons.IH [OF Cons.prems]
      ultimately show ?thesis
        unfolding CallCommitSealedPageV using too_large by simp
    next
      case failed
      have "fPageId s1 = of_nat (n + ?k)"
        unfolding failed(4) Cons.prems by simp
      from Cons.IH [OF this] have
        "map fPosition (fst (writer_session calls s1)) =
           map of_nat (session_positions calls (n + ?k))" .
      moreover have "fst (writer_session (call # calls) s) = fst (writer_session calls s1)"
        unfolding CallCommitSealedPageV using v failed
        by (simp add: Let_def split: prod.splits)
      ultimately show ?thesis
        unfolding CallCommitSealedPageV using failed by simp
    next
      case written
      have "fPageId s1 = of_nat (n + ?k)"
        unfolding written(4) Cons.prems by simp
      from Cons.IH [OF this] have rest:
        "map fPosition (fst (writer_session calls s1)) =
           map of_nat (session_positions calls (n + ?k))" .
      have batch: "map fPosition (locators_from (fPageId s) (map snd (flatten ranges))) =
                     map of_nat [n ..< n + ?k]"
        unfolding map_fPosition_locators_from Cons.prems using positions_from [of n ?k] by simp
      have "fst (writer_session (call # calls) s) =
              locators_from (fPageId s) (map snd (flatten ranges)) @ fst (writer_session calls s1)"
        unfolding CallCommitSealedPageV using v written
        by (simp add: Let_def split: prod.splits)
      then show ?thesis
        unfolding CallCommitSealedPageV using written rest batch by simp
    qed
  next
    case (CallCommitCluster nEntries)
    obtain b s1 where c: "CommitCluster nEntries s = (b, s1)"
      by (cases "CommitCluster nEntries s") auto
    then have "fPageId s1 = fPageId s"
      by (auto simp: CommitCluster_def CommitClusterImpl_def Let_def)
    then have "fPageId s1 = of_nat n"
      using Cons.prems by simp
    from Cons.IH [OF this] show ?thesis
      unfolding CallCommitCluster using c by simp
  qed
qed

lemma session_positions_lower: "k \<in> set (session_positions calls n) \<Longrightarrow> n \<le> k"
proof (induction calls n rule: session_positions.induct)
  case (1 n)
  then show ?case by simp
next
  case (2 columnId sealedPage calls n)
  then show ?case by (auto dest: Suc_leD)
next
  case (3 ranges err calls n)
  then show ?case by (auto split: if_splits dest: add_leD1)
next
  case (4 nEntries calls n)
  then show ?case by simp
qed

text \<open>The positions handed out never repeat and never go back.\<close>

lemma session_positions_sorted: "sorted_wrt (<) (session_positions calls n)"
proof (induction calls n rule: session_positions.induct)
  case (1 n)
  then show ?case by simp
next
  case (2 columnId sealedPage calls n)
  have "n < k" if "k \<in> set (session_positions calls (Suc n))" for k
    using session_positions_lower [OF that] by simp
  with 2 show ?case by simp
next
  case (3 ranges err calls n)
  have "i < k" if "i \<in> set [n ..< n + length (flatten ranges)]"
    and "k \<in> set (session_positions calls (n + length (flatten ranges)))" for i k
    using session_positions_lower [OF that(2)] that(1) by simp
  with 3 show ?case by (simp add: sorted_wrt_append)
next
  case (4 nEntries calls n)
  then show ?case by simp
qed

text \<open>Without a failed write the positions handed out are consecutive.\<close>

lemma session_positions_consecutive:
  "\<forall>ranges err. CallCommitSealedPageV ranges err \<in> set calls \<longrightarrow> err = 0 \<Longrightarrow>
   session_positions calls n = [n ..< n + length (session_positions calls n)]"
proof (induction calls n rule: session_positions.induct)
  case (1 n)
  then show ?case by simp
next
  case (2 columnId sealedPage calls n)
  let ?L = "length (session_positions calls (Suc n))"
  from 2 have "session_positions calls (Suc n) = [Suc n ..< Suc n + ?L]"
    by simp
  moreover have "[n ..< n + Suc ?L] = n # [Suc n ..< Suc n + ?L]"
    by (simp add: upt_rec)
  ultimately have "n # session_positions calls (Suc n) = [n ..< n + Suc ?L]"
    by simp
  then show ?case by simp
next
  case (3 ranges err calls n)
  have e: "err = 0"
    using 3(4) by simp
  have rest: "\<forall>ranges err. CallCommitSealedPageV ranges err \<in> set calls \<longrightarrow> err = 0"
    using 3(4) by simp
  show ?case
  proof (cases "locators_max_size < nPages_of ranges")
    case True
    with 3(1) rest show ?thesis by simp
  next
    case False
    let ?k = "length (flatten ranges)"
    let ?L = "length (session_positions calls (n + ?k))"
    from 3(3) False e rest have "session_positions calls (n + ?k) = [n + ?k ..< n + ?k + ?L]"
      by simp
    moreover have "[n ..< n + ?k + ?L] = [n ..< n + ?k] @ [n + ?k ..< n + ?k + ?L]"
      by (rule upt_add_eq_append) simp
    ultimately have "[n ..< n + ?k] @ session_positions calls (n + ?k) = [n ..< n + ?k + ?L]"
      by simp
    then show ?thesis
      using False e by (simp add: add.assoc)
  qed
next
  case (4 nEntries calls n)
  then show ?case by simp
qed

lemma map_unat_of_nat:
  "\<forall>k \<in> set ks. k < 2 ^ 64 \<Longrightarrow> map (\<lambda>k. unat (of_nat k :: u64)) ks = ks"
  by (induction ks) (simp_all add: unat_of_nat64)


subsection \<open>The claims on the page commits\<close>

text \<open>
  Claim C3 (page-sequence monotonicity), as the program has it. In a writer session on a
  fresh sink, over every sequence of per-page commits, batched commits and cluster
  commits and whatever the driver answers, the positions of the locators returned, in
  the order of the commits, are the numbers the calls take from the page counter, which
  starts at 0: one per page commit and one per page of a batch, where the numbers of a
  batch whose write fails are taken and not returned. So the positions are strictly
  increasing, with no repeat, and a gap of the size of the batch follows a failed write.
  When no write fails they are exactly 0, 1, 2, ... with no gap: the i-th locator
  returned has position i. The counter has 64 bits; the positions are read as numbers
  below 2^64.
\<close>

theorem page_sequence_positions:
  assumes "writer_session calls (RPageSinkDaos_new anchor) = (locators, es, s')"
  shows "map fPosition locators = map of_nat (session_positions calls 0) \<and>
         ((\<forall>k \<in> set (session_positions calls 0). k < 2 ^ 64) \<longrightarrow>
            map (\<lambda>l. unat (fPosition l)) locators = session_positions calls 0 \<and>
            sorted_wrt (<) (map (\<lambda>l. unat (fPosition l)) locators)) \<and>
         ((\<forall>ranges err. CallCommitSealedPageV ranges err \<in> set calls \<longrightarrow> err = 0) \<longrightarrow>
            (\<forall>i < length locators. fPosition (locators ! i) = of_nat i) \<and>
            (length locators \<le> 2 ^ 64 \<longrightarrow>
               map (\<lambda>l. unat (fPosition l)) locators = [0 ..< length locators]))"
proof -
  have "fPageId (RPageSinkDaos_new anchor) = of_nat 0"
    by (simp add: RPageSinkDaos_new_def)
  from writer_session_positions [OF this, of calls] assms
  have p: "map fPosition locators = map of_nat (session_positions calls 0)"
    by simp
  have len: "length locators = length (session_positions calls 0)"
    using arg_cong [OF p, of length] by simp
  have un: "map (\<lambda>l. unat (fPosition l)) locators = map (\<lambda>k. unat (of_nat k :: u64)) (session_positions calls 0)"
    using arg_cong [OF p, of "map unat"] by (simp add: comp_def)
  have A: "map (\<lambda>l. unat (fPosition l)) locators = session_positions calls 0 \<and>
           sorted_wrt (<) (map (\<lambda>l. unat (fPosition l)) locators)"
    if b: "\<forall>k \<in> set (session_positions calls 0). k < 2 ^ 64"
  proof -
    have "map (\<lambda>l. unat (fPosition l)) locators = session_positions calls 0"
      unfolding un using b by (rule map_unat_of_nat)
    then show ?thesis
      using session_positions_sorted [of calls 0] by simp
  qed
  have B: "(\<forall>i < length locators. fPosition (locators ! i) = of_nat i) \<and>
           (length locators \<le> 2 ^ 64 \<longrightarrow>
              map (\<lambda>l. unat (fPosition l)) locators = [0 ..< length locators])"
    if ok: "\<forall>ranges err. CallCommitSealedPageV ranges err \<in> set calls \<longrightarrow> err = 0"
  proof -
    have c: "session_positions calls 0 = [0 ..< length locators]"
      using session_positions_consecutive [OF ok, of 0] len by simp
    have nth: "fPosition (locators ! i) = of_nat i" if i: "i < length locators" for i
    proof -
      have "map fPosition locators ! i = map of_nat [0 ..< length locators] ! i"
        using p c by simp
      then show ?thesis
        using i by simp
    qed
    have nat: "map (\<lambda>l. unat (fPosition l)) locators = [0 ..< length locators]"
      if "length locators \<le> 2 ^ 64"
    proof -
      have "\<forall>k \<in> set (session_positions calls 0). k < 2 ^ 64"
        unfolding c using that by simp
      from A [OF this] show ?thesis
        using c by simp
    qed
    from nth nat show ?thesis
      by blast
  qed
  from p A B show ?thesis
    by blast
qed

theorem page_sequence_positions_witness:
  "(\<exists>locators es s'.
      writer_session
        [CallCommitSealedPage 1 \<lparr>fBuffer = [1], fSize = 1, fNElements = 1\<rparr>,
         CallCommitSealedPageV
           [\<lparr>fColumnId = 5, fRange = [\<lparr>fBuffer = [1], fSize = 1, fNElements = 1\<rparr>,
                                      \<lparr>fBuffer = [2, 2], fSize = 2, fNElements = 1\<rparr>]\<rparr>] 0,
         CallCommitCluster 7,
         CallCommitSealedPageV
           [\<lparr>fColumnId = 5, fRange = [\<lparr>fBuffer = [1], fSize = 1, fNElements = 1\<rparr>,
                                      \<lparr>fBuffer = [3], fSize = 1, fNElements = 1\<rparr>]\<rparr>] 3,
         CallCommitSealedPage 2 \<lparr>fBuffer = [9], fSize = 1, fNElements = 1\<rparr>]
        (RPageSinkDaos_new RDaosNTupleAnchor_default) = (locators, es, s') \<and>
      map (\<lambda>l. unat (fPosition l)) locators = [0, 1, 2, 5] \<and>
      sorted_wrt (<) (map (\<lambda>l. unat (fPosition l)) locators)) \<and>
   (\<exists>locators es s'.
      writer_session
        [CallCommitSealedPage 1 \<lparr>fBuffer = [1], fSize = 1, fNElements = 1\<rparr>,
         CallCommitSealedPageV
           [\<lparr>fColumnId = 5, fRange = [\<lparr>fBuffer = [1], fSize = 1, fNElements = 1\<rparr>,
                                      \<lparr>fBuffer = [2, 2], fSize = 2, fNElements = 1\<rparr>]\<rparr>] 0,
         CallCommitCluster 7,
         CallCommitSealedPage 2 \<lparr>fBuffer = [9], fSize = 1, fNElements = 1\<rparr>]
        (RPageSinkDaos_new RDaosNTupleAnchor_default) = (locators, es, s') \<and>
      length locators = 4 \<and> fPosition (locators ! 3) = 3 \<and>
      map (\<lambda>l. unat (fPosition l)) locators = [0 ..< 4])"
proof -
  let ?p = "\<lparr>fBuffer = [1], fSize = 1, fNElements = 1\<rparr> :: RSealedPage"
  let ?b = "[\<lparr>fColumnId = 5, fRange = [?p, \<lparr>fBuffer = [2, 2], fSize = 2, fNElements = 1\<rparr>]\<rparr>]"
  let ?f = "[\<lparr>fColumnId = 5, fRange = [?p, \<lparr>fBuffer = [3], fSize = 1, fNElements = 1\<rparr>]\<rparr>]"
  let ?q = "\<lparr>fBuffer = [9], fSize = 1, fNElements = 1\<rparr> :: RSealedPage"
  let ?A = "[CallCommitSealedPage 1 ?p, CallCommitSealedPageV ?b 0, CallCommitCluster 7,
             CallCommitSealedPageV ?f 3, CallCommitSealedPage 2 ?q]"
  let ?B = "[CallCommitSealedPage 1 ?p, CallCommitSealedPageV ?b 0, CallCommitCluster 7,
             CallCommitSealedPage 2 ?q]"
  have nb: "\<not> locators_max_size < nPages_of ?b"
    by (simp add: nPages_of_def locators_max_size_def)
  have nf: "\<not> locators_max_size < nPages_of ?f"
    by (simp add: nPages_of_def locators_max_size_def)
  have pA: "session_positions ?A 0 = [0, 1, 2, 5]"
    using nb nf by (simp add: flatten_def upt_rec)
  have pB: "session_positions ?B 0 = [0, 1, 2, 3]"
    using nb by (simp add: flatten_def upt_rec)
  obtain locators es s' where
    wsA: "writer_session ?A (RPageSinkDaos_new RDaosNTupleAnchor_default) = (locators, es, s')"
    by (cases "writer_session ?A (RPageSinkDaos_new RDaosNTupleAnchor_default)") auto
  have hA: "\<forall>k \<in> set (session_positions ?A 0). k < 2 ^ 64"
    unfolding pA by simp
  from page_sequence_positions [OF wsA] hA have
    "map (\<lambda>l. unat (fPosition l)) locators = session_positions ?A 0 \<and>
     sorted_wrt (<) (map (\<lambda>l. unat (fPosition l)) locators)"
    by blast
  then have rA: "map (\<lambda>l. unat (fPosition l)) locators = [0, 1, 2, 5] \<and>
     sorted_wrt (<) (map (\<lambda>l. unat (fPosition l)) locators)"
    unfolding pA by simp
  obtain locators' es' s'' where
    wsB: "writer_session ?B (RPageSinkDaos_new RDaosNTupleAnchor_default) = (locators', es', s'')"
    by (cases "writer_session ?B (RPageSinkDaos_new RDaosNTupleAnchor_default)") auto
  have hB: "\<forall>ranges err. CallCommitSealedPageV ranges err \<in> set ?B \<longrightarrow> err = 0"
    by simp
  note tB = page_sequence_positions [OF wsB]
  from tB have "map fPosition locators' = map of_nat (session_positions ?B 0)"
    by blast
  from arg_cong [OF this, of length] have lB: "length locators' = 4"
    unfolding pB by simp
  from tB hB have nB: "\<forall>i < length locators'. fPosition (locators' ! i) = of_nat i"
    by blast
  then have p3: "fPosition (locators' ! 3) = 3"
    using lB by simp
  from tB hB lB have "map (\<lambda>l. unat (fPosition l)) locators' = [0 ..< length locators']"
    by simp
  then have mB: "map (\<lambda>l. unat (fPosition l)) locators' = [0 ..< 4]"
    by (simp only: lB)
  have 1: "\<exists>locators es s'.
      writer_session ?A (RPageSinkDaos_new RDaosNTupleAnchor_default) = (locators, es, s') \<and>
      map (\<lambda>l. unat (fPosition l)) locators = [0, 1, 2, 5] \<and>
      sorted_wrt (<) (map (\<lambda>l. unat (fPosition l)) locators)"
  proof (intro exI conjI)
    show "writer_session ?A (RPageSinkDaos_new RDaosNTupleAnchor_default) = (locators, es, s')"
      by (rule wsA)
    show "map (\<lambda>l. unat (fPosition l)) locators = [0, 1, 2, 5]"
      using rA by (rule conjunct1)
    show "sorted_wrt (<) (map (\<lambda>l. unat (fPosition l)) locators)"
      using rA by (rule conjunct2)
  qed
  from wsB lB p3 mB have 2: "\<exists>locators es s'.
      writer_session ?B (RPageSinkDaos_new RDaosNTupleAnchor_default) = (locators, es, s') \<and>
      length locators = 4 \<and> fPosition (locators ! 3) = 3 \<and>
      map (\<lambda>l. unat (fPosition l)) locators = [0 ..< 4]"
    by blast
  from 1 2 show ?thesis
    by (rule conjI)
qed

text \<open>
  A session whose positions are not 0, 1, 2, ...: a page commit, a batched commit of two
  pages whose write fails with the driver's code 3, and a page commit. The two locators
  returned have the positions 0 and 3.
\<close>

theorem page_sequence_counterexample:
  "map fPosition
     (fst (writer_session
        [CallCommitSealedPage 1 \<lparr>fBuffer = [1], fSize = 1, fNElements = 1\<rparr>,
         CallCommitSealedPageV
           [\<lparr>fColumnId = 5, fRange = [\<lparr>fBuffer = [1], fSize = 1, fNElements = 1\<rparr>,
                                      \<lparr>fBuffer = [3], fSize = 1, fNElements = 1\<rparr>]\<rparr>] 3,
         CallCommitSealedPage 2 \<lparr>fBuffer = [9], fSize = 1, fNElements = 1\<rparr>]
        (RPageSinkDaos_new RDaosNTupleAnchor_default))) = [0, 3]"
  by (simp add: RPageSinkDaos_new_def CommitSealedPageImpl_def CommitSealedPageVImpl_def
        nPages_of_def locators_max_size_def kDefaultDaosMapping_def Let_def)

text \<open>
  The page count is accumulated in an \<open>int\<close>, as the seed of \<open>std::accumulate\<close> is
  the literal \<open>0\<close>: a batch of \<open>2 ^ 31\<close> pages counts as a negative number, the
  conversion to \<open>size_t\<close> makes it larger than \<open>max_size\<close>, and \<open>reserve\<close>
  throws before any request is built.
\<close>

lemma CommitSealedPageVImpl_length_error:
  assumes "length ps = 2 ^ 31"
  shows "CommitSealedPageVImpl [\<lparr>fColumnId = c, fRange = ps\<rparr>] err s = (Inl LengthError, s)"
proof -
  have "length (flatten [\<lparr>fColumnId = c, fRange = ps\<rparr>]) = 2 ^ 31"
    using assms by (simp add: flatten_def)
  then have "nPages_of [\<lparr>fColumnId = c, fRange = ps\<rparr>] = scast (of_nat (2 ^ 31) :: u32)"
    by (simp only: nPages_of_def foldl_count add_0)
  also have "\<dots> = (0xFFFFFFFF80000000 :: u64)"
    by simp
  finally have "nPages_of [\<lparr>fColumnId = c, fRange = ps\<rparr>] = 0xFFFFFFFF80000000" .
  then show ?thesis
    by (simp add: CommitSealedPageVImpl_def locators_max_size_def)
qed

text \<open>
  Claim C4 (batch order preservation). Whenever \<open>CommitSealedPageVImpl\<close> returns a vector,
  the vector has one locator per page of the flattened iteration over the ranges and,
  within each range, over its pages in order; its i-th element holds the sequence number
  assigned to the i-th page, which is the page id of the sink before the call plus i, and
  the sealed size of that page; and the write request handed to the driver asks for the
  buffer of that page under the object of the current cluster, the column of its range
  and that sequence number as attribute key. A vector is returned whenever the driver
  reports no error and the batch has fewer than 2^31 pages.
\<close>

theorem CommitSealedPageVImpl_order:
  "(\<forall>locators s'. CommitSealedPageVImpl ranges err s = (Inr locators, s') \<longrightarrow>
      length locators = length (flatten ranges) \<and>
      (\<forall>i < length (flatten ranges).
         locators ! i = \<lparr>fPosition = fPageId s + of_nat i,
                         fBytesOnStorage = fSize (snd (flatten ranges ! i))\<rparr> \<and>
         (\<exists>w. last (fDaosContainer s') = WriteV w \<and>
              requested w (\<lparr>lo = fNClusters s, hi = 0\<rparr>, fst (flatten ranges ! i))
                (fPosition (locators ! i))
                (fBuffer (snd (flatten ranges ! i)), fSize (snd (flatten ranges ! i)))))) \<and>
   (err = 0 \<and> length (flatten ranges) < 2 ^ 31 \<longrightarrow>
      (\<exists>locators s'. CommitSealedPageVImpl ranges err s = (Inr locators, s')))"
proof -
  have A: "length locators = length (flatten ranges) \<and>
      (\<forall>i < length (flatten ranges).
         locators ! i = \<lparr>fPosition = fPageId s + of_nat i,
                         fBytesOnStorage = fSize (snd (flatten ranges ! i))\<rparr> \<and>
         (\<exists>w. last (fDaosContainer s') = WriteV w \<and>
              requested w (\<lparr>lo = fNClusters s, hi = 0\<rparr>, fst (flatten ranges ! i))
                (fPosition (locators ! i))
                (fBuffer (snd (flatten ranges ! i)), fSize (snd (flatten ranges ! i)))))"
    if ret: "CommitSealedPageVImpl ranges err s = (Inr locators, s')" for locators s'
  proof -
    note r = CommitSealedPageVImpl_Inr [OF ret]
    note r1 = r [THEN conjunct1]
    from r obtain w where
      c: "fDaosContainer s' = fDaosContainer s @ [WriteV w]" and
      q: "\<forall>i < length (flatten ranges).
            requested w (\<lparr>lo = fNClusters s, hi = 0\<rparr>, fst (flatten ranges ! i))
              (fPageId s + of_nat i)
              (fBuffer (snd (flatten ranges ! i)), fSize (snd (flatten ranges ! i)))"
      by blast
    have len: "length locators = length (flatten ranges)"
      unfolding r1 by simp
    have nth: "locators ! i = \<lparr>fPosition = fPageId s + of_nat i,
                         fBytesOnStorage = fSize (snd (flatten ranges ! i))\<rparr>"
      if "i < length (flatten ranges)" for i
      unfolding r1 using that by (simp add: nth_locators_from)
    have lst: "last (fDaosContainer s') = WriteV w"
      unfolding c by simp
    show ?thesis
    proof (intro conjI allI impI)
      show "length locators = length (flatten ranges)" by (rule len)
    next
      fix i assume i: "i < length (flatten ranges)"
      show "locators ! i = \<lparr>fPosition = fPageId s + of_nat i,
                         fBytesOnStorage = fSize (snd (flatten ranges ! i))\<rparr>"
        using i by (rule nth)
      have "requested w (\<lparr>lo = fNClusters s, hi = 0\<rparr>, fst (flatten ranges ! i))
                (fPosition (locators ! i))
                (fBuffer (snd (flatten ranges ! i)), fSize (snd (flatten ranges ! i)))"
        using q i nth [OF i] by simp
      with lst show "\<exists>w. last (fDaosContainer s') = WriteV w \<and>
              requested w (\<lparr>lo = fNClusters s, hi = 0\<rparr>, fst (flatten ranges ! i))
                (fPosition (locators ! i))
                (fBuffer (snd (flatten ranges ! i)), fSize (snd (flatten ranges ! i)))"
        by blast
    qed
  qed
  have B: "\<exists>locators s'. CommitSealedPageVImpl ranges err s = (Inr locators, s')"
    if "err = 0 \<and> length (flatten ranges) < 2 ^ 31"
    using that nPages_of_small(2) [of ranges] by (intro CommitSealedPageVImpl_returns) simp_all
  from A B show ?thesis
    by blast
qed

theorem CommitSealedPageVImpl_order_witness:
  "(0 :: int) = 0 \<and>
   length (flatten [\<lparr>fColumnId = 5, fRange = [\<lparr>fBuffer = [1], fSize = 1, fNElements = 1\<rparr>,
                                               \<lparr>fBuffer = [2, 2], fSize = 2, fNElements = 1\<rparr>]\<rparr>,
                    \<lparr>fColumnId = 6, fRange = [\<lparr>fBuffer = [3, 3, 3], fSize = 3, fNElements = 1\<rparr>]\<rparr>])
     < 2 ^ 31 \<and>
   (\<exists>locators s'.
      CommitSealedPageVImpl
        [\<lparr>fColumnId = 5, fRange = [\<lparr>fBuffer = [1], fSize = 1, fNElements = 1\<rparr>,
                                   \<lparr>fBuffer = [2, 2], fSize = 2, fNElements = 1\<rparr>]\<rparr>,
         \<lparr>fColumnId = 6, fRange = [\<lparr>fBuffer = [3, 3, 3], fSize = 3, fNElements = 1\<rparr>]\<rparr>]
        0 (RPageSinkDaos_new RDaosNTupleAnchor_default) = (Inr locators, s') \<and>
      length locators = 3 \<and>
      locators ! 2 = \<lparr>fPosition = 2, fBytesOnStorage = 3\<rparr>)"
proof -
  let ?R = "[\<lparr>fColumnId = 5, fRange = [\<lparr>fBuffer = [1], fSize = 1, fNElements = 1\<rparr>,
                                       \<lparr>fBuffer = [2, 2], fSize = 2, fNElements = 1\<rparr>]\<rparr>,
             \<lparr>fColumnId = 6, fRange = [\<lparr>fBuffer = [3, 3, 3], fSize = 3, fNElements = 1\<rparr>]\<rparr>]"
  let ?s = "RPageSinkDaos_new RDaosNTupleAnchor_default"
  have fl: "flatten ?R = [(5, \<lparr>fBuffer = [1], fSize = 1, fNElements = 1\<rparr>),
                          (5, \<lparr>fBuffer = [2, 2], fSize = 2, fNElements = 1\<rparr>),
                          (6, \<lparr>fBuffer = [3, 3, 3], fSize = 3, fNElements = 1\<rparr>)]"
    by (simp add: flatten_def)
  have small: "(0 :: int) = 0 \<and> length (flatten ?R) < 2 ^ 31"
    unfolding fl by simp
  note t = CommitSealedPageVImpl_order [of ?R 0 ?s]
  from t small obtain locators s' where
    ret: "CommitSealedPageVImpl ?R 0 ?s = (Inr locators, s')"
    by blast
  from t ret have len: "length locators = length (flatten ?R)"
    and nth: "\<forall>i < length (flatten ?R).
         locators ! i = \<lparr>fPosition = fPageId ?s + of_nat i,
                         fBytesOnStorage = fSize (snd (flatten ?R ! i))\<rparr>"
    by blast+
  from len have l3: "length locators = 3"
    unfolding fl by simp
  from nth have "locators ! 2 = \<lparr>fPosition = fPageId ?s + of_nat 2,
                         fBytesOnStorage = fSize (snd (flatten ?R ! 2))\<rparr>"
    unfolding fl by simp
  then have n2: "locators ! 2 = \<lparr>fPosition = 2, fBytesOnStorage = 3\<rparr>"
    unfolding fl by (simp add: RPageSinkDaos_new_def)
  from small ret l3 n2 show ?thesis
    by blast
qed

section \<open>The end of the dataset and the bootstrap of the reader\<close>

subsection \<open>Writing the anchor\<close>

lemma ucast_up_down: "(ucast (ucast (x :: u32) :: u64) :: u32) = x"
  by (rule bit_word_eqI) (simp add: bit_simps)

lemma unat_GetSize:
  "24 + unat (m :: u64) < 2 ^ 32 \<Longrightarrow> unat (24 + ucast m :: u32) = 24 + unat m"
  by (simp add: unat_word_ariths unsigned_ucast_eq take_bit_eq_mod)

lemma WriteNTupleAnchor_Inr:
  assumes max: "length (fObjClass (fNTupleAnchor s)) \<le> unat kOCNameMaxLength"
    and small: "24 + unat kOCNameMaxLength < 2 ^ 32"
  shows "WriteNTupleAnchor kOCNameMaxLength s =
         Inr (s\<lparr>fDaosContainer := fDaosContainer s @
                [WriteSingleAkey
                   (spec_anchor_record (fNTupleAnchor s) @
                    replicate (unat kOCNameMaxLength - length (fObjClass (fNTupleAnchor s))) 0)
                   (ucast (24 + ucast kOCNameMaxLength :: u32))
                   kOidMetadata kDistributionKeyDefault kAttributeKeyAnchor
                   (Some kCidMetadata)]\<rparr>)"
proof -
  let ?n = "24 + ucast kOCNameMaxLength :: u32"
  let ?a = "fNTupleAnchor s"
  have un: "unat ?n = 24 + unat kOCNameMaxLength"
    using small by (rule unat_GetSize)
  have fit: "24 + length (fObjClass ?a) \<le> length (make_unique (unat ?n))"
    using max by (simp add: make_unique_def un)
  have dr: "drop (24 + length (fObjClass ?a)) (make_unique (unat ?n)) =
            replicate (unat kOCNameMaxLength - length (fObjClass ?a)) 0"
    using max by (simp add: make_unique_def un)
  have ser: "Serialize ?a (Some (make_unique (unat ?n))) =
             Inr (of_nat (length (fObjClass ?a)) + 24,
                  Some (spec_anchor_record ?a @
                        replicate (unat kOCNameMaxLength - length (fObjClass ?a)) 0))"
    using Serialize_Some [OF fit] by (simp only: dr)
  show ?thesis
    by (simp add: WriteNTupleAnchor_def GetSize_eq ser)
qed

lemma WriteNTupleAnchor_trace:
  assumes "WriteNTupleAnchor kOCNameMaxLength s = Inr s'"
  shows "\<exists>buffer. s' = s\<lparr>fDaosContainer := fDaosContainer s @
                [WriteSingleAkey buffer (ucast (24 + ucast kOCNameMaxLength :: u32))
                   kOidMetadata kDistributionKeyDefault kAttributeKeyAnchor
                   (Some kCidMetadata)]\<rparr> \<and>
           length buffer = unat (24 + ucast kOCNameMaxLength :: u32)"
proof -
  let ?n = "24 + ucast kOCNameMaxLength :: u32"
  let ?a = "fNTupleAnchor s"
  let ?mem = "make_unique (unat ?n)"
  show ?thesis
  proof (cases "24 + length (fObjClass ?a) \<le> length ?mem")
    case True
    from Serialize_Some [OF True] assms show ?thesis
      using True by (auto simp: WriteNTupleAnchor_def GetSize_eq make_unique_def)
  next
    case False
    then have "Serialize ?a (Some ?mem) = Inl OutOfBounds"
      by (intro Serialize_short) simp
    with assms show ?thesis
      by (simp add: WriteNTupleAnchor_def GetSize_eq)
  qed
qed

text \<open>
  Claim C2 (the writes of \<open>CommitDatasetImpl\<close>). For a sink whose class name fits the
  driver's maximum, \<open>CommitDatasetImpl\<close> returns and adds exactly two calls to those made
  on the container, in this order: the write of the compressed footer, with the buffer
  and the size the compressor returned, at the metadata object under the default
  distribution key and the footer attribute key, and then the write of the anchor at the
  same object under the anchor attribute key. The anchor is the last write. Between the
  two the anchor of the sink gets \<open>fLenFooter\<close>, the length passed in, and
  \<open>fNBytesFooter\<close>, the compressed size; the buffer written for the anchor already
  carries both, as deserializing it shows.
\<close>

theorem CommitDatasetImpl_writes:
  assumes max: "length (fObjClass (fNTupleAnchor s)) \<le> unat kOCNameMaxLength"
    and small: "24 + unat kOCNameMaxLength < 2 ^ 32"
    and zip: "Zip serializedFooter len = (bufFooterZip, szFooterZip)"
  shows "\<exists>s' buffer ntplSize.
           CommitDatasetImpl Zip kOCNameMaxLength serializedFooter len s = Inr s' \<and>
           GetSize kOCNameMaxLength = Inr ntplSize \<and>
           fDaosContainer s' = fDaosContainer s @
             [WriteSingleAkey bufFooterZip szFooterZip kOidMetadata kDistributionKeyDefault
                kAttributeKeyFooter (Some kCidMetadata),
              WriteSingleAkey buffer (ucast ntplSize) kOidMetadata kDistributionKeyDefault
                kAttributeKeyAnchor (Some kCidMetadata)] \<and>
           fNTupleAnchor s' =
             (fNTupleAnchor s)\<lparr>fLenFooter := len, fNBytesFooter := ucast szFooterZip\<rparr> \<and>
           length buffer = unat ntplSize \<and>
           (\<forall>a0. snd (Deserialize a0 buffer ntplSize) = fNTupleAnchor s')"
proof -
  let ?n = "24 + ucast kOCNameMaxLength :: u32"
  let ?a = "(fNTupleAnchor s)\<lparr>fLenFooter := len, fNBytesFooter := ucast szFooterZip\<rparr>"
  let ?footer = "WriteSingleAkey bufFooterZip szFooterZip kOidMetadata kDistributionKeyDefault
                   kAttributeKeyFooter (Some kCidMetadata)"
  let ?s1 = "WriteNTupleFooter bufFooterZip szFooterZip (ucast len) s"
  let ?buffer = "spec_anchor_record ?a @ replicate (unat kOCNameMaxLength - length (fObjClass ?a)) 0"
  let ?anchor = "WriteSingleAkey ?buffer (ucast ?n) kOidMetadata kDistributionKeyDefault
                   kAttributeKeyAnchor (Some kCidMetadata)"
  have un: "unat ?n = 24 + unat kOCNameMaxLength"
    using small by (rule unat_GetSize)
  have a1: "fNTupleAnchor ?s1 = ?a"
    by (simp add: WriteNTupleFooter_def ucast_up_down)
  have c1: "fDaosContainer ?s1 = fDaosContainer s @ [?footer]"
    by (simp add: WriteNTupleFooter_def)
  have max1: "length (fObjClass (fNTupleAnchor ?s1)) \<le> unat kOCNameMaxLength"
    using max by (simp add: a1)
  note w = WriteNTupleAnchor_Inr [OF max1 small]
  let ?s' = "?s1\<lparr>fDaosContainer := fDaosContainer ?s1 @ [?anchor]\<rparr>"
  have run: "CommitDatasetImpl Zip kOCNameMaxLength serializedFooter len s = Inr ?s'"
    using w by (simp add: CommitDatasetImpl_def zip a1)
  have gs: "GetSize kOCNameMaxLength = Inr ?n"
    by (simp add: GetSize_eq)
  have tr: "fDaosContainer ?s' = fDaosContainer s @ [?footer, ?anchor]"
    by (simp add: c1)
  have an: "fNTupleAnchor ?s' = ?a"
    by (simp add: a1)
  have lb: "length ?buffer = unat ?n"
    using max by (simp add: un)
  have small_a: "length (fObjClass ?a) < 2 ^ 32"
    using max small by simp
  have fit_a: "24 + length (fObjClass ?a) \<le> unat ?n"
    using max by (simp add: un)
  have de: "snd (Deserialize a0 ?buffer ?n) = fNTupleAnchor ?s'" for a0
  proof -
    have "Deserialize a0 ?buffer ?n = (Inr (of_nat (length (fObjClass ?a)) + 24), ?a)"
      using small_a fit_a by (rule Deserialize_record)
    then show ?thesis
      by (simp only: an snd_conv)
  qed
  from run gs tr an lb de show ?thesis
    by blast
qed

theorem CommitDatasetImpl_writes_witness:
  "length (fObjClass (fNTupleAnchor (RPageSinkDaos_new (RDaosNTupleAnchor_default\<lparr>fObjClass := ''SX''\<rparr>))))
     \<le> unat (64 :: u64) \<and>
   24 + unat (64 :: u64) < 2 ^ 32 \<and>
   (\<lambda>b n. (take 2 b, 2)) [1, 2, 3, 4 :: byte] (4 :: u32) = ([1, 2], 2 :: u64) \<and>
   (\<exists>s' buffer.
      CommitDatasetImpl (\<lambda>b n. (take 2 b, 2)) 64 [1, 2, 3, 4] 4
        (RPageSinkDaos_new (RDaosNTupleAnchor_default\<lparr>fObjClass := ''SX''\<rparr>)) = Inr s' \<and>
      fDaosContainer s' =
        [WriteSingleAkey [1, 2] 2 kOidMetadata kDistributionKeyDefault kAttributeKeyFooter
           (Some kCidMetadata),
         WriteSingleAkey buffer 88 kOidMetadata kDistributionKeyDefault kAttributeKeyAnchor
           (Some kCidMetadata)] \<and>
      fLenFooter (fNTupleAnchor s') = 4 \<and> fNBytesFooter (fNTupleAnchor s') = 2 \<and>
      length buffer = 88)"
proof -
  let ?s = "RPageSinkDaos_new (RDaosNTupleAnchor_default\<lparr>fObjClass := ''SX''\<rparr>)"
  let ?Zip = "\<lambda>(b :: buffer) (n :: u32). (take 2 b, 2 :: u64)"
  have max: "length (fObjClass (fNTupleAnchor ?s)) \<le> unat (64 :: u64)"
    by (simp add: RPageSinkDaos_new_def RDaosNTupleAnchor_default_def)
  have small: "24 + unat (64 :: u64) < 2 ^ 32"
    by simp
  have zip: "?Zip [1, 2, 3, 4] 4 = ([1, 2], 2)"
    by simp
  from CommitDatasetImpl_writes [of ?s 64 ?Zip, OF max small zip]
  obtain s' buffer ntplSize where
    run: "CommitDatasetImpl ?Zip 64 [1, 2, 3, 4] 4 ?s = Inr s'" and
    gs: "GetSize 64 = Inr ntplSize" and
    tr: "fDaosContainer s' = fDaosContainer ?s @
             [WriteSingleAkey [1, 2] 2 kOidMetadata kDistributionKeyDefault
                kAttributeKeyFooter (Some kCidMetadata),
              WriteSingleAkey buffer (ucast ntplSize) kOidMetadata kDistributionKeyDefault
                kAttributeKeyAnchor (Some kCidMetadata)]" and
    an: "fNTupleAnchor s' = (fNTupleAnchor ?s)\<lparr>fLenFooter := 4, fNBytesFooter := ucast (2 :: u64)\<rparr>" and
    lb: "length buffer = unat ntplSize"
    by blast
  from gs have n: "ntplSize = 88"
    by (simp add: GetSize_eq)
  from tr have tr': "fDaosContainer s' =
        [WriteSingleAkey [1, 2] 2 kOidMetadata kDistributionKeyDefault kAttributeKeyFooter
           (Some kCidMetadata),
         WriteSingleAkey buffer 88 kOidMetadata kDistributionKeyDefault kAttributeKeyAnchor
           (Some kCidMetadata)]"
    by (simp add: n RPageSinkDaos_new_def)
  from an have f: "fLenFooter (fNTupleAnchor s') = 4 \<and> fNBytesFooter (fNTupleAnchor s') = 2"
    by simp
  from lb have l: "length buffer = 88"
    by (simp add: n)
  from max small zip run tr' f l show ?thesis
    by blast
qed

subsection \<open>Reading the anchor\<close>

text \<open>The calls of the loop over the cluster groups: one read per page list.\<close>

lemma attach_page_lists_trace:
  "attach_page_lists env cgs (d, c) = (d', c') \<Longrightarrow>
   c' = c @ map (\<lambda>cg. ReadSingleAkey (fBytesOnStorage (fPageListLocator cg)) kOidPageList
                         kDistributionKeyDefault (fPosition (fPageListLocator cg))
                         (Some kCidMetadata)) cgs"
proof (induction cgs arbitrary: d c)
  case Nil
  then show ?case by simp
next
  case (Cons cg rest)
  from Cons.prems obtain d1 where
    "attach_page_lists env rest
       (d1, c @ [ReadSingleAkey (fBytesOnStorage (fPageListLocator cg)) kOidPageList
                   kDistributionKeyDefault (fPosition (fPageListLocator cg))
                   (Some kCidMetadata)]) = (d', c')"
    by (simp add: Let_def)
  from Cons.IH [OF this] show ?case
    by simp
qed

lemma AttachImpl_Inl:
  assumes "Deserialize RDaosNTupleAnchor_default
             (read_into (stored env kOidMetadata kDistributionKeyDefault kAttributeKeyAnchor)
                (make_unique (unat (24 + ucast kOCNameMaxLength :: u32)))
                (ucast (24 + ucast kOCNameMaxLength :: u32)))
             (24 + ucast kOCNameMaxLength) = (Inl e, ntpl)"
  shows "AttachImpl env kOCNameMaxLength c =
         (Inl e, c @ [ReadSingleAkey (ucast (24 + ucast kOCNameMaxLength :: u32)) kOidMetadata
                        kDistributionKeyDefault kAttributeKeyAnchor (Some kCidMetadata)])"
  using assms by (simp add: AttachImpl_def GetSize_eq Let_def)

lemma AttachImpl_unknown:
  assumes "Deserialize RDaosNTupleAnchor_default
             (read_into (stored env kOidMetadata kDistributionKeyDefault kAttributeKeyAnchor)
                (make_unique (unat (24 + ucast kOCNameMaxLength :: u32)))
                (ucast (24 + ucast kOCNameMaxLength :: u32)))
             (24 + ucast kOCNameMaxLength) = (Inr n, ntpl)"
    and "IsUnknown (ObjClassId env (fObjClass ntpl))"
  shows "AttachImpl env kOCNameMaxLength c =
         (Inl (UnknownObjectClass (fObjClass ntpl)),
          c @ [ReadSingleAkey (ucast (24 + ucast kOCNameMaxLength :: u32)) kOidMetadata
                 kDistributionKeyDefault kAttributeKeyAnchor (Some kCidMetadata)])"
  using assms by (simp add: AttachImpl_def GetSize_eq Let_def)

lemma AttachImpl_known:
  assumes de: "Deserialize RDaosNTupleAnchor_default
             (read_into (stored env kOidMetadata kDistributionKeyDefault kAttributeKeyAnchor)
                (make_unique (unat (24 + ucast kOCNameMaxLength :: u32)))
                (ucast (24 + ucast kOCNameMaxLength :: u32)))
             (24 + ucast kOCNameMaxLength) = (Inr n, ntpl)"
    and known: "\<not> IsUnknown (ObjClassId env (fObjClass ntpl))"
  shows "\<exists>d (cgs :: RClusterGroupDescriptor list). AttachImpl env kOCNameMaxLength c =
         (Inr d,
          c @ [ReadSingleAkey (ucast (24 + ucast kOCNameMaxLength :: u32)) kOidMetadata
                 kDistributionKeyDefault kAttributeKeyAnchor (Some kCidMetadata),
               SetDefaultObjectClass (ObjClassId env (fObjClass ntpl)),
               ReadSingleAkey (ucast (fNBytesHeader ntpl)) kOidMetadata
                 kDistributionKeyDefault kAttributeKeyHeader (Some kCidMetadata),
               ReadSingleAkey (ucast (fNBytesFooter ntpl)) kOidMetadata
                 kDistributionKeyDefault kAttributeKeyFooter (Some kCidMetadata)] @
              map (\<lambda>cg. ReadSingleAkey (fBytesOnStorage (fPageListLocator cg)) kOidPageList
                         kDistributionKeyDefault (fPosition (fPageListLocator cg))
                         (Some kCidMetadata)) cgs)"
proof -
  let ?c4 = "c @ [ReadSingleAkey (ucast (24 + ucast kOCNameMaxLength :: u32)) kOidMetadata
                 kDistributionKeyDefault kAttributeKeyAnchor (Some kCidMetadata),
               SetDefaultObjectClass (ObjClassId env (fObjClass ntpl)),
               ReadSingleAkey (ucast (fNBytesHeader ntpl)) kOidMetadata
                 kDistributionKeyDefault kAttributeKeyHeader (Some kCidMetadata),
               ReadSingleAkey (ucast (fNBytesFooter ntpl)) kOidMetadata
                 kDistributionKeyDefault kAttributeKeyFooter (Some kCidMetadata)]"
  define descBuilder2 where "descBuilder2 =
     DeserializeHeaderV1 env
       (Unzip env
          (read_into (stored env kOidMetadata kDistributionKeyDefault kAttributeKeyHeader)
             (make_unique (unat (fNBytesHeader ntpl))) (ucast (fNBytesHeader ntpl)))
          (ucast (fNBytesHeader ntpl)) (ucast (fLenHeader ntpl)))
       (fLenHeader ntpl)
       (SetOnDiskHeaderSize env (fNBytesHeader ntpl) (RNTupleDescriptorBuilder env))"
  define ntplDesc where "ntplDesc =
     MoveDescriptor env
       (DeserializeFooterV1 env
          (Unzip env
             (read_into (stored env kOidMetadata kDistributionKeyDefault kAttributeKeyFooter)
                (make_unique (unat (fNBytesFooter ntpl))) (ucast (fNBytesFooter ntpl)))
             (ucast (fNBytesFooter ntpl)) (ucast (fLenFooter ntpl)))
          (fLenFooter ntpl)
          (AddToOnDiskFooterSize env (fNBytesFooter ntpl) descBuilder2))"
  obtain d c5 where loop:
    "attach_page_lists env (GetClusterGroupIterable env ntplDesc) (ntplDesc, ?c4) = (d, c5)"
    by (cases "attach_page_lists env (GetClusterGroupIterable env ntplDesc) (ntplDesc, ?c4)") auto
  have r: "AttachImpl env kOCNameMaxLength c = (Inr d, c5)"
    using de known loop
    by (simp add: AttachImpl_def GetSize_eq Let_def ntplDesc_def descBuilder2_def)
  note t = attach_page_lists_trace [OF loop]
  have "AttachImpl env kOCNameMaxLength c =
          (Inr d, ?c4 @ map (\<lambda>cg. ReadSingleAkey (fBytesOnStorage (fPageListLocator cg)) kOidPageList
                         kDistributionKeyDefault (fPosition (fPageListLocator cg))
                         (Some kCidMetadata)) (GetClusterGroupIterable env ntplDesc))"
    unfolding r t by (rule refl)
  then show ?thesis
    unfolding append_assoc by blast
qed

lemma AttachImpl_first_call:
  assumes "AttachImpl env kOCNameMaxLength c = (r, c')"
  shows "\<exists>rest. c' = c @ ReadSingleAkey (ucast (24 + ucast kOCNameMaxLength :: u32)) kOidMetadata
                        kDistributionKeyDefault kAttributeKeyAnchor (Some kCidMetadata) # rest"
proof -
  let ?n = "24 + ucast kOCNameMaxLength :: u32"
  let ?buf = "read_into (stored env kOidMetadata kDistributionKeyDefault kAttributeKeyAnchor)
                (make_unique (unat ?n)) (ucast ?n)"
  obtain res ntpl where de: "Deserialize RDaosNTupleAnchor_default ?buf ?n = (res, ntpl)"
    by (cases "Deserialize RDaosNTupleAnchor_default ?buf ?n") auto
  show ?thesis
  proof (cases res)
    case (Inl e)
    with de AttachImpl_Inl [of env kOCNameMaxLength e ntpl c] assms show ?thesis
      by simp
  next
    case (Inr n)
    show ?thesis
    proof (cases "IsUnknown (ObjClassId env (fObjClass ntpl))")
      case True
      with de Inr AttachImpl_unknown [of env kOCNameMaxLength n ntpl c] assms show ?thesis
        by simp
    next
      case False
      with de Inr AttachImpl_known [of env kOCNameMaxLength n ntpl c] assms show ?thesis
        by auto
    qed
  qed
qed

lemma Deserialize_zeros:
  "Deserialize RDaosNTupleAnchor_default (replicate 88 0) 88 = (Inr 24, RDaosNTupleAnchor_default)"
  by (simp add: Deserialize_def DeserializeString_def DeserializeUInt32_def peek_def un_le32_def
        RDaosNTupleAnchor_default_def)

text \<open>
  Claim C10 (unknown object class during attach). When the anchor read by \<open>AttachImpl\<close>
  deserializes and the driver does not know the class name it holds, \<open>AttachImpl\<close> fails
  with the unknown-object-class error for that name, and the only call made on the
  container is the read of the anchor: the default object class is not set and neither
  the header, nor the footer, nor any page list is read. When the driver knows the name,
  the calls are the read of the anchor, the setting of the default object class, the
  read of the header, the read of the footer and one read per page list, in this order.
\<close>

theorem AttachImpl_unknown_object_class:
  assumes gs: "GetSize kOCNameMaxLength = Inr ntplSize"
    and de: "Deserialize RDaosNTupleAnchor_default
               (read_into (stored env kOidMetadata kDistributionKeyDefault kAttributeKeyAnchor)
                  (make_unique (unat ntplSize)) (ucast ntplSize))
               ntplSize = (Inr n, ntpl)"
  shows "(IsUnknown (ObjClassId env (fObjClass ntpl)) \<longrightarrow>
            AttachImpl env kOCNameMaxLength c =
              (Inl (UnknownObjectClass (fObjClass ntpl)),
               c @ [ReadSingleAkey (ucast ntplSize) kOidMetadata kDistributionKeyDefault
                      kAttributeKeyAnchor (Some kCidMetadata)])) \<and>
         (\<not> IsUnknown (ObjClassId env (fObjClass ntpl)) \<longrightarrow>
            (\<exists>d (cgs :: RClusterGroupDescriptor list).
               AttachImpl env kOCNameMaxLength c =
                 (Inr d,
                  c @ [ReadSingleAkey (ucast ntplSize) kOidMetadata kDistributionKeyDefault
                         kAttributeKeyAnchor (Some kCidMetadata),
                       SetDefaultObjectClass (ObjClassId env (fObjClass ntpl)),
                       ReadSingleAkey (ucast (fNBytesHeader ntpl)) kOidMetadata
                         kDistributionKeyDefault kAttributeKeyHeader (Some kCidMetadata),
                       ReadSingleAkey (ucast (fNBytesFooter ntpl)) kOidMetadata
                         kDistributionKeyDefault kAttributeKeyFooter (Some kCidMetadata)] @
                      map (\<lambda>cg. ReadSingleAkey (fBytesOnStorage (fPageListLocator cg))
                                  kOidPageList kDistributionKeyDefault
                                  (fPosition (fPageListLocator cg)) (Some kCidMetadata)) cgs)))"
proof -
  have n: "ntplSize = 24 + ucast kOCNameMaxLength"
    using gs by (simp add: GetSize_eq)
  note de' = de [unfolded n]
  show ?thesis
    unfolding n
    using AttachImpl_unknown [OF de', of c] AttachImpl_known [OF de', of c]
    by blast
qed

theorem AttachImpl_unknown_object_class_witness:
  "GetSize 64 = Inr 88 \<and>
   Deserialize RDaosNTupleAnchor_default
     (read_into (stored (example_env None) kOidMetadata kDistributionKeyDefault kAttributeKeyAnchor)
        (make_unique (unat (88 :: u32))) (ucast (88 :: u32)))
     88 = (Inr 24, RDaosNTupleAnchor_default) \<and>
   IsUnknown (ObjClassId (example_env None) (fObjClass RDaosNTupleAnchor_default)) \<and>
   AttachImpl (example_env None) 64 [] =
     (Inl (UnknownObjectClass []),
      [ReadSingleAkey 88 kOidMetadata kDistributionKeyDefault kAttributeKeyAnchor
         (Some kCidMetadata)]) \<and>
   \<not> IsUnknown (ObjClassId
       (example_env (Some (spec_anchor_record (RDaosNTupleAnchor_default\<lparr>fObjClass := ''SX''\<rparr>))))
       ''SX'') \<and>
   (\<exists>d (cgs :: RClusterGroupDescriptor list). AttachImpl
       (example_env (Some (spec_anchor_record (RDaosNTupleAnchor_default\<lparr>fObjClass := ''SX''\<rparr>))))
       64 [] =
     (Inr d,
      [ReadSingleAkey 88 kOidMetadata kDistributionKeyDefault kAttributeKeyAnchor
         (Some kCidMetadata),
       SetDefaultObjectClass OC_SX,
       ReadSingleAkey 0 kOidMetadata kDistributionKeyDefault kAttributeKeyHeader
         (Some kCidMetadata),
       ReadSingleAkey 0 kOidMetadata kDistributionKeyDefault kAttributeKeyFooter
         (Some kCidMetadata)] @
      map (\<lambda>cg. ReadSingleAkey (fBytesOnStorage (fPageListLocator cg))
                  kOidPageList kDistributionKeyDefault
                  (fPosition (fPageListLocator cg)) (Some kCidMetadata)) cgs))"
proof -
  let ?A = "RDaosNTupleAnchor_default\<lparr>fObjClass := ''SX''\<rparr>"
  let ?e0 = "example_env None"
  let ?e1 = "example_env (Some (spec_anchor_record ?A))"
  have gs: "GetSize 64 = Inr 88"
    by (simp add: GetSize_eq)
  have de0: "Deserialize RDaosNTupleAnchor_default
     (read_into (stored ?e0 kOidMetadata kDistributionKeyDefault kAttributeKeyAnchor)
        (make_unique (unat (88 :: u32))) (ucast (88 :: u32)))
     88 = (Inr 24, RDaosNTupleAnchor_default)"
    using Deserialize_zeros by (simp add: example_env_def read_into_def make_unique_def)
  have u0: "IsUnknown (ObjClassId ?e0 (fObjClass RDaosNTupleAnchor_default))"
    by (simp add: example_env_def IsUnknown_def RDaosNTupleAnchor_default_def)
  from AttachImpl_unknown_object_class [OF gs de0, of "[]"] u0
  have r0: "AttachImpl ?e0 64 [] =
     (Inl (UnknownObjectClass []),
      [ReadSingleAkey 88 kOidMetadata kDistributionKeyDefault kAttributeKeyAnchor
         (Some kCidMetadata)])"
    by (simp add: RDaosNTupleAnchor_default_def)
  have cls: "fObjClass ?A = ''SX''"
    by simp
  have buf: "read_into (stored ?e1 kOidMetadata kDistributionKeyDefault kAttributeKeyAnchor)
        (make_unique (unat (88 :: u32))) (ucast (88 :: u32)) =
      spec_anchor_record ?A @ replicate 62 0"
    by (simp add: example_env_def read_into_def make_unique_def)
  have "Deserialize RDaosNTupleAnchor_default (spec_anchor_record ?A @ replicate 62 0) 88 =
          (Inr (of_nat (length (fObjClass ?A)) + 24), ?A)"
    by (rule Deserialize_record) simp_all
  then have de1: "Deserialize RDaosNTupleAnchor_default
     (read_into (stored ?e1 kOidMetadata kDistributionKeyDefault kAttributeKeyAnchor)
        (make_unique (unat (88 :: u32))) (ucast (88 :: u32)))
     88 = (Inr 26, ?A)"
    unfolding buf by simp
  have k1: "\<not> IsUnknown (ObjClassId ?e1 ''SX'')"
    by (simp add: example_env_def IsUnknown_def)
  from AttachImpl_unknown_object_class [OF gs de1, of "[]"] k1 cls
  obtain d and cgs :: "RClusterGroupDescriptor list" where
    r1: "AttachImpl ?e1 64 [] =
      (Inr d,
       [] @ [ReadSingleAkey (ucast (88 :: u32)) kOidMetadata kDistributionKeyDefault
               kAttributeKeyAnchor (Some kCidMetadata),
             SetDefaultObjectClass (ObjClassId ?e1 (fObjClass ?A)),
             ReadSingleAkey (ucast (fNBytesHeader ?A)) kOidMetadata
               kDistributionKeyDefault kAttributeKeyHeader (Some kCidMetadata),
             ReadSingleAkey (ucast (fNBytesFooter ?A)) kOidMetadata
               kDistributionKeyDefault kAttributeKeyFooter (Some kCidMetadata)] @
            map (\<lambda>cg. ReadSingleAkey (fBytesOnStorage (fPageListLocator cg))
                        kOidPageList kDistributionKeyDefault
                        (fPosition (fPageListLocator cg)) (Some kCidMetadata)) cgs)"
    by auto
  from r1 have r1': "AttachImpl ?e1 64 [] =
     (Inr d,
      [ReadSingleAkey 88 kOidMetadata kDistributionKeyDefault kAttributeKeyAnchor
         (Some kCidMetadata),
       SetDefaultObjectClass OC_SX,
       ReadSingleAkey 0 kOidMetadata kDistributionKeyDefault kAttributeKeyHeader
         (Some kCidMetadata),
       ReadSingleAkey 0 kOidMetadata kDistributionKeyDefault kAttributeKeyFooter
         (Some kCidMetadata)] @
      map (\<lambda>cg. ReadSingleAkey (fBytesOnStorage (fPageListLocator cg))
                  kOidPageList kDistributionKeyDefault
                  (fPosition (fPageListLocator cg)) (Some kCidMetadata)) cgs)"
    by (simp add: example_env_def RDaosNTupleAnchor_default_def)
  from gs de0 u0 r0 k1 r1' show ?thesis
    by blast
qed

subsection \<open>The bytes after the record\<close>

text \<open>The container with a value under the key of the anchor: \<open>AttachImpl\<close> finds this
  value for the anchor and the rest of the container for everything else.\<close>

lemma stored_with_anchor [simp]:
  "stored (with_anchor env v) kOidMetadata kDistributionKeyDefault kAttributeKeyAnchor = Some v"
  "stored (with_anchor env v) kOidMetadata kDistributionKeyDefault kAttributeKeyHeader =
     stored env kOidMetadata kDistributionKeyDefault kAttributeKeyHeader"
  "stored (with_anchor env v) kOidMetadata kDistributionKeyDefault kAttributeKeyFooter =
     stored env kOidMetadata kDistributionKeyDefault kAttributeKeyFooter"
  "stored (with_anchor env v) kOidPageList dkey akey = stored env kOidPageList dkey akey"
  by (simp_all add: with_anchor_def kAttributeKeyAnchor_def kAttributeKeyHeader_def
        kAttributeKeyFooter_def kOidPageList_def kOidMetadata_def)

lemma fields_with_anchor [simp]:
  "ObjClassId (with_anchor env v) = ObjClassId env"
  "Unzip (with_anchor env v) = Unzip env"
  "RNTupleDescriptorBuilder (with_anchor env v) = RNTupleDescriptorBuilder env"
  "SetOnDiskHeaderSize (with_anchor env v) = SetOnDiskHeaderSize env"
  "AddToOnDiskFooterSize (with_anchor env v) = AddToOnDiskFooterSize env"
  "DeserializeHeaderV1 (with_anchor env v) = DeserializeHeaderV1 env"
  "DeserializeFooterV1 (with_anchor env v) = DeserializeFooterV1 env"
  "MoveDescriptor (with_anchor env v) = MoveDescriptor env"
  "GetClusterGroupIterable (with_anchor env v) = GetClusterGroupIterable env"
  "DeserializePageListV1 (with_anchor env v) = DeserializePageListV1 env"
  by (simp_all add: with_anchor_def)

lemma attach_page_lists_with_anchor:
  "attach_page_lists (with_anchor env v) cgs (d, c) = attach_page_lists env cgs (d, c)"
  by (induction cgs arbitrary: d c) (simp_all add: Let_def)

lemma AttachImpl_anchor_cong:
  assumes "Deserialize RDaosNTupleAnchor_default
             (read_into (Some v) (make_unique (unat (24 + ucast kOCNameMaxLength :: u32)))
                (ucast (24 + ucast kOCNameMaxLength :: u32)))
             (24 + ucast kOCNameMaxLength) =
           Deserialize RDaosNTupleAnchor_default
             (read_into (Some v') (make_unique (unat (24 + ucast kOCNameMaxLength :: u32)))
                (ucast (24 + ucast kOCNameMaxLength :: u32)))
             (24 + ucast kOCNameMaxLength)"
  shows "AttachImpl (with_anchor env v) kOCNameMaxLength c =
         AttachImpl (with_anchor env v') kOCNameMaxLength c"
  using assms
  by (simp add: AttachImpl_def GetSize_eq Let_def attach_page_lists_with_anchor
        split: sum.split prod.split)

text \<open>The read of the anchor brings the record to the front of the buffer, whatever
  follows it in the stored value, and the decoder returns the anchor of the record.\<close>

lemma unat_ucast_up: "unat (ucast (x :: u32) :: u64) = unat x"
proof -
  have "unat x < 2 ^ 32"
    using unsigned_less [of x, where 'a = nat] by simp
  then have "unat x < 18446744073709551616"
    by simp
  then show ?thesis
    by (simp add: unsigned_ucast_eq take_bit_eq_mod)
qed

lemma read_record:
  assumes max: "length (fObjClass a) \<le> unat kOCNameMaxLength"
    and small: "24 + unat (kOCNameMaxLength :: u64) < 2 ^ 32"
  shows "\<exists>rest. read_into (Some (spec_anchor_record a @ tail))
                  (make_unique (unat (24 + ucast kOCNameMaxLength :: u32)))
                  (ucast (24 + ucast kOCNameMaxLength :: u32)) =
                spec_anchor_record a @ rest"
proof -
  let ?n = "24 + ucast kOCNameMaxLength :: u32"
  let ?v = "spec_anchor_record a @ tail"
  have un: "unat ?n = 24 + unat kOCNameMaxLength"
    using small by (rule unat_GetSize)
  define m where "m = min (min (unat (ucast ?n :: u64)) (length ?v)) (length (make_unique (unat ?n)))"
  have le: "length (spec_anchor_record a) \<le> m"
    unfolding m_def using max un by (simp add: unat_ucast_up make_unique_def)
  have tk: "take m ?v = spec_anchor_record a @ take (m - length (spec_anchor_record a)) tail"
    using le by simp
  have "read_into (Some ?v) (make_unique (unat ?n)) (ucast ?n) =
          take m ?v @ drop m (make_unique (unat ?n))"
    unfolding read_into_def m_def by (simp only: Let_def option.case)
  then have "read_into (Some ?v) (make_unique (unat ?n)) (ucast ?n) =
          spec_anchor_record a @
          (take (m - length (spec_anchor_record a)) tail @ drop m (make_unique (unat ?n)))"
    by (simp only: tk append_assoc)
  then show ?thesis
    by blast
qed

lemma Deserialize_read_record:
  assumes max: "length (fObjClass a) \<le> unat kOCNameMaxLength"
    and small: "24 + unat (kOCNameMaxLength :: u64) < 2 ^ 32"
  shows "Deserialize RDaosNTupleAnchor_default
           (read_into (Some (spec_anchor_record a @ tail))
              (make_unique (unat (24 + ucast kOCNameMaxLength :: u32)))
              (ucast (24 + ucast kOCNameMaxLength :: u32)))
           (24 + ucast kOCNameMaxLength) =
         (Inr (of_nat (length (fObjClass a)) + 24), a)"
proof -
  let ?n = "24 + ucast kOCNameMaxLength :: u32"
  have un: "unat ?n = 24 + unat kOCNameMaxLength"
    using small by (rule unat_GetSize)
  have len: "length (fObjClass a) < 2 ^ 32"
    using max small by simp
  have fit: "24 + length (fObjClass a) \<le> unat ?n"
    using max un by simp
  from read_record [OF max small, of tail] obtain rest where
    r: "read_into (Some (spec_anchor_record a @ tail)) (make_unique (unat ?n)) (ucast ?n) =
        spec_anchor_record a @ rest"
    by blast
  show ?thesis
    unfolding r using len fit by (rule Deserialize_record)
qed

lemma AttachImpl_record:
  assumes max: "length (fObjClass a) \<le> unat kOCNameMaxLength"
    and small: "24 + unat (kOCNameMaxLength :: u64) < 2 ^ 32"
  shows "AttachImpl (with_anchor env (spec_anchor_record a @ tail)) kOCNameMaxLength c =
         AttachImpl (with_anchor env (spec_anchor_record a)) kOCNameMaxLength c"
    and "IsUnknown (ObjClassId env (fObjClass a)) \<Longrightarrow>
         AttachImpl (with_anchor env (spec_anchor_record a @ tail)) kOCNameMaxLength c =
         (Inl (UnknownObjectClass (fObjClass a)),
          c @ [ReadSingleAkey (ucast (24 + ucast kOCNameMaxLength :: u32)) kOidMetadata
                 kDistributionKeyDefault kAttributeKeyAnchor (Some kCidMetadata)])"
    and "\<not> IsUnknown (ObjClassId env (fObjClass a)) \<Longrightarrow>
         \<exists>d (cgs :: RClusterGroupDescriptor list).
           AttachImpl (with_anchor env (spec_anchor_record a @ tail)) kOCNameMaxLength c =
           (Inr d,
            c @ [ReadSingleAkey (ucast (24 + ucast kOCNameMaxLength :: u32)) kOidMetadata
                   kDistributionKeyDefault kAttributeKeyAnchor (Some kCidMetadata),
                 SetDefaultObjectClass (ObjClassId env (fObjClass a)),
                 ReadSingleAkey (ucast (fNBytesHeader a)) kOidMetadata
                   kDistributionKeyDefault kAttributeKeyHeader (Some kCidMetadata),
                 ReadSingleAkey (ucast (fNBytesFooter a)) kOidMetadata
                   kDistributionKeyDefault kAttributeKeyFooter (Some kCidMetadata)] @
                map (\<lambda>cg. ReadSingleAkey (fBytesOnStorage (fPageListLocator cg)) kOidPageList
                           kDistributionKeyDefault (fPosition (fPageListLocator cg))
                           (Some kCidMetadata)) cgs)"
proof -
  let ?env = "with_anchor env (spec_anchor_record a @ tail)"
  note de = Deserialize_read_record [OF max small, of tail]
  have de0: "Deserialize RDaosNTupleAnchor_default
           (read_into (Some (spec_anchor_record a))
              (make_unique (unat (24 + ucast kOCNameMaxLength :: u32)))
              (ucast (24 + ucast kOCNameMaxLength :: u32)))
           (24 + ucast kOCNameMaxLength) =
         (Inr (of_nat (length (fObjClass a)) + 24), a)"
    using Deserialize_read_record [OF max small, of "[]"] by simp
  show "AttachImpl ?env kOCNameMaxLength c =
        AttachImpl (with_anchor env (spec_anchor_record a)) kOCNameMaxLength c"
    by (rule AttachImpl_anchor_cong) (simp only: de de0)
  have de': "Deserialize RDaosNTupleAnchor_default
             (read_into (stored ?env kOidMetadata kDistributionKeyDefault kAttributeKeyAnchor)
                (make_unique (unat (24 + ucast kOCNameMaxLength :: u32)))
                (ucast (24 + ucast kOCNameMaxLength :: u32)))
             (24 + ucast kOCNameMaxLength) = (Inr (of_nat (length (fObjClass a)) + 24), a)"
    using de by simp
  show "AttachImpl ?env kOCNameMaxLength c =
         (Inl (UnknownObjectClass (fObjClass a)),
          c @ [ReadSingleAkey (ucast (24 + ucast kOCNameMaxLength :: u32)) kOidMetadata
                 kDistributionKeyDefault kAttributeKeyAnchor (Some kCidMetadata)])"
    if "IsUnknown (ObjClassId env (fObjClass a))"
    using AttachImpl_unknown [OF de', of c] that by simp
  show "\<exists>d (cgs :: RClusterGroupDescriptor list).
           AttachImpl ?env kOCNameMaxLength c =
           (Inr d,
            c @ [ReadSingleAkey (ucast (24 + ucast kOCNameMaxLength :: u32)) kOidMetadata
                   kDistributionKeyDefault kAttributeKeyAnchor (Some kCidMetadata),
                 SetDefaultObjectClass (ObjClassId env (fObjClass a)),
                 ReadSingleAkey (ucast (fNBytesHeader a)) kOidMetadata
                   kDistributionKeyDefault kAttributeKeyHeader (Some kCidMetadata),
                 ReadSingleAkey (ucast (fNBytesFooter a)) kOidMetadata
                   kDistributionKeyDefault kAttributeKeyFooter (Some kCidMetadata)] @
                map (\<lambda>cg. ReadSingleAkey (fBytesOnStorage (fPageListLocator cg)) kOidPageList
                           kDistributionKeyDefault (fPosition (fPageListLocator cg))
                           (Some kCidMetadata)) cgs)"
    if "\<not> IsUnknown (ObjClassId env (fObjClass a))"
    using AttachImpl_known [OF de', of c] that by simp
qed

text \<open>
  Claim C8 (the size of the anchor buffer). \<open>GetSize\<close> returns 20, plus the 4 bytes of the
  length prefix of a string, plus the driver's maximum length of a class name.
  \<open>WriteNTupleAnchor\<close>, whenever it returns, has written the anchor from a buffer of
  exactly this size, with this size as the length of the write, and it returns whenever
  the class name of the anchor fits the maximum. The buffer starts with the record of
  the anchor. \<open>AttachImpl\<close> always starts with a read of the anchor of exactly this size
  and decodes the buffer it read with this size: on a stored value that starts with the
  record of an anchor whose class name fits the maximum it fails with the unknown class
  of this anchor, or it sets the class of this anchor and reads the header and the
  footer with the sizes of this anchor. The bytes after the record are ignored on
  reading: \<open>Deserialize\<close> and \<open>AttachImpl\<close> give the same result whatever follows the
  record, on the buffer of the writer too.
\<close>

theorem anchor_buffer_size:
  assumes small: "24 + unat kOCNameMaxLength < 2 ^ 32"
  shows "\<exists>ntplSize.
           GetSize kOCNameMaxLength = Inr ntplSize \<and>
           unat ntplSize = 20 + (4 + unat kOCNameMaxLength) \<and>
           (\<forall>s s'. WriteNTupleAnchor kOCNameMaxLength s = Inr s' \<longrightarrow>
              (\<exists>buffer.
                 fDaosContainer s' = fDaosContainer s @
                   [WriteSingleAkey buffer (ucast ntplSize) kOidMetadata
                      kDistributionKeyDefault kAttributeKeyAnchor (Some kCidMetadata)] \<and>
                 length buffer = unat ntplSize \<and>
                 take (24 + length (fObjClass (fNTupleAnchor s))) buffer =
                   spec_anchor_record (fNTupleAnchor s) \<and>
                 (\<forall>a0 tail.
                    Deserialize a0
                      (take (24 + length (fObjClass (fNTupleAnchor s))) buffer @ tail) ntplSize =
                    Deserialize a0 buffer ntplSize \<and>
                    snd (Deserialize a0 buffer ntplSize) = fNTupleAnchor s) \<and>
                 (\<forall>(env :: 'd collaborators) c.
                    AttachImpl (with_anchor env buffer) kOCNameMaxLength c =
                    AttachImpl (with_anchor env (spec_anchor_record (fNTupleAnchor s)))
                      kOCNameMaxLength c))) \<and>
           (\<forall>s. length (fObjClass (fNTupleAnchor s)) \<le> unat kOCNameMaxLength \<longrightarrow>
              (\<exists>s'. WriteNTupleAnchor kOCNameMaxLength s = Inr s')) \<and>
           (\<forall>(env :: 'd collaborators) c r c'.
              AttachImpl env kOCNameMaxLength c = (r, c') \<longrightarrow>
              (\<exists>rest. c' = c @ ReadSingleAkey (ucast ntplSize) kOidMetadata
                                  kDistributionKeyDefault kAttributeKeyAnchor
                                  (Some kCidMetadata) # rest)) \<and>
           (\<forall>(env :: 'd collaborators) c a tail.
              length (fObjClass a) \<le> unat kOCNameMaxLength \<longrightarrow>
              AttachImpl (with_anchor env (spec_anchor_record a @ tail)) kOCNameMaxLength c =
              AttachImpl (with_anchor env (spec_anchor_record a)) kOCNameMaxLength c \<and>
              (IsUnknown (ObjClassId env (fObjClass a)) \<longrightarrow>
                 AttachImpl (with_anchor env (spec_anchor_record a @ tail)) kOCNameMaxLength c =
                 (Inl (UnknownObjectClass (fObjClass a)),
                  c @ [ReadSingleAkey (ucast ntplSize) kOidMetadata kDistributionKeyDefault
                         kAttributeKeyAnchor (Some kCidMetadata)])) \<and>
              (\<not> IsUnknown (ObjClassId env (fObjClass a)) \<longrightarrow>
                 (\<exists>d (cgs :: RClusterGroupDescriptor list).
                    AttachImpl (with_anchor env (spec_anchor_record a @ tail)) kOCNameMaxLength c =
                    (Inr d,
                     c @ [ReadSingleAkey (ucast ntplSize) kOidMetadata kDistributionKeyDefault
                            kAttributeKeyAnchor (Some kCidMetadata),
                          SetDefaultObjectClass (ObjClassId env (fObjClass a)),
                          ReadSingleAkey (ucast (fNBytesHeader a)) kOidMetadata
                            kDistributionKeyDefault kAttributeKeyHeader (Some kCidMetadata),
                          ReadSingleAkey (ucast (fNBytesFooter a)) kOidMetadata
                            kDistributionKeyDefault kAttributeKeyFooter (Some kCidMetadata)] @
                         map (\<lambda>cg. ReadSingleAkey (fBytesOnStorage (fPageListLocator cg))
                                    kOidPageList kDistributionKeyDefault
                                    (fPosition (fPageListLocator cg)) (Some kCidMetadata)) cgs))))"
proof -
  let ?n = "24 + ucast kOCNameMaxLength :: u32"
  have gs: "GetSize kOCNameMaxLength = Inr ?n"
    by (simp add: GetSize_eq)
  have un: "unat ?n = 20 + (4 + unat kOCNameMaxLength)"
    using unat_GetSize [OF small] by simp
  have wr: "\<exists>buffer.
              fDaosContainer s' = fDaosContainer s @
                [WriteSingleAkey buffer (ucast ?n) kOidMetadata
                   kDistributionKeyDefault kAttributeKeyAnchor (Some kCidMetadata)] \<and>
              length buffer = unat ?n \<and>
              take (24 + length (fObjClass (fNTupleAnchor s))) buffer =
                spec_anchor_record (fNTupleAnchor s) \<and>
              (\<forall>a0 tail.
                 Deserialize a0
                   (take (24 + length (fObjClass (fNTupleAnchor s))) buffer @ tail) ?n =
                 Deserialize a0 buffer ?n \<and>
                 snd (Deserialize a0 buffer ?n) = fNTupleAnchor s) \<and>
              (\<forall>(env :: 'd collaborators) c.
                 AttachImpl (with_anchor env buffer) kOCNameMaxLength c =
                 AttachImpl (with_anchor env (spec_anchor_record (fNTupleAnchor s)))
                   kOCNameMaxLength c)"
    if w: "WriteNTupleAnchor kOCNameMaxLength s = Inr s'" for s s'
  proof -
    let ?a = "fNTupleAnchor s"
    let ?mem = "make_unique (unat ?n)"
    have fit: "24 + length (fObjClass ?a) \<le> length ?mem"
    proof (rule ccontr)
      assume "\<not> 24 + length (fObjClass ?a) \<le> length ?mem"
      then have "Serialize ?a (Some ?mem) = Inl OutOfBounds"
        by (intro Serialize_short) simp
      with w show False
        by (simp add: WriteNTupleAnchor_def GetSize_eq)
    qed
    then have max: "length (fObjClass ?a) \<le> unat kOCNameMaxLength"
      using un by (simp add: make_unique_def)
    let ?buffer = "spec_anchor_record ?a @ replicate (unat kOCNameMaxLength - length (fObjClass ?a)) 0"
    from w WriteNTupleAnchor_Inr [OF max small] have
      s': "s' = s\<lparr>fDaosContainer := fDaosContainer s @
                [WriteSingleAkey ?buffer (ucast ?n) kOidMetadata kDistributionKeyDefault
                   kAttributeKeyAnchor (Some kCidMetadata)]\<rparr>"
      by simp
    have tr: "fDaosContainer s' = fDaosContainer s @
                [WriteSingleAkey ?buffer (ucast ?n) kOidMetadata kDistributionKeyDefault
                   kAttributeKeyAnchor (Some kCidMetadata)]"
      unfolding s' by simp
    have lb: "length ?buffer = unat ?n"
      using max un by simp
    have small_a: "length (fObjClass ?a) < 2 ^ 32"
      using max small by simp
    have fit_a: "24 + length (fObjClass ?a) \<le> unat ?n"
      using max un by simp
    have tk: "take (24 + length (fObjClass ?a)) ?buffer = spec_anchor_record ?a"
      by simp
    have de: "Deserialize a0 (spec_anchor_record ?a @ tail) ?n =
              (Inr (of_nat (length (fObjClass ?a)) + 24), ?a)" for a0 tail
      using small_a fit_a by (rule Deserialize_record)
    have ig: "Deserialize a0 (take (24 + length (fObjClass ?a)) ?buffer @ tail) ?n =
                Deserialize a0 ?buffer ?n \<and>
              snd (Deserialize a0 ?buffer ?n) = ?a" for a0 tail
      unfolding tk de by simp
    have at: "AttachImpl (with_anchor env ?buffer) kOCNameMaxLength c =
              AttachImpl (with_anchor env (spec_anchor_record ?a)) kOCNameMaxLength c"
      for env :: "'d collaborators" and c
      using max small by (rule AttachImpl_record(1))
    from tr lb tk ig at show ?thesis
      by blast
  qed
  have ok: "\<exists>s'. WriteNTupleAnchor kOCNameMaxLength s = Inr s'"
    if "length (fObjClass (fNTupleAnchor s)) \<le> unat kOCNameMaxLength" for s
    using WriteNTupleAnchor_Inr [OF that small] by blast
  have rd: "\<exists>rest. c' = c @ ReadSingleAkey (ucast ?n) kOidMetadata
                                  kDistributionKeyDefault kAttributeKeyAnchor
                                  (Some kCidMetadata) # rest"
    if "AttachImpl env kOCNameMaxLength c = (r, c')" for env :: "'d collaborators" and c r c'
    using that by (rule AttachImpl_first_call)
  have dec: "AttachImpl (with_anchor env (spec_anchor_record a @ tail)) kOCNameMaxLength c =
              AttachImpl (with_anchor env (spec_anchor_record a)) kOCNameMaxLength c \<and>
              (IsUnknown (ObjClassId env (fObjClass a)) \<longrightarrow>
                 AttachImpl (with_anchor env (spec_anchor_record a @ tail)) kOCNameMaxLength c =
                 (Inl (UnknownObjectClass (fObjClass a)),
                  c @ [ReadSingleAkey (ucast ?n) kOidMetadata kDistributionKeyDefault
                         kAttributeKeyAnchor (Some kCidMetadata)])) \<and>
              (\<not> IsUnknown (ObjClassId env (fObjClass a)) \<longrightarrow>
                 (\<exists>d (cgs :: RClusterGroupDescriptor list).
                    AttachImpl (with_anchor env (spec_anchor_record a @ tail)) kOCNameMaxLength c =
                    (Inr d,
                     c @ [ReadSingleAkey (ucast ?n) kOidMetadata kDistributionKeyDefault
                            kAttributeKeyAnchor (Some kCidMetadata),
                          SetDefaultObjectClass (ObjClassId env (fObjClass a)),
                          ReadSingleAkey (ucast (fNBytesHeader a)) kOidMetadata
                            kDistributionKeyDefault kAttributeKeyHeader (Some kCidMetadata),
                          ReadSingleAkey (ucast (fNBytesFooter a)) kOidMetadata
                            kDistributionKeyDefault kAttributeKeyFooter (Some kCidMetadata)] @
                         map (\<lambda>cg. ReadSingleAkey (fBytesOnStorage (fPageListLocator cg))
                                    kOidPageList kDistributionKeyDefault
                                    (fPosition (fPageListLocator cg)) (Some kCidMetadata)) cgs)))"
    if max: "length (fObjClass a) \<le> unat kOCNameMaxLength"
    for env :: "'d collaborators" and c a tail
    using AttachImpl_record [OF max small, of env tail c] by (intro conjI impI)
  show ?thesis
  proof (rule exI [of _ ?n], intro conjI)
    show "GetSize kOCNameMaxLength = Inr ?n"
      by (rule gs)
    show "unat ?n = 20 + (4 + unat kOCNameMaxLength)"
      by (rule un)
  qed (use wr ok rd dec in blast)+
qed

theorem anchor_buffer_size_witness:
  "24 + unat (64 :: u64) < 2 ^ 32 \<and>
   GetSize 64 = Inr 88 \<and>
   length (fObjClass (fNTupleAnchor
      (RPageSinkDaos_new (RDaosNTupleAnchor_default\<lparr>fObjClass := ''SX''\<rparr>)))) \<le> unat (64 :: u64) \<and>
   (\<exists>s' buffer.
      WriteNTupleAnchor 64
        (RPageSinkDaos_new (RDaosNTupleAnchor_default\<lparr>fObjClass := ''SX''\<rparr>)) = Inr s' \<and>
      fDaosContainer s' =
        [WriteSingleAkey buffer 88 kOidMetadata kDistributionKeyDefault kAttributeKeyAnchor
           (Some kCidMetadata)] \<and>
      length buffer = 88 \<and>
      snd (Deserialize RDaosNTupleAnchor_default buffer 88) =
        RDaosNTupleAnchor_default\<lparr>fObjClass := ''SX''\<rparr> \<and>
      AttachImpl (with_anchor (example_env None) buffer) 64 [] =
      AttachImpl (with_anchor (example_env None)
        (spec_anchor_record (RDaosNTupleAnchor_default\<lparr>fObjClass := ''SX''\<rparr>))) 64 []) \<and>
   (\<exists>r rest. AttachImpl (example_env None) 64 [] =
      (r, ReadSingleAkey 88 kOidMetadata kDistributionKeyDefault kAttributeKeyAnchor
            (Some kCidMetadata) # rest)) \<and>
   length (fObjClass (RDaosNTupleAnchor_default\<lparr>fObjClass := ''XX''\<rparr>)) \<le> unat (64 :: u64) \<and>
   IsUnknown (ObjClassId (example_env None)
     (fObjClass (RDaosNTupleAnchor_default\<lparr>fObjClass := ''XX''\<rparr>))) \<and>
   AttachImpl (with_anchor (example_env None)
      (spec_anchor_record (RDaosNTupleAnchor_default\<lparr>fObjClass := ''XX''\<rparr>) @ [1, 2, 3])) 64 [] =
     (Inl (UnknownObjectClass ''XX''),
      [ReadSingleAkey 88 kOidMetadata kDistributionKeyDefault kAttributeKeyAnchor
         (Some kCidMetadata)]) \<and>
   length (fObjClass (RDaosNTupleAnchor_default\<lparr>fNBytesHeader := 7, fNBytesFooter := 4,
      fObjClass := ''SX''\<rparr>)) \<le> unat (64 :: u64) \<and>
   \<not> IsUnknown (ObjClassId (example_env None)
     (fObjClass (RDaosNTupleAnchor_default\<lparr>fNBytesHeader := 7, fNBytesFooter := 4,
        fObjClass := ''SX''\<rparr>))) \<and>
   (\<exists>d (cgs :: RClusterGroupDescriptor list).
      AttachImpl (with_anchor (example_env None)
        (spec_anchor_record (RDaosNTupleAnchor_default\<lparr>fNBytesHeader := 7, fNBytesFooter := 4,
           fObjClass := ''SX''\<rparr>) @ [1, 2, 3])) 64 [] =
      (Inr d,
       [ReadSingleAkey 88 kOidMetadata kDistributionKeyDefault kAttributeKeyAnchor
          (Some kCidMetadata),
        SetDefaultObjectClass OC_SX,
        ReadSingleAkey 7 kOidMetadata kDistributionKeyDefault kAttributeKeyHeader
          (Some kCidMetadata),
        ReadSingleAkey 4 kOidMetadata kDistributionKeyDefault kAttributeKeyFooter
          (Some kCidMetadata)] @
       map (\<lambda>cg. ReadSingleAkey (fBytesOnStorage (fPageListLocator cg)) kOidPageList
                  kDistributionKeyDefault (fPosition (fPageListLocator cg))
                  (Some kCidMetadata)) cgs))"
proof -
  let ?sx = "RDaosNTupleAnchor_default\<lparr>fObjClass := ''SX''\<rparr>"
  let ?xx = "RDaosNTupleAnchor_default\<lparr>fObjClass := ''XX''\<rparr>"
  let ?hf = "RDaosNTupleAnchor_default\<lparr>fNBytesHeader := 7, fNBytesFooter := 4,
               fObjClass := ''SX''\<rparr>"
  let ?s = "RPageSinkDaos_new ?sx"
  let ?env = "example_env None"
  let ?read = "ReadSingleAkey 88 kOidMetadata kDistributionKeyDefault kAttributeKeyAnchor
                 (Some kCidMetadata)"
  have small: "24 + unat (64 :: u64) < 2 ^ 32"
    by simp
  have max: "length (fObjClass (fNTupleAnchor ?s)) \<le> unat (64 :: u64)"
    by (simp add: RPageSinkDaos_new_def RDaosNTupleAnchor_default_def)
  have mxx: "length (fObjClass ?xx) \<le> unat (64 :: u64)"
    by simp
  have mhf: "length (fObjClass ?hf) \<le> unat (64 :: u64)"
    by simp
  have uxx: "IsUnknown (ObjClassId ?env (fObjClass ?xx))"
    by (simp add: example_env_def IsUnknown_def)
  have khf: "\<not> IsUnknown (ObjClassId ?env (fObjClass ?hf))"
    by (simp add: example_env_def IsUnknown_def)
  from anchor_buffer_size [OF small, where 'd = nat] obtain ntplSize where
    gs: "GetSize 64 = Inr ntplSize" and
    wr: "\<forall>s s'. WriteNTupleAnchor 64 s = Inr s' \<longrightarrow>
              (\<exists>buffer.
                 fDaosContainer s' = fDaosContainer s @
                   [WriteSingleAkey buffer (ucast ntplSize) kOidMetadata
                      kDistributionKeyDefault kAttributeKeyAnchor (Some kCidMetadata)] \<and>
                 length buffer = unat ntplSize \<and>
                 take (24 + length (fObjClass (fNTupleAnchor s))) buffer =
                   spec_anchor_record (fNTupleAnchor s) \<and>
                 (\<forall>a0 tail.
                    Deserialize a0
                      (take (24 + length (fObjClass (fNTupleAnchor s))) buffer @ tail) ntplSize =
                    Deserialize a0 buffer ntplSize \<and>
                    snd (Deserialize a0 buffer ntplSize) = fNTupleAnchor s) \<and>
                 (\<forall>(env :: nat collaborators) c.
                    AttachImpl (with_anchor env buffer) 64 c =
                    AttachImpl (with_anchor env (spec_anchor_record (fNTupleAnchor s))) 64 c))" and
    ok: "\<forall>s. length (fObjClass (fNTupleAnchor s)) \<le> unat (64 :: u64) \<longrightarrow>
              (\<exists>s'. WriteNTupleAnchor 64 s = Inr s')" and
    rd: "\<forall>(env :: nat collaborators) c r c'.
              AttachImpl env 64 c = (r, c') \<longrightarrow>
              (\<exists>rest. c' = c @ ReadSingleAkey (ucast ntplSize) kOidMetadata
                                  kDistributionKeyDefault kAttributeKeyAnchor
                                  (Some kCidMetadata) # rest)" and
    dec: "\<forall>(env :: nat collaborators) c a tail.
              length (fObjClass a) \<le> unat (64 :: u64) \<longrightarrow>
              AttachImpl (with_anchor env (spec_anchor_record a @ tail)) 64 c =
              AttachImpl (with_anchor env (spec_anchor_record a)) 64 c \<and>
              (IsUnknown (ObjClassId env (fObjClass a)) \<longrightarrow>
                 AttachImpl (with_anchor env (spec_anchor_record a @ tail)) 64 c =
                 (Inl (UnknownObjectClass (fObjClass a)),
                  c @ [ReadSingleAkey (ucast ntplSize) kOidMetadata kDistributionKeyDefault
                         kAttributeKeyAnchor (Some kCidMetadata)])) \<and>
              (\<not> IsUnknown (ObjClassId env (fObjClass a)) \<longrightarrow>
                 (\<exists>d (cgs :: RClusterGroupDescriptor list).
                    AttachImpl (with_anchor env (spec_anchor_record a @ tail)) 64 c =
                    (Inr d,
                     c @ [ReadSingleAkey (ucast ntplSize) kOidMetadata kDistributionKeyDefault
                            kAttributeKeyAnchor (Some kCidMetadata),
                          SetDefaultObjectClass (ObjClassId env (fObjClass a)),
                          ReadSingleAkey (ucast (fNBytesHeader a)) kOidMetadata
                            kDistributionKeyDefault kAttributeKeyHeader (Some kCidMetadata),
                          ReadSingleAkey (ucast (fNBytesFooter a)) kOidMetadata
                            kDistributionKeyDefault kAttributeKeyFooter (Some kCidMetadata)] @
                         map (\<lambda>cg. ReadSingleAkey (fBytesOnStorage (fPageListLocator cg))
                                    kOidPageList kDistributionKeyDefault
                                    (fPosition (fPageListLocator cg)) (Some kCidMetadata)) cgs)))"
    by blast
  from gs have n: "ntplSize = 88"
    by (simp add: GetSize_eq)
  from ok max obtain s' where w: "WriteNTupleAnchor 64 ?s = Inr s'"
    by blast
  from wr w obtain buffer where
    tr: "fDaosContainer s' = fDaosContainer ?s @
           [WriteSingleAkey buffer (ucast ntplSize) kOidMetadata
              kDistributionKeyDefault kAttributeKeyAnchor (Some kCidMetadata)]" and
    lb: "length buffer = unat ntplSize" and
    de: "\<forall>a0 tail. Deserialize a0
                      (take (24 + length (fObjClass (fNTupleAnchor ?s))) buffer @ tail) ntplSize =
                    Deserialize a0 buffer ntplSize \<and>
                    snd (Deserialize a0 buffer ntplSize) = fNTupleAnchor ?s" and
    at: "\<forall>(env :: nat collaborators) c.
           AttachImpl (with_anchor env buffer) 64 c =
           AttachImpl (with_anchor env (spec_anchor_record (fNTupleAnchor ?s))) 64 c"
    by blast
  from tr have tr': "fDaosContainer s' =
        [WriteSingleAkey buffer 88 kOidMetadata kDistributionKeyDefault kAttributeKeyAnchor
           (Some kCidMetadata)]"
    by (simp add: n RPageSinkDaos_new_def)
  from lb have lb': "length buffer = 88"
    by (simp add: n)
  from de have "snd (Deserialize RDaosNTupleAnchor_default buffer ntplSize) = fNTupleAnchor ?s"
    by blast
  then have de': "snd (Deserialize RDaosNTupleAnchor_default buffer 88) = ?sx"
    by (simp add: n RPageSinkDaos_new_def)
  from at have "AttachImpl (with_anchor ?env buffer) 64 [] =
                AttachImpl (with_anchor ?env (spec_anchor_record (fNTupleAnchor ?s))) 64 []"
    by blast
  then have at': "AttachImpl (with_anchor ?env buffer) 64 [] =
                  AttachImpl (with_anchor ?env (spec_anchor_record ?sx)) 64 []"
    by (simp add: RPageSinkDaos_new_def)
  obtain r c' where a: "AttachImpl ?env 64 [] = (r, c')"
    by (cases "AttachImpl ?env 64 []") auto
  from rd a obtain rest where
    "c' = [] @ ReadSingleAkey (ucast ntplSize) kOidMetadata kDistributionKeyDefault
                 kAttributeKeyAnchor (Some kCidMetadata) # rest"
    by blast
  then have c': "c' = ?read # rest"
    by (simp add: n)
  have gs': "GetSize 64 = Inr 88"
    using gs n by simp
  from a c' have first: "\<exists>r rest. AttachImpl ?env 64 [] = (r, ?read # rest)"
    by blast
  from w tr' lb' de' at' have wrt: "\<exists>s' buffer.
      WriteNTupleAnchor 64 ?s = Inr s' \<and>
      fDaosContainer s' =
        [WriteSingleAkey buffer 88 kOidMetadata kDistributionKeyDefault kAttributeKeyAnchor
           (Some kCidMetadata)] \<and>
      length buffer = 88 \<and>
      snd (Deserialize RDaosNTupleAnchor_default buffer 88) = ?sx \<and>
      AttachImpl (with_anchor ?env buffer) 64 [] =
      AttachImpl (with_anchor ?env (spec_anchor_record ?sx)) 64 []"
    by blast
  from dec mxx uxx have
    "AttachImpl (with_anchor ?env (spec_anchor_record ?xx @ [1, 2, 3])) 64 [] =
       (Inl (UnknownObjectClass (fObjClass ?xx)),
        [] @ [ReadSingleAkey (ucast ntplSize) kOidMetadata kDistributionKeyDefault
                kAttributeKeyAnchor (Some kCidMetadata)])"
    by blast
  then have unk: "AttachImpl (with_anchor ?env (spec_anchor_record ?xx @ [1, 2, 3])) 64 [] =
       (Inl (UnknownObjectClass ''XX''), [?read])"
    by (simp add: n)
  from dec mhf khf obtain d and cgs :: "RClusterGroupDescriptor list" where
    "AttachImpl (with_anchor ?env (spec_anchor_record ?hf @ [1, 2, 3])) 64 [] =
       (Inr d,
        [] @ [ReadSingleAkey (ucast ntplSize) kOidMetadata kDistributionKeyDefault
                kAttributeKeyAnchor (Some kCidMetadata),
              SetDefaultObjectClass (ObjClassId ?env (fObjClass ?hf)),
              ReadSingleAkey (ucast (fNBytesHeader ?hf)) kOidMetadata
                kDistributionKeyDefault kAttributeKeyHeader (Some kCidMetadata),
              ReadSingleAkey (ucast (fNBytesFooter ?hf)) kOidMetadata
                kDistributionKeyDefault kAttributeKeyFooter (Some kCidMetadata)] @
             map (\<lambda>cg. ReadSingleAkey (fBytesOnStorage (fPageListLocator cg))
                        kOidPageList kDistributionKeyDefault
                        (fPosition (fPageListLocator cg)) (Some kCidMetadata)) cgs)"
    by blast
  then have "AttachImpl (with_anchor ?env (spec_anchor_record ?hf @ [1, 2, 3])) 64 [] =
      (Inr d,
       [?read, SetDefaultObjectClass OC_SX,
        ReadSingleAkey 7 kOidMetadata kDistributionKeyDefault kAttributeKeyHeader
          (Some kCidMetadata),
        ReadSingleAkey 4 kOidMetadata kDistributionKeyDefault kAttributeKeyFooter
          (Some kCidMetadata)] @
       map (\<lambda>cg. ReadSingleAkey (fBytesOnStorage (fPageListLocator cg)) kOidPageList
                  kDistributionKeyDefault (fPosition (fPageListLocator cg))
                  (Some kCidMetadata)) cgs)"
    by (simp add: n example_env_def)
  then have kn: "\<exists>d (cgs :: RClusterGroupDescriptor list).
      AttachImpl (with_anchor ?env (spec_anchor_record ?hf @ [1, 2, 3])) 64 [] =
      (Inr d,
       [?read, SetDefaultObjectClass OC_SX,
        ReadSingleAkey 7 kOidMetadata kDistributionKeyDefault kAttributeKeyHeader
          (Some kCidMetadata),
        ReadSingleAkey 4 kOidMetadata kDistributionKeyDefault kAttributeKeyFooter
          (Some kCidMetadata)] @
       map (\<lambda>cg. ReadSingleAkey (fBytesOnStorage (fPageListLocator cg)) kOidPageList
                  kDistributionKeyDefault (fPosition (fPageListLocator cg))
                  (Some kCidMetadata)) cgs)"
    by blast
  from small gs' max wrt first mxx uxx unk mhf khf kn show ?thesis
    by (intro conjI)
qed
end
